theory Spec2Isabelle
  imports Complex_Main
begin

section \<open>Block types and the block-type state machine of the psychoacoustic model\<close>

text \<open>
  The four window types of Layer III (\<^verbatim>\<open>NORM_TYPE\<close>, \<^verbatim>\<open>START_TYPE\<close>, \<^verbatim>\<open>SHORT_TYPE\<close>,
  \<^verbatim>\<open>STOP_TYPE\<close> in the C code) and the short-block policy of the session configuration.
\<close>

datatype blocktype = NORM_TYPE | START_TYPE | SHORT_TYPE | STOP_TYPE

datatype short_block_t =
  short_block_not_set | short_block_allowed | short_block_coupled
  | short_block_dispensed | short_block_forced

text \<open>
  The variables the two block-type routines work on: the attack decision \<^verbatim>\<open>uselongblock[2]\<close>
  (a C truth value, 0 means "use short blocks"), the result array \<^verbatim>\<open>blocktype_d[2]\<close> handed to
  the caller, and the persistent \<^verbatim>\<open>psv->blocktype_old[2]\<close>.
\<close>

record bt_vars =
  uselongblock :: "int list"
  blocktype_d :: "blocktype list"
  blocktype_old :: "blocktype list"

text \<open>
  One turn of the channel loop shared by \<^verbatim>\<open>block_type_set\<close> and \<^verbatim>\<open>vbrpsy_apply_block_type\<close>:
  given the stored type of the previous granule and the attack decision it yields the final
  type of the previous granule (the value written to \<^verbatim>\<open>blocktype_d[chn]\<close>) and the type stored
  for the next call. The \<^verbatim>\<open>assert(psv->blocktype_old[chn] != START_TYPE)\<close> of the long branch is
  the result \<open>None\<close>.
\<close>

definition apply_block_type_chn :: "int \<Rightarrow> blocktype \<Rightarrow> (blocktype \<times> blocktype) option" where
  "apply_block_type_chn use_long old =
     (if use_long \<noteq> 0 then
        (if old = START_TYPE then None
         else Some (old, if old = SHORT_TYPE then STOP_TYPE else NORM_TYPE))
      else
        (let old1 = (if old = NORM_TYPE then START_TYPE else old);
             old2 = (if old1 = STOP_TYPE then SHORT_TYPE else old1)
         in Some (old2, SHORT_TYPE)))"

text \<open>The body of the channel loop of \<^verbatim>\<open>block_type_set\<close> for channel \<open>chn\<close>.\<close>

definition block_type_set_chn :: "short_block_t \<Rightarrow> nat \<Rightarrow> bt_vars \<Rightarrow> bt_vars option" where
  "block_type_set_chn short_blocks chn v =
     (let u1 = (if short_blocks = short_block_dispensed then (uselongblock v)[chn := 1]
                else uselongblock v);
          u2 = (if short_blocks = short_block_forced then u1[chn := 0] else u1)
      in case apply_block_type_chn (u2 ! chn) (blocktype_old v ! chn) of
           None \<Rightarrow> None
         | Some (d, new) \<Rightarrow>
             Some (v\<lparr>uselongblock := u2,
                     blocktype_d := (blocktype_d v)[chn := d],
                     blocktype_old := (blocktype_old v)[chn := new]\<rparr>))"

text \<open>A \<^verbatim>\<open>for\<close> loop over the given indices whose body may fail.\<close>

fun for_loop :: "(nat \<Rightarrow> 'a \<Rightarrow> 'a option) \<Rightarrow> nat list \<Rightarrow> 'a \<Rightarrow> 'a option" where
  "for_loop body [] v = Some v"
| "for_loop body (chn # chns) v =
     (case body chn v of None \<Rightarrow> None | Some v' \<Rightarrow> for_loop body chns v')"

text \<open>
  The coupling step at the head of \<^verbatim>\<open>block_type_set\<close> and of \<^verbatim>\<open>vbrpsy_compute_block_type\<close>:
  with coupled short blocks both channels switch to short blocks as soon as one does.
\<close>

definition couple_channels :: "short_block_t \<Rightarrow> int list \<Rightarrow> int list" where
  "couple_channels short_blocks u =
     (if short_blocks = short_block_coupled \<and> \<not> (u ! 0 \<noteq> 0 \<and> u ! 1 \<noteq> 0)
      then u[0 := 0, 1 := 0] else u)"

definition block_type_set :: "short_block_t \<Rightarrow> nat \<Rightarrow> bt_vars \<Rightarrow> bt_vars option" where
  "block_type_set short_blocks channels_out v =
     for_loop (block_type_set_chn short_blocks) [0..<channels_out]
       (v\<lparr>uselongblock := couple_channels short_blocks (uselongblock v)\<rparr>)"

text \<open>The variable-bitrate analyzer splits the same work over two routines.\<close>

definition vbrpsy_compute_block_type_chn :: "short_block_t \<Rightarrow> nat \<Rightarrow> int list \<Rightarrow> int list" where
  "vbrpsy_compute_block_type_chn short_blocks chn u =
     (let u1 = (if short_blocks = short_block_dispensed then u[chn := 1] else u)
      in if short_blocks = short_block_forced then u1[chn := 0] else u1)"

definition vbrpsy_compute_block_type :: "short_block_t \<Rightarrow> nat \<Rightarrow> int list \<Rightarrow> int list" where
  "vbrpsy_compute_block_type short_blocks channels_out u =
     fold (vbrpsy_compute_block_type_chn short_blocks) [0..<channels_out]
       (couple_channels short_blocks u)"

definition vbrpsy_apply_block_type_chn :: "nat \<Rightarrow> bt_vars \<Rightarrow> bt_vars option" where
  "vbrpsy_apply_block_type_chn chn v =
     (case apply_block_type_chn (uselongblock v ! chn) (blocktype_old v ! chn) of
        None \<Rightarrow> None
      | Some (d, new) \<Rightarrow>
          Some (v\<lparr>blocktype_d := (blocktype_d v)[chn := d],
                  blocktype_old := (blocktype_old v)[chn := new]\<rparr>))"

definition vbrpsy_apply_block_type :: "nat \<Rightarrow> bt_vars \<Rightarrow> bt_vars option" where
  "vbrpsy_apply_block_type nch v = for_loop vbrpsy_apply_block_type_chn [0..<nch] v"

text \<open>
  A session, as far as block types go: \<^verbatim>\<open>psymodel_init\<close> stores \<^verbatim>\<open>NORM_TYPE\<close> for both
  channels, then every granule brings the attack decisions of its two channels and the
  analyzer returns \<^verbatim>\<open>blocktype_d\<close>. The functions below collect the \<^verbatim>\<open>blocktype_d\<close> arrays
  of all granules, for the constant-bitrate analyzer (\<^verbatim>\<open>L3psycho_anal_ns\<close>, which calls
  \<^verbatim>\<open>block_type_set\<close>) and for \<^verbatim>\<open>L3psycho_anal_vbr\<close>.
\<close>

definition blocktype_old_init :: "blocktype list" where
  "blocktype_old_init = [NORM_TYPE, NORM_TYPE]"

fun ns_block_types ::
  "short_block_t \<Rightarrow> nat \<Rightarrow> blocktype list \<Rightarrow> int list list \<Rightarrow> blocktype list list option" where
  "ns_block_types sb nch old [] = Some []"
| "ns_block_types sb nch old (u # us) =
     (case block_type_set sb nch
             \<lparr>uselongblock = u, blocktype_d = [NORM_TYPE, NORM_TYPE], blocktype_old = old\<rparr> of
        None \<Rightarrow> None
      | Some v \<Rightarrow>
          (case ns_block_types sb nch (blocktype_old v) us of
             None \<Rightarrow> None
           | Some ds \<Rightarrow> Some (blocktype_d v # ds)))"

fun vbr_block_types ::
  "short_block_t \<Rightarrow> nat \<Rightarrow> blocktype list \<Rightarrow> int list list \<Rightarrow> blocktype list list option" where
  "vbr_block_types sb nch old [] = Some []"
| "vbr_block_types sb nch old (u # us) =
     (case vbrpsy_apply_block_type nch
             \<lparr>uselongblock = vbrpsy_compute_block_type sb nch u,
              blocktype_d = [NORM_TYPE, NORM_TYPE], blocktype_old = old\<rparr> of
        None \<Rightarrow> None
      | Some v \<Rightarrow>
          (case vbr_block_types sb nch (blocktype_old v) us of
             None \<Rightarrow> None
           | Some ds \<Rightarrow> Some (blocktype_d v # ds)))"

text \<open>
  Legality of a sequence of block types, read after a granule of type \<open>prev\<close>: a short
  granule follows only a start or a short granule, and only a short or a stop granule follows
  a short one.
\<close>

fun adjacent_ok :: "blocktype \<Rightarrow> blocktype \<Rightarrow> bool" where
  "adjacent_ok SHORT_TYPE b = (b = SHORT_TYPE \<or> b = STOP_TYPE)"
| "adjacent_ok a SHORT_TYPE = (a = START_TYPE)"
| "adjacent_ok a b = True"

fun block_types_legal :: "blocktype \<Rightarrow> blocktype list \<Rightarrow> bool" where
  "block_types_legal prev [] = True"
| "block_types_legal prev (b # bs) = (adjacent_ok prev b \<and> block_types_legal b bs)"

text \<open>
  The link between the type last handed to the caller and the type stored for the next call,
  as the state machine maintains it.
\<close>

fun bt_link :: "blocktype \<Rightarrow> blocktype \<Rightarrow> bool" where
  "bt_link NORM_TYPE s = (s = NORM_TYPE)"
| "bt_link START_TYPE s = (s = SHORT_TYPE)"
| "bt_link SHORT_TYPE s = (s = SHORT_TYPE \<or> s = STOP_TYPE)"
| "bt_link STOP_TYPE s = (s = NORM_TYPE)"

section \<open>Additive masking in the variable-bitrate analyzer\<close>

text \<open>
  \<^verbatim>\<open>FLOAT\<close> values are modelled as real numbers. The C conversion \<^verbatim>\<open>(int) x\<close> of a floating
  point value drops the fraction, rounding towards zero.
\<close>

definition c_int :: "real \<Rightarrow> int" where
  "c_int x = (if 0 \<le> x then \<lfloor>x\<rfloor> else \<lceil>x\<rceil>)"

text \<open>
  The macro \<^verbatim>\<open>FAST_LOG10_X(x, y)\<close> comes from a header that is not part of the sources at
  hand; it is taken as what its name and the comments of \<^verbatim>\<open>mask_add\<close> say,
  \<^verbatim>\<open>log10(x) * y\<close>.
\<close>

definition FAST_LOG10_X :: "real \<Rightarrow> real \<Rightarrow> real" where
  "FAST_LOG10_X x y = log 10 x * y"

definition I1LIMIT :: int where "I1LIMIT = 8"
definition I2LIMIT :: int where "I2LIMIT = 23"
definition MLIMIT :: int where "MLIMIT = 15"

text \<open>
  The limits \<^verbatim>\<open>ma_max_i1\<close>, \<^verbatim>\<open>ma_max_i2\<close> and \<^verbatim>\<open>ma_max_m\<close> as \<^verbatim>\<open>init_mask_add_max_values\<close>
  stores them.
\<close>

definition ma_max_i1 :: real where
  "ma_max_i1 = 10 powr (real_of_int (I1LIMIT + 1) / 16)"

definition ma_max_i2 :: real where
  "ma_max_i2 = 10 powr (real_of_int (I2LIMIT + 1) / 16)"

definition ma_max_m :: real where
  "ma_max_m = 10 powr (real_of_int MLIMIT / 10)"

definition vbr_table2 :: "real list" where
  "vbr_table2 =
     [1.33352 * 1.33352, 1.35879 * 1.35879, 1.38454 * 1.38454, 1.39497 * 1.39497,
      1.40548 * 1.40548, 1.3537 * 1.3537, 1.30382 * 1.30382, 1.22321 * 1.22321,
      1.14758 * 1.14758,
      1]"

text \<open>
  \<^verbatim>\<open>vbrpsy_mask_add(m1, m2, b)\<close>. A read outside \<^verbatim>\<open>table2\<close> has no defined value in C; it is
  the result \<open>None\<close> here.
\<close>

definition vbrpsy_mask_add :: "real \<Rightarrow> real \<Rightarrow> int \<Rightarrow> real option" where
  "vbrpsy_mask_add m1_in m2_in b =
     (let m1 = (if m1_in < 0 then 0 else m1_in);
          m2 = (if m2_in < 0 then 0 else m2_in)
      in if m1 \<le> 0 then Some m2
         else if m2 \<le> 0 then Some m1
         else
           (let ratio = (if m2 > m1 then m2 / m1 else m1 / m2)
            in if - 2 \<le> b \<and> b \<le> 2 then
                 (if ratio \<ge> ma_max_i1 then Some (m1 + m2)
                  else
                    (let i = c_int (FAST_LOG10_X ratio 16)
                     in if 0 \<le> i \<and> i < int (length vbr_table2)
                        then Some ((m1 + m2) * vbr_table2 ! nat i) else None))
               else if ratio < ma_max_i2 then Some (m1 + m2)
               else Some (if m1 < m2 then m2 else m1)))"

section \<open>The quantization loop: data\<close>

text \<open>
  C integer division rounds towards zero; \<^verbatim>\<open>FLOAT8\<close> values are real numbers in this model.
\<close>

definition c_div :: "int \<Rightarrow> int \<Rightarrow> int" where
  "c_div a b = sgn a * sgn b * (\<bar>a\<bar> div \<bar>b\<bar>)"

text \<open>
  The numbers of scalefactor bands come from a header that is not among the sources. The
  functions below use \<^verbatim>\<open>SBPSY_s\<close> and the literal 12 for the same loop bound, and the
  regression tables of \<^verbatim>\<open>pecalc_l\<close> and \<^verbatim>\<open>pecalc_s\<close> have \<^verbatim>\<open>SBMAX_l - 1 = 21\<close> and
  \<^verbatim>\<open>SBMAX_s - 1 = 12\<close> entries.
\<close>

definition SBMAX_l :: nat where "SBMAX_l = 22"
definition SBMAX_s :: nat where "SBMAX_s = 13"
definition SBPSY_l :: nat where "SBPSY_l = 21"
definition SBPSY_s :: nat where "SBPSY_s = 12"

text \<open>\<^verbatim>\<open>gr_info\<close>: the side information of one granule of one channel.\<close>

record gr_info =
  part2_3_length :: int
  big_values :: int
  count1 :: int
  global_gain :: int
  scalefac_compress :: int
  block_type :: blocktype
  mixed_block_flag :: int
  table_select :: "int list"
  subblock_gain :: "int list"
  region0_count :: int
  region1_count :: int
  preflag :: int
  scalefac_scale :: int
  count1table_select :: int
  part2_length :: int
  sfb_lmax :: nat
  sfb_smin :: nat
  count1bits :: int
  sfb_partition_table :: "int list"
  slen :: "int list"

text \<open>
  \<^verbatim>\<open>III_scalefac_t\<close> with its members \<^verbatim>\<open>l[SBMAX_l]\<close> and \<^verbatim>\<open>s[SBMAX_s][3]\<close>, and
  \<^verbatim>\<open>III_psy_xmin\<close> with members of the same shape.
\<close>

record III_scalefac_t =
  scalefac_l :: "int list"
  scalefac_s :: "int list list"

record III_psy_xmin =
  xmin_l :: "real list"
  xmin_s :: "real list list"

text \<open>\<^verbatim>\<open>III_psy_ratio\<close>: the energies and thresholds the psychoacoustic model hands over.\<close>

record III_psy_ratio =
  ratio_thm :: III_psy_xmin
  ratio_en :: III_psy_xmin

record calc_noise_result =
  over_count :: int
  tot_count :: int
  over_noise :: real
  tot_noise :: real
  max_noise :: real
  klemm_noise :: real

datatype vbr_mode = vbr_off | vbr_mt | vbr_rh | vbr_abr | vbr_mtrh

text \<open>
  What the quantizer reads from the encoder state \<^verbatim>\<open>gfc\<close> and the user flags \<^verbatim>\<open>gfp\<close>, the
  conditional-compilation switches of the file, and the routines and tables it uses from
  other files (bit counting and scalefactor bit counting, noise calculation, the table
  \<^verbatim>\<open>ipow20\<close> behind the macro \<^verbatim>\<open>IPOW20\<close>, \<^verbatim>\<open>pretab\<close>, the scalefactor band boundaries). None
  of these is defined in the sources at hand, so they are parameters of the model.

  \<^verbatim>\<open>count_bits\<close> quantizes \<^verbatim>\<open>xrpow\<close> with the step given by \<^verbatim>\<open>global_gain\<close> and returns the
  number of Huffman bits together with the quantized values \<^verbatim>\<open>l3enc\<close>. The Huffman region
  fields it stores in \<^verbatim>\<open>cod_info\<close> are read by no function modelled here; that update is not
  represented.
\<close>

record quant_env =
  version :: int
  VBR :: vbr_mode
  noise_shaping :: int
  noise_shaping_stop :: int
  experimentalX :: int
  experimentalY :: int
  experimentalZ :: int
  nsPsy_use :: int
  sfb21_extra :: int
  RH_AMP :: bool
  RH_OUTERLOOP :: bool
  RH_SUBBLOCK :: bool
  scalefac_band_l :: "int list"
  scalefac_band_s :: "int list"
  pretab :: "int list"
  IPOW20 :: "int \<Rightarrow> real"
  nr_of_sfb_block_0_0 :: "int list"
  count_bits :: "real list \<Rightarrow> gr_info \<Rightarrow> int \<times> int list"
  calc_noise :: "real list \<Rightarrow> int list \<Rightarrow> gr_info \<Rightarrow> III_psy_xmin \<Rightarrow> III_scalefac_t
                 \<Rightarrow> int \<times> real list list \<times> calc_noise_result"
  scale_bitcount :: "III_scalefac_t \<Rightarrow> gr_info \<Rightarrow> int \<times> III_scalefac_t \<times> gr_info"
  scale_bitcount_lsf :: "III_scalefac_t \<Rightarrow> gr_info \<Rightarrow> int \<times> III_scalefac_t \<times> gr_info"
  calc_xmin :: "real list \<Rightarrow> III_psy_ratio \<Rightarrow> gr_info \<Rightarrow> int \<times> III_psy_xmin"

text \<open>The two words of \<^verbatim>\<open>gfc\<close> the step-size search keeps between granules.\<close>

record quant_state =
  OldValue :: "int list"
  CurrentStep :: int

section \<open>The quantization loop: preparation\<close>

text \<open>
  \<^verbatim>\<open>init_outer_loop\<close>. The loop over \<^verbatim>\<open>i < 576\<close> fills \<^verbatim>\<open>xrpow[0..575]\<close> and counts in \<^verbatim>\<open>o\<close> the
  coefficients above \<^verbatim>\<open>1E-20\<close>.
\<close>

definition init_outer_loop ::
  "quant_env \<Rightarrow> gr_info \<Rightarrow> real list \<Rightarrow> real list \<Rightarrow> int \<times> gr_info \<times> III_scalefac_t \<times> real list" where
  "init_outer_loop env cod_info xr xrpow =
     (let c1 = cod_info\<lparr>part2_3_length := 0, big_values := 0, count1 := 0, global_gain := 210,
                 scalefac_compress := 0, table_select := [0, 0, 0], subblock_gain := [0, 0, 0],
                 region0_count := 0, region1_count := 0, preflag := 0, scalefac_scale := 0,
                 count1table_select := 0, part2_length := 0\<rparr>;
          c2 = (if block_type c1 = SHORT_TYPE then
                  (if mixed_block_flag c1 \<noteq> 0
                   then c1\<lparr>sfb_lmax := (if version env = 1 then 8 else 6), sfb_smin := 3\<rparr>
                   else c1\<lparr>sfb_lmax := 0, sfb_smin := 0\<rparr>)
                else c1\<lparr>sfb_lmax := SBPSY_l, sfb_smin := SBPSY_s\<rparr>);
          c3 = c2\<lparr>count1bits := 0, sfb_partition_table := nr_of_sfb_block_0_0 env,
                 slen := [0, 0, 0, 0]\<rparr>;
          scalefac = \<lparr>scalefac_l = replicate SBMAX_l 0,
                      scalefac_s = replicate SBMAX_s [0, 0, 0]\<rparr>;
          xrpow' = map (\<lambda>x. sqrt (\<bar>x\<bar> * sqrt \<bar>x\<bar>)) (take 576 xr) @ drop 576 xrpow;
          o_count = int (length (filter (\<lambda>x. \<bar>x\<bar> > 1 / 10 ^ 20) (take 576 xr)))
      in ((if o_count > 0 then 1 else 0), c3, scalefac, xrpow'))"

section \<open>The quantization loop: step-size search and inner loop\<close>

datatype binsearchDirection_t = BINSEARCH_NONE | BINSEARCH_UP | BINSEARCH_DOWN

text \<open>
  The \<^verbatim>\<open>do { ... } while (1)\<close> loop of \<^verbatim>\<open>bin_search_StepSize\<close>, one call per turn. A loop that
  never reaches a \<^verbatim>\<open>break\<close> is the value \<open>None\<close>. The result is \<^verbatim>\<open>nBits\<close>, the final
  \<^verbatim>\<open>StepSize\<close>, \<^verbatim>\<open>cod_info\<close> and \<^verbatim>\<open>l3enc\<close>.
\<close>

partial_function (option) bin_search_do ::
  "quant_env \<Rightarrow> int \<Rightarrow> real list \<Rightarrow> int \<Rightarrow> int \<Rightarrow> bool \<Rightarrow> binsearchDirection_t \<Rightarrow> gr_info
     \<Rightarrow> (int \<times> int \<times> gr_info \<times> int list) option" where
  "bin_search_do env desired_rate xrpow StepSize CurStep flag_GoneOver Direction cod_info =
     (let cod = cod_info\<lparr>global_gain := StepSize\<rparr>;
          nBits = fst (count_bits env xrpow cod);
          l3enc = snd (count_bits env xrpow cod)
      in if CurStep = 1 then Some (nBits, StepSize, cod, l3enc)
         else
           (let cs1 = (if flag_GoneOver then c_div CurStep 2 else CurStep)
            in if nBits > desired_rate then
                 (let over = (Direction = BINSEARCH_DOWN \<and> \<not> flag_GoneOver);
                      cs2 = (if over then c_div cs1 2 else cs1);
                      StepSize' = StepSize + cs2
                  in if StepSize' > 255 then Some (nBits, StepSize', cod, l3enc)
                     else bin_search_do env desired_rate xrpow StepSize' cs2
                            (flag_GoneOver \<or> over) BINSEARCH_UP cod)
               else if nBits < desired_rate then
                 (let over = (Direction = BINSEARCH_UP \<and> \<not> flag_GoneOver);
                      cs2 = (if over then c_div cs1 2 else cs1);
                      StepSize' = StepSize - cs2
                  in if StepSize' < 0 then Some (nBits, StepSize', cod, l3enc)
                     else bin_search_do env desired_rate xrpow StepSize' cs2
                            (flag_GoneOver \<or> over) BINSEARCH_DOWN cod)
               else Some (nBits, StepSize, cod, l3enc)))"

text \<open>
  \<^verbatim>\<open>bin_search_StepSize\<close>; the \<^verbatim>\<open>assert(gfc->CurrentStep)\<close> at its head is the result \<open>None\<close>.
  It returns \<^verbatim>\<open>nBits\<close> and leaves \<^verbatim>\<open>cod_info\<close>, \<^verbatim>\<open>l3enc\<close> and \<^verbatim>\<open>gfc->CurrentStep\<close> changed.
\<close>

definition bin_search_StepSize ::
  "quant_env \<Rightarrow> quant_state \<Rightarrow> gr_info \<Rightarrow> int \<Rightarrow> int \<Rightarrow> real list
     \<Rightarrow> (int \<times> quant_state \<times> gr_info \<times> int list) option" where
  "bin_search_StepSize env gfc cod_info desired_rate start xrpow =
     (if CurrentStep gfc = 0 then None
      else
        (case bin_search_do env desired_rate xrpow start (CurrentStep gfc) False BINSEARCH_NONE
                cod_info of
           None \<Rightarrow> None
         | Some (nBits, StepSize, cod, l3enc) \<Rightarrow>
             Some (nBits,
                   gfc\<lparr>CurrentStep := (if c_div (start - StepSize) 4 \<noteq> 0 then 4 else 2)\<rparr>,
                   cod, l3enc)))"

text \<open>
  \<^verbatim>\<open>inner_loop\<close>: the \<^verbatim>\<open>while (bits > max_bits)\<close> loop, then the function with its
  \<^verbatim>\<open>assert(max_bits >= 0)\<close>. The result is the bit count, \<^verbatim>\<open>cod_info\<close> and \<^verbatim>\<open>l3enc\<close>; a loop
  that does not end is \<open>None\<close>, and so is the failed assertion.
\<close>

partial_function (option) inner_loop_while ::
  "quant_env \<Rightarrow> int \<Rightarrow> real list \<Rightarrow> int \<Rightarrow> gr_info \<Rightarrow> int list
     \<Rightarrow> (int \<times> gr_info \<times> int list) option" where
  "inner_loop_while env max_bits xrpow bits cod_info l3enc =
     (if bits > max_bits then
        (let cod = cod_info\<lparr>global_gain := global_gain cod_info + 1\<rparr>
         in inner_loop_while env max_bits xrpow (fst (count_bits env xrpow cod)) cod
              (snd (count_bits env xrpow cod)))
      else Some (bits, cod_info, l3enc))"

definition inner_loop ::
  "quant_env \<Rightarrow> gr_info \<Rightarrow> int \<Rightarrow> real list \<Rightarrow> (int \<times> gr_info \<times> int list) option" where
  "inner_loop env cod_info max_bits xrpow =
     (if max_bits < 0 then None
      else inner_loop_while env max_bits xrpow (fst (count_bits env xrpow cod_info)) cod_info
             (snd (count_bits env xrpow cod_info)))"

section \<open>The quantization loop: amplification of scalefactor bands\<close>

text \<open>\<^verbatim>\<open>for (l = lo; l < hi; l++) xrpow[l] *= amp\<close>.\<close>

definition scale_xrpow :: "int \<Rightarrow> int \<Rightarrow> real \<Rightarrow> real list \<Rightarrow> real list" where
  "scale_xrpow lo hi amp xrpow =
     fold (\<lambda>l xs. xs[l := xs ! l * amp]) [nat lo..<nat hi] xrpow"

definition incr_l :: "nat \<Rightarrow> III_scalefac_t \<Rightarrow> III_scalefac_t" where
  "incr_l sfb sf = sf\<lparr>scalefac_l := (scalefac_l sf)[sfb := scalefac_l sf ! sfb + 1]\<rparr>"

definition set_s :: "nat \<Rightarrow> nat \<Rightarrow> int \<Rightarrow> III_scalefac_t \<Rightarrow> III_scalefac_t" where
  "set_s sfb i x sf = sf\<lparr>scalefac_s := (scalefac_s sf)[sfb := (scalefac_s sf ! sfb)[i := x]]\<rparr>"

definition incr_s :: "nat \<Rightarrow> nat \<Rightarrow> III_scalefac_t \<Rightarrow> III_scalefac_t" where
  "incr_s sfb i sf = set_s sfb i (scalefac_s sf ! sfb ! i + 1) sf"

text \<open>\<^verbatim>\<open>loop_break\<close>: 0 if some scalefactor has not been amplified, else 1.\<close>

definition loop_break :: "gr_info \<Rightarrow> III_scalefac_t \<Rightarrow> int" where
  "loop_break cod_info scalefac =
     (if list_ex (\<lambda>sfb. scalefac_l scalefac ! sfb = 0) [0..<sfb_lmax cod_info] then 0
      else if list_ex (\<lambda>sfb. list_ex (\<lambda>i. scalefac_s scalefac ! sfb ! i
                                           + subblock_gain cod_info ! i = 0) [0..<3])
                [sfb_smin cod_info..<SBPSY_s] then 0
      else 1)"

text \<open>\<^verbatim>\<open>quant_compare\<close>; the \<^verbatim>\<open>default\<close> label shares the code of case 0.\<close>

definition quant_compare :: "int \<Rightarrow> calc_noise_result \<Rightarrow> calc_noise_result \<Rightarrow> bool" where
  "quant_compare expX best calc =
     (if expX = 1 then max_noise calc < max_noise best
      else if expX = 2 then tot_noise calc < tot_noise best
      else if expX = 3 then tot_noise calc < tot_noise best \<and> max_noise calc < max_noise best + 2
      else if expX = 4 then
           (max_noise calc \<le> 0 \<and> max_noise best > 2)
         \<or> (max_noise calc \<le> 0 \<and> max_noise best < 0 \<and> max_noise best > max_noise calc - 2
             \<and> tot_noise calc < tot_noise best)
         \<or> (max_noise calc \<le> 0 \<and> max_noise best > 0 \<and> max_noise best > max_noise calc - 2
             \<and> tot_noise calc < tot_noise best + over_noise best)
         \<or> (max_noise calc > 0 \<and> max_noise best > - 0.5 \<and> max_noise best > max_noise calc - 1
             \<and> tot_noise calc + over_noise calc < tot_noise best + over_noise best)
         \<or> (max_noise calc > 0 \<and> max_noise best > - 1 \<and> max_noise best > max_noise calc - 1.5
             \<and> tot_noise calc + over_noise calc + over_noise calc
                 < tot_noise best + over_noise best + over_noise best)
      else if expX = 5 then
           over_noise calc < over_noise best
         \<or> (over_noise calc = over_noise best \<and> tot_noise calc < tot_noise best)
      else if expX = 6 then
           over_noise calc < over_noise best
         \<or> (over_noise calc = over_noise best
             \<and> (max_noise calc < max_noise best
                \<or> (max_noise calc = max_noise best \<and> tot_noise calc \<le> tot_noise best)))
      else if expX = 7 then
           over_count calc < over_count best \<or> over_noise calc < over_noise best
      else if expX = 8 then klemm_noise calc < klemm_noise best
      else
           over_count calc < over_count best
         \<or> (over_count calc = over_count best \<and> over_noise calc < over_noise best)
         \<or> (over_count calc = over_count best \<and> over_noise calc = over_noise best
             \<and> tot_noise calc < tot_noise best))"

definition ifqstep34_of :: "int \<Rightarrow> real" where
  "ifqstep34_of sf_scale =
     (if sf_scale = 0 then 1.29683955465100964055 else 1.68179283050742922612)"

text \<open>
  The pairs \<open>(sfb, i)\<close> that the nested short-block loops
  \<^verbatim>\<open>for (sfb = sfb_smin; sfb < n; sfb++) for (i = 0; i < 3; i++)\<close> go through, in order.
\<close>

definition short_pairs :: "nat \<Rightarrow> nat \<Rightarrow> (nat \<times> nat) list" where
  "short_pairs smin n = List.product [smin..<n] [0..<3]"

text \<open>The width \<^verbatim>\<open>end - start\<close> of short band \<open>sfb\<close>.\<close>

definition width_s :: "quant_env \<Rightarrow> nat \<Rightarrow> int" where
  "width_s env sfb = scalefac_band_s env ! (sfb + 1) - scalefac_band_s env ! sfb"

text \<open>
  \<^verbatim>\<open>amp_scalefac_bands\<close> as compiled without \<^verbatim>\<open>RH_AMP\<close>: first the common threshold, then
  either the amplification of the single worst band (long, and short) or of all bands above
  the threshold. The short-block loops carry the running offset \<^verbatim>\<open>j\<close> into \<^verbatim>\<open>xrpow\<close>.
\<close>

definition amp_thresh :: "gr_info \<Rightarrow> real list list \<Rightarrow> real" where
  "amp_thresh cod_info distort =
     (let t1 = fold (\<lambda>sfb t. max (distort ! 0 ! sfb) t) [0..<sfb_lmax cod_info] (- 900);
          t2 = fold (\<lambda>(sfb, i) t. max (distort ! (i + 1) ! sfb) t)
                 (short_pairs (sfb_smin cod_info) 12) t1
      in if t2 > 1 then 1 else t2 * 0.95)"

definition amp_scalefac_bands_plain ::
  "quant_env \<Rightarrow> gr_info \<Rightarrow> III_scalefac_t \<Rightarrow> real list list \<Rightarrow> real list
     \<Rightarrow> III_scalefac_t \<times> real list" where
  "amp_scalefac_bands_plain env cod_info scalefac distort xrpow =
     (let ifqstep34 = ifqstep34_of (scalefac_scale cod_info);
          distort_thresh = amp_thresh cod_info distort
      in if nsPsy_use env \<noteq> 0 \<and> (VBR env = vbr_off \<or> VBR env = vbr_abr) then
           (let (asfb, max_dist) =
                  fold (\<lambda>sfb (a, m).
                          if distort ! 0 ! sfb > distort_thresh
                             \<and> distort ! 0 ! sfb - distort_thresh > m
                          then (Some sfb, distort ! 0 ! sfb - distort_thresh) else (a, m))
                    [0..<sfb_lmax cod_info] (None, 0);
                (sf1, xr1) =
                  (case asfb of
                     None \<Rightarrow> (scalefac, xrpow)
                   | Some a \<Rightarrow>
                       (incr_l a scalefac,
                        scale_xrpow (scalefac_band_l env ! a) (scalefac_band_l env ! (a + 1))
                          ifqstep34 xrpow));
                (asfb2, ablk, astart, aend, max_dist2, j) =
                  fold (\<lambda>(sfb, i) (a, blk, st, en, m, j).
                          if distort ! (i + 1) ! sfb > distort_thresh \<and> distort ! (i + 1) ! sfb > m
                          then (Some sfb, i, j, j + width_s env sfb, distort ! (i + 1) ! sfb,
                                j + width_s env sfb)
                          else (a, blk, st, en, m, j + width_s env sfb))
                    (short_pairs (sfb_smin cod_info) 12) (None, 0, 0, 0, 0, 0)
            in case asfb2 of
                 None \<Rightarrow> (sf1, xr1)
               | Some a \<Rightarrow> (incr_s a ablk sf1, scale_xrpow astart aend ifqstep34 xr1))
         else
           (let (sf1, xr1) =
                  fold (\<lambda>sfb (sf, xr).
                          if distort ! 0 ! sfb > distort_thresh
                          then (incr_l sfb sf,
                                scale_xrpow (scalefac_band_l env ! sfb)
                                  (scalefac_band_l env ! (sfb + 1)) ifqstep34 xr)
                          else (sf, xr))
                    [0..<sfb_lmax cod_info] (scalefac, xrpow);
                (sf2, xr2, j) =
                  fold (\<lambda>(sfb, i) (sf, xr, j).
                          if distort ! (i + 1) ! sfb > distort_thresh
                          then (incr_s sfb i sf,
                                scale_xrpow j (j + width_s env sfb) ifqstep34 xr,
                                j + width_s env sfb)
                          else (sf, xr, j + width_s env sfb))
                    (short_pairs (sfb_smin cod_info) 12) (sf1, xr1, 0)
            in (sf2, xr2)))"

text \<open>
  \<^verbatim>\<open>amp_scalefac_bands\<close> as compiled with \<^verbatim>\<open>RH_AMP\<close>: four thresholds, one for the long bands
  and one per window, adjusted by the rate mode, then the amplification of every band that
  reaches its threshold. \<^verbatim>\<open>pow\<close> is the real power function.
\<close>

definition amp_thresh_rh :: "quant_env \<Rightarrow> gr_info \<Rightarrow> real list list \<Rightarrow> real list" where
  "amp_thresh_rh env cod_info distort =
     (let t0 = fold (\<lambda>sfb t. t[0 := (if t ! 0 < distort ! 0 ! sfb then distort ! 0 ! sfb else t ! 0)])
                 [0..<sfb_lmax cod_info] [- 1, - 1, - 1, - 1];
          t1 = fold (\<lambda>(sfb, i) t.
                       t[i + 1 := (if t ! (i + 1) < distort ! (i + 1) ! sfb
                                   then distort ! (i + 1) ! sfb else t ! (i + 1))])
                 (short_pairs (sfb_smin cod_info) 12) t0
      in if VBR env = vbr_rh \<or> VBR env = vbr_mtrh then
           (if experimentalY env \<noteq> 0
            then map (\<lambda>d. if d > 1 then d powr 0.50 else d powr 1.02) t1
            else map (\<lambda>d. if d > 1 then 1 else d powr 1.05) t1)
         else
           (if experimentalY env = 0
            then map (\<lambda>d. if d > 1 then d powr 0.25 else d powr 1.05) t1
            else t1))"

definition amp_scalefac_bands_rh ::
  "quant_env \<Rightarrow> gr_info \<Rightarrow> III_scalefac_t \<Rightarrow> real list list \<Rightarrow> real list
     \<Rightarrow> III_scalefac_t \<times> real list" where
  "amp_scalefac_bands_rh env cod_info scalefac distort xrpow =
     (let ifqstep34 = ifqstep34_of (scalefac_scale cod_info);
          distort_thresh = amp_thresh_rh env cod_info distort;
          (sf1, xr1) =
            fold (\<lambda>sfb (sf, xr).
                    if distort ! 0 ! sfb \<ge> distort_thresh ! 0
                    then (incr_l sfb sf,
                          scale_xrpow (scalefac_band_l env ! sfb)
                            (scalefac_band_l env ! (sfb + 1)) ifqstep34 xr)
                    else (sf, xr))
              [0..<sfb_lmax cod_info] (scalefac, xrpow);
          (sf2, xr2, j) =
            fold (\<lambda>(sfb, i) (sf, xr, j).
                    if distort ! (i + 1) ! sfb \<ge> distort_thresh ! (i + 1)
                    then (incr_s sfb i sf,
                          scale_xrpow j (j + width_s env sfb) ifqstep34 xr,
                          j + width_s env sfb)
                    else (sf, xr, j + width_s env sfb))
              (short_pairs (sfb_smin cod_info) 12) (sf1, xr1, 0)
      in (sf2, xr2))"

definition amp_scalefac_bands ::
  "quant_env \<Rightarrow> gr_info \<Rightarrow> III_scalefac_t \<Rightarrow> real list list \<Rightarrow> real list
     \<Rightarrow> III_scalefac_t \<times> real list" where
  "amp_scalefac_bands env cod_info scalefac distort xrpow =
     (if RH_AMP env then amp_scalefac_bands_rh env cod_info scalefac distort xrpow
      else amp_scalefac_bands_plain env cod_info scalefac distort xrpow)"

text \<open>
  \<^verbatim>\<open>inc_scalefac_scale\<close>. The long-band loop clears \<^verbatim>\<open>preflag\<close> in its first turn, so only
  band 0 sees the flag; the model keeps that.
\<close>

definition inc_scalefac_scale ::
  "quant_env \<Rightarrow> gr_info \<Rightarrow> III_scalefac_t \<Rightarrow> real list
     \<Rightarrow> gr_info \<times> III_scalefac_t \<times> real list" where
  "inc_scalefac_scale env cod_info scalefac xrpow =
     (let ifqstep34 = 1.29683955465100964055;
          (c1, sf1, xr1) =
            fold (\<lambda>sfb (c, sf, xr).
                    let s0 = scalefac_l sf ! sfb + (if preflag c \<noteq> 0 then pretab env ! sfb else 0);
                        odd_s = (s0 mod 2 = 1);
                        s1 = (if odd_s then s0 + 1 else s0);
                        xr' = (if odd_s
                               then scale_xrpow (scalefac_band_l env ! sfb)
                                      (scalefac_band_l env ! (sfb + 1)) ifqstep34 xr
                               else xr)
                    in (c\<lparr>preflag := 0\<rparr>,
                        sf\<lparr>scalefac_l := (scalefac_l sf)[sfb := s1 div 2]\<rparr>, xr'))
              [0..<sfb_lmax cod_info] (cod_info, scalefac, xrpow);
          (sf2, xr2, j) =
            fold (\<lambda>(sfb, i) (sf, xr, j).
                    let s0 = scalefac_s sf ! sfb ! i;
                        odd_s = (s0 mod 2 = 1);
                        s1 = (if odd_s then s0 + 1 else s0);
                        xr' = (if odd_s then scale_xrpow j (j + width_s env sfb) ifqstep34 xr
                               else xr)
                    in (set_s sfb i (s1 div 2) sf, xr', j + width_s env sfb))
              (short_pairs (sfb_smin c1) SBPSY_s) (sf1, xr1, 0)
      in (c1\<lparr>scalefac_scale := 1\<rparr>, sf2, xr2))"

text \<open>
  \<^verbatim>\<open>inc_subblock_gain\<close>. For one window: the two maxima \<^verbatim>\<open>s1\<close> (bands below 6) and \<^verbatim>\<open>s2\<close>
  (bands 6 up to \<^verbatim>\<open>SBPSY_s\<close>), the test of the gain against 7, the increment, and the loop
  that lowers the scalefactors of the window. The result \<open>None\<close> of a window is the
  \<^verbatim>\<open>return 1\<close> in the middle of the loop.
\<close>

definition inc_subblock_gain_window ::
  "quant_env \<Rightarrow> nat \<Rightarrow> gr_info \<times> III_scalefac_t \<times> real list
     \<Rightarrow> (gr_info \<times> III_scalefac_t \<times> real list) option" where
  "inc_subblock_gain_window env window v =
     (case v of (cod_info, scalefac, xrpow) \<Rightarrow>
        (let s1 = fold (\<lambda>sfb m. if m < scalefac_s scalefac ! sfb ! window
                                 then scalefac_s scalefac ! sfb ! window else m)
                    [sfb_smin cod_info..<6] 0;
             s2 = fold (\<lambda>sfb m. if m < scalefac_s scalefac ! sfb ! window
                                 then scalefac_s scalefac ! sfb ! window else m)
                    [max (sfb_smin cod_info) 6..<SBPSY_s] 0
         in if s1 < 16 \<and> s2 < 8 then Some v
            else if subblock_gain cod_info ! window > 7 then None
            else
              (let cod = cod_info\<lparr>subblock_gain :=
                           (subblock_gain cod_info)[window := subblock_gain cod_info ! window + 1]\<rparr>;
                   (sf', xr') =
                     fold (\<lambda>sfb (sf, xr).
                             let s0 = scalefac_s sf ! sfb ! window
                             in if s0 < 0 then (sf, xr)
                                else
                                  (let s1 = s0 - 4 div 2 ^ nat (scalefac_scale cod)
                                   in if s1 \<ge> 0 then (set_s sfb window s1 sf, xr)
                                      else
                                        (let width = scalefac_band_s env ! sfb
                                                       - scalefac_band_s env ! (sfb + 1);
                                             amp = IPOW20 env
                                                     (210 + s1 * 2 ^ nat (scalefac_scale cod + 1))
                                         in (set_s sfb window 0 sf, scale_xrpow 0 width amp xr))))
                       [sfb_smin cod..<SBMAX_s] (scalefac, xrpow)
               in Some (cod, sf', xr'))))"

definition inc_subblock_gain ::
  "quant_env \<Rightarrow> gr_info \<Rightarrow> III_scalefac_t \<Rightarrow> real list
     \<Rightarrow> int \<times> gr_info \<times> III_scalefac_t \<times> real list" where
  "inc_subblock_gain env cod_info scalefac xrpow =
     (case inc_subblock_gain_window env 0 (cod_info, scalefac, xrpow) of
        None \<Rightarrow> (1, cod_info, scalefac, xrpow)
      | Some v1 \<Rightarrow>
          (case inc_subblock_gain_window env 1 v1 of
             None \<Rightarrow> (1, v1)
           | Some v2 \<Rightarrow>
               (case inc_subblock_gain_window env 2 v2 of
                  None \<Rightarrow> (1, v2)
                | Some v3 \<Rightarrow> (0, v3))))"

section \<open>The quantization loop: balance_noise and outer_loop\<close>

text \<open>
  \<^verbatim>\<open>balance_noise\<close>. The condition that admits \<^verbatim>\<open>inc_subblock_gain\<close> depends on the
  compile-time switch \<^verbatim>\<open>RH_SUBBLOCK\<close>. The result is the return value with the changed
  \<^verbatim>\<open>cod_info\<close>, \<^verbatim>\<open>scalefac\<close> and \<^verbatim>\<open>xrpow\<close>.
\<close>

definition scale_bitcount_v ::
  "quant_env \<Rightarrow> III_scalefac_t \<Rightarrow> gr_info \<Rightarrow> int \<times> III_scalefac_t \<times> gr_info" where
  "scale_bitcount_v env scalefac cod_info =
     (if version env = 1 then scale_bitcount env scalefac cod_info
      else scale_bitcount_lsf env scalefac cod_info)"

definition balance_noise ::
  "quant_env \<Rightarrow> gr_info \<Rightarrow> III_scalefac_t \<Rightarrow> real list list \<Rightarrow> real list
     \<Rightarrow> int \<times> gr_info \<times> III_scalefac_t \<times> real list" where
  "balance_noise env cod_info scalefac distort xrpow =
     (let (sf1, xr1) = amp_scalefac_bands env cod_info scalefac distort xrpow
      in if loop_break cod_info sf1 \<noteq> 0 then (0, cod_info, sf1, xr1)
         else
           (let (status1, sf2, cod2) = scale_bitcount_v env sf1 cod_info
            in if status1 = 0 then (1, cod2, sf2, xr1)
               else
                 (let (status2, cod3, sf3, xr3) =
                        (if noise_shaping env > 1 \<and> scalefac_scale cod2 = 0 then
                           (let (c, sf, xr) = inc_scalefac_scale env cod2 sf2 xr1
                            in (0, c, sf, xr))
                         else if block_type cod2 = SHORT_TYPE
                                 \<and> (if RH_SUBBLOCK env then noise_shaping env > 0
                                     else experimentalZ env \<noteq> 0 \<and> noise_shaping env > 1) then
                           (let (st, c, sf, xr) = inc_subblock_gain env cod2 sf2 xr1
                            in ((if st \<noteq> 0 \<or> loop_break c sf \<noteq> 0 then 1 else 0), c, sf, xr))
                         else (status1, cod2, sf2, xr1));
                      (status3, sf4, cod4) =
                        (if status2 = 0 then scale_bitcount_v env sf3 cod3
                         else (status2, sf3, cod3))
                  in ((if status3 = 0 then 1 else 0), cod4, sf4, xr3))))"

text \<open>The variables of \<^verbatim>\<open>outer_loop\<close> that live across the turns of its main loop.\<close>

record outer_vars =
  ol_cod_info :: gr_info
  ol_scalefac :: III_scalefac_t
  ol_xrpow :: "real list"
  ol_l3enc :: "int list"
  ol_l3_enc_w :: "int list"
  ol_distort :: "real list list"
  ol_noise_info :: calc_noise_result
  ol_best_noise_info :: calc_noise_result
  ol_iteration :: int
  ol_over :: int
  ol_copy :: int
  ol_age :: int
  ol_save_scalefac :: III_scalefac_t
  ol_save_cod_info :: gr_info
  ol_save_xrpow :: "real list"

text \<open>
  The \<^verbatim>\<open>do { ... } while (1)\<close> main loop of \<^verbatim>\<open>outer_loop\<close>, one call per turn; the result is
  the state at the \<^verbatim>\<open>break\<close>. \<open>None\<close> stands for a loop without end, for a failed
  \<^verbatim>\<open>assert(iteration != 1)\<close> and for an \<^verbatim>\<open>inner_loop\<close> without result.
\<close>

partial_function (option) outer_loop_do ::
  "quant_env \<Rightarrow> real list \<Rightarrow> III_psy_xmin \<Rightarrow> int \<Rightarrow> int \<Rightarrow> outer_vars \<Rightarrow> outer_vars option" where
  "outer_loop_do env xr l3_xmin targ_bits bits_found v0 =
     (let v = v0\<lparr>ol_iteration := ol_iteration v0 + 1\<rparr>;
          huff_bits = targ_bits - part2_length (ol_cod_info v)
      in if huff_bits < 0 then (if ol_iteration v = 1 then None else Some v)
         else
           (case (if ol_iteration v = 1 then
                    (if bits_found > huff_bits
                     then inner_loop env
                            ((ol_cod_info v)\<lparr>global_gain := global_gain (ol_cod_info v) + 1\<rparr>)
                            huff_bits (ol_xrpow v)
                     else Some (bits_found, ol_cod_info v, ol_l3_enc_w v))
                  else inner_loop env (ol_cod_info v) huff_bits (ol_xrpow v)) of
              None \<Rightarrow> None
            | Some (real_bits, cod1, l3w) \<Rightarrow>
                (let v1 = v\<lparr>ol_cod_info := cod1\<lparr>part2_3_length := real_bits\<rparr>, ol_l3_enc_w := l3w\<rparr>
                 in if noise_shaping env = 0 then
                      Some (v1\<lparr>ol_best_noise_info := ol_noise_info v1, ol_over := 0, ol_copy := 0,
                               ol_l3enc := ol_l3_enc_w v1\<rparr>)
                    else
                      (let (over', distort', noise') =
                             calc_noise env xr (ol_l3_enc_w v1) (ol_cod_info v1) l3_xmin
                               (ol_scalefac v1);
                           v2 = v1\<lparr>ol_over := over', ol_distort := distort', ol_noise_info := noise'\<rparr>;
                           better = (if ol_iteration v2 = 1 then True
                                     else quant_compare (experimentalX env)
                                            (ol_best_noise_info v2) (ol_noise_info v2));
                           v3 = (if better
                                 then v2\<lparr>ol_copy := 0, ol_best_noise_info := ol_noise_info v2,
                                         ol_l3enc := ol_l3_enc_w v2, ol_age := 0\<rparr>
                                 else v2\<lparr>ol_age := ol_age v2 + 1\<rparr>)
                       in if (if RH_OUTERLOOP env
                              then ol_age v3 > 3 \<and> over_count (ol_best_noise_info v3) = 0
                              else noise_shaping_stop env < ol_iteration v3
                                   \<and> ((experimentalX env = 0
                                        \<and> (ol_over v3 = 0 \<or> over_count (ol_best_noise_info v3) = 0))
                                       \<or> (ol_iteration v3 > 7
                                           \<and> over_count (ol_best_noise_info v3) = 0)))
                          then Some v3
                          else if sfb21_extra env \<noteq> 0
                                  \<and> (if block_type (ol_cod_info v3) = SHORT_TYPE
                                      then ol_distort v3 ! 1 ! (SBMAX_s - 1) > 1
                                           \<or> ol_distort v3 ! 2 ! (SBMAX_s - 1) > 1
                                           \<or> ol_distort v3 ! 3 ! (SBMAX_s - 1) > 1
                                      else ol_distort v3 ! 0 ! (SBMAX_l - 1) > 1)
                          then Some v3
                          else
                            (let v4 = (if better
                                       then v3\<lparr>ol_copy := 1, ol_save_scalefac := ol_scalefac v3,
                                               ol_save_cod_info := ol_cod_info v3,
                                               ol_save_xrpow :=
                                                 (if VBR env = vbr_rh \<or> VBR env = vbr_mtrh
                                                  then ol_xrpow v3 else ol_save_xrpow v3)\<rparr>
                                       else v3);
                                 (notdone, cod5, sf5, xr5) =
                                   balance_noise env (ol_cod_info v4) (ol_scalefac v4)
                                     (ol_distort v4) (ol_xrpow v4);
                                 v5 = v4\<lparr>ol_cod_info := cod5, ol_scalefac := sf5, ol_xrpow := xr5\<rparr>
                             in if notdone = 0 then Some v5
                                else outer_loop_do env xr l3_xmin targ_bits bits_found v5)))))"

text \<open>
  \<^verbatim>\<open>outer_loop\<close> up to, but without, its closing \<^verbatim>\<open>assert (cod_info->global_gain < 256)\<close>.
  Locals that C leaves uninitialised hold \<open>undefined\<close>. The result is the return value
  \<^verbatim>\<open>best_noise_info.over_count\<close> with the changed \<^verbatim>\<open>gfc\<close> words, \<^verbatim>\<open>cod_info\<close>, \<^verbatim>\<open>scalefac\<close>,
  \<^verbatim>\<open>xrpow\<close> and \<^verbatim>\<open>l3enc\<close>.
\<close>

definition outer_loop_unchecked ::
  "quant_env \<Rightarrow> quant_state \<Rightarrow> gr_info \<Rightarrow> real list \<Rightarrow> III_psy_xmin \<Rightarrow> III_scalefac_t
     \<Rightarrow> real list \<Rightarrow> int list \<Rightarrow> nat \<Rightarrow> int
     \<Rightarrow> (int \<times> quant_state \<times> gr_info \<times> III_scalefac_t \<times> real list \<times> int list) option" where
  "outer_loop_unchecked env gfc cod_info xr l3_xmin scalefac xrpow l3enc ch targ_bits =
     (case bin_search_StepSize env gfc cod_info targ_bits (OldValue gfc ! ch) xrpow of
        None \<Rightarrow> None
      | Some (bits_found, gfc1, cod1, l3w) \<Rightarrow>
          (let gfc2 = gfc1\<lparr>OldValue := (OldValue gfc1)[ch := global_gain cod1]\<rparr>;
               noise0 = \<lparr>over_count = 100, tot_count = 100, over_noise = 0, tot_noise = 0,
                         max_noise = 0, klemm_noise = undefined\<rparr>;
               best0 = \<lparr>over_count = 100, tot_count = undefined, over_noise = undefined,
                        tot_noise = undefined, max_noise = undefined, klemm_noise = undefined\<rparr>;
               v0 = \<lparr>ol_cod_info = cod1, ol_scalefac = scalefac, ol_xrpow = xrpow,
                     ol_l3enc = l3enc, ol_l3_enc_w = l3w, ol_distort = undefined,
                     ol_noise_info = noise0, ol_best_noise_info = best0, ol_iteration = 0,
                     ol_over = 0, ol_copy = 0, ol_age = 0, ol_save_scalefac = undefined,
                     ol_save_cod_info = undefined, ol_save_xrpow = undefined\<rparr>
           in case outer_loop_do env xr l3_xmin targ_bits bits_found v0 of
                None \<Rightarrow> None
              | Some v \<Rightarrow>
                  (let (cod2, sf2, xr2) =
                         (if ol_copy v \<noteq> 0
                          then (ol_save_cod_info v, ol_save_scalefac v,
                                (if VBR env = vbr_rh \<or> VBR env = vbr_mtrh
                                 then ol_save_xrpow v else ol_xrpow v))
                          else (ol_cod_info v, ol_scalefac v, ol_xrpow v));
                       cod3 = cod2\<lparr>part2_3_length := part2_3_length cod2 + part2_length cod2\<rparr>
                   in Some (over_count (ol_best_noise_info v), gfc2, cod3, sf2, xr2, ol_l3enc v))))"

text \<open>\<^verbatim>\<open>outer_loop\<close> with its closing assertion: a failed assertion gives no result.\<close>

definition outer_loop ::
  "quant_env \<Rightarrow> quant_state \<Rightarrow> gr_info \<Rightarrow> real list \<Rightarrow> III_psy_xmin \<Rightarrow> III_scalefac_t
     \<Rightarrow> real list \<Rightarrow> int list \<Rightarrow> nat \<Rightarrow> int
     \<Rightarrow> (int \<times> quant_state \<times> gr_info \<times> III_scalefac_t \<times> real list \<times> int list) option" where
  "outer_loop env gfc cod_info xr l3_xmin scalefac xrpow l3enc ch targ_bits =
     (case outer_loop_unchecked env gfc cod_info xr l3_xmin scalefac xrpow l3enc ch targ_bits of
        None \<Rightarrow> None
      | Some (over_cnt, gfc', cod', sf', xr', l3') \<Rightarrow>
          (if global_gain cod' < 256 then Some (over_cnt, gfc', cod', sf', xr', l3') else None))"

text \<open>
  The quantization step of the channel loop of \<^verbatim>\<open>iteration_loop\<close>: \<^verbatim>\<open>init_outer_loop\<close>, then
  either the \<^verbatim>\<open>memset\<close> of the 576 values of \<^verbatim>\<open>l3_enc[gr][ch]\<close> or \<^verbatim>\<open>calc_xmin\<close> and
  \<^verbatim>\<open>outer_loop\<close>. The result is the changed \<^verbatim>\<open>gfc\<close> words, \<^verbatim>\<open>cod_info\<close>, \<^verbatim>\<open>scalefac[gr][ch]\<close>
  and \<^verbatim>\<open>l3_enc[gr][ch]\<close>.
\<close>

definition iteration_loop_quantize ::
  "quant_env \<Rightarrow> quant_state \<Rightarrow> gr_info \<Rightarrow> real list \<Rightarrow> III_psy_ratio \<Rightarrow> real list \<Rightarrow> int list
     \<Rightarrow> nat \<Rightarrow> int \<Rightarrow> (quant_state \<times> gr_info \<times> III_scalefac_t \<times> int list) option" where
  "iteration_loop_quantize env gfc cod_info xr ratio xrpow l3_enc ch targ_bits =
     (let (i, cod1, scalefac, xrpow1) = init_outer_loop env cod_info xr xrpow
      in if i = 0 then Some (gfc, cod1, scalefac, replicate 576 0 @ drop 576 l3_enc)
         else
           (case outer_loop env gfc cod1 xr (snd (calc_xmin env xr ratio cod1)) scalefac xrpow1 l3_enc
                   ch targ_bits of
              None \<Rightarrow> None
            | Some (over_cnt, gfc', cod', sf', xr', l3') \<Rightarrow> Some (gfc', cod', sf', l3')))"

section \<open>The quantization loop: example inputs\<close>

text \<open>
  An environment to run the loops in: MPEG-1 at constant bitrate with quality setting 9, for
  which \<^verbatim>\<open>lame_init_qval\<close> stores \<^verbatim>\<open>noise_shaping = 0\<close>; the scalefactor band boundaries and
  \<^verbatim>\<open>pretab\<close> of ISO 11172-3 for 44.1 kHz. The routines that are not among the sources are
  not reached by the run below, on a silent granule, and return fixed values.
\<close>

definition example_env :: quant_env where
  "example_env =
     \<lparr>version = 1, VBR = vbr_off, noise_shaping = 0, noise_shaping_stop = 0,
      experimentalX = 0, experimentalY = 0, experimentalZ = 0, nsPsy_use = 0, sfb21_extra = 0,
      RH_AMP = False, RH_OUTERLOOP = False, RH_SUBBLOCK = False,
      scalefac_band_l = [0, 4, 8, 12, 16, 20, 24, 30, 36, 44, 52, 62, 74, 90, 110, 134, 162,
                         196, 238, 288, 342, 418, 576],
      scalefac_band_s = [0, 4, 8, 12, 16, 22, 30, 40, 52, 66, 84, 106, 136, 192],
      pretab = [0, 0, 0, 0, 0, 0, 0, 0, 0, 0, 0, 1, 1, 1, 1, 2, 2, 3, 3, 3, 2, 0],
      IPOW20 = (\<lambda>x. 2 powr (- (real_of_int (x - 210) * 0.1875))),
      nr_of_sfb_block_0_0 = [6, 5, 5, 5],
      count_bits = (\<lambda>xrpow cod_info. (0, replicate 576 0)),
      calc_noise = (\<lambda>xr l3enc cod xmin sf.
                      (0, replicate 4 (replicate SBMAX_l 0),
                       \<lparr>over_count = 0, tot_count = 0, over_noise = 0, tot_noise = 0,
                        max_noise = 0, klemm_noise = 0\<rparr>)),
      scale_bitcount = (\<lambda>sf cod. (0, sf, cod)),
      scale_bitcount_lsf = (\<lambda>sf cod. (0, sf, cod)),
      calc_xmin = (\<lambda>xr ratio cod.
                     (1, \<lparr>xmin_l = replicate SBMAX_l 0,
                         xmin_s = replicate SBMAX_s [0, 0, 0]\<rparr>))\<rparr>"

text \<open>The words \<^verbatim>\<open>lame_init_old\<close> stores for the step-size search.\<close>

definition quant_state_init :: quant_state where
  "quant_state_init = \<lparr>OldValue = [180, 180], CurrentStep = 4\<rparr>"

text \<open>A \<^verbatim>\<open>gr_info\<close> of a long block, as \<^verbatim>\<open>init_outer_loop\<close> leaves it.\<close>

definition gr_info_fresh :: gr_info where
  "gr_info_fresh =
     \<lparr>part2_3_length = 0, big_values = 0, count1 = 0, global_gain = 210, scalefac_compress = 0,
      block_type = NORM_TYPE, mixed_block_flag = 0, table_select = [0, 0, 0],
      subblock_gain = [0, 0, 0], region0_count = 0, region1_count = 0, preflag = 0,
      scalefac_scale = 0, count1table_select = 0, part2_length = 0, sfb_lmax = 21,
      sfb_smin = 12, count1bits = 0, sfb_partition_table = [6, 5, 5, 5], slen = [0, 0, 0, 0]\<rparr>"

text \<open>Energies and thresholds of a granule, for runs that hand them on unread.\<close>

definition example_ratio :: III_psy_ratio where
  "example_ratio =
     \<lparr>ratio_thm = \<lparr>xmin_l = replicate SBMAX_l 1, xmin_s = replicate SBMAX_s [1, 1, 1]\<rparr>,
      ratio_en = \<lparr>xmin_l = replicate SBMAX_l 2, xmin_s = replicate SBMAX_s [2, 2, 2]\<rparr>\<rparr>"

text \<open>Measure of the step-size search, for its termination proof.\<close>

fun bs_dist :: "binsearchDirection_t \<Rightarrow> int \<Rightarrow> nat" where
  "bs_dist BINSEARCH_NONE ss = 600"
| "bs_dist BINSEARCH_UP ss = nat (256 - ss)"
| "bs_dist BINSEARCH_DOWN ss = nat (ss + 1)"

definition bs_measure :: "int \<Rightarrow> int \<Rightarrow> bool \<Rightarrow> binsearchDirection_t \<Rightarrow> nat" where
  "bs_measure ss cs fl dir = (if fl then nat cs else nat cs + 1 + bs_dist dir ss)"

section \<open>The persistent state of the psychoacoustic model\<close>

text \<open>
  The number \<^verbatim>\<open>CBANDS\<close> of partition bands the arrays are declared for comes from a header
  that is not among the sources; the specification speaks of about 64 partitions.
\<close>

definition CBANDS :: nat where "CBANDS = 64"

text \<open>
  \<^verbatim>\<open>PsyStateVar_t\<close>: the partition maskings of the previous and the pre-previous granule for
  long and short blocks, \<^verbatim>\<open>[4][CBANDS]\<close> each, the saved energies and thresholds \<^verbatim>\<open>en[4]\<close> and
  \<^verbatim>\<open>thm[4]\<close>, and the memories of the attack detection. The member \<^verbatim>\<open>blocktype_old[2]\<close> is
  the field \<open>psv_blocktype_old\<close>.
\<close>

record PsyStateVar_t =
  nb_l1 :: "real list list"
  nb_l2 :: "real list list"
  nb_s1 :: "real list list"
  nb_s2 :: "real list list"
  psv_en :: "III_psy_xmin list"
  psv_thm :: "III_psy_xmin list"
  last_en_subshort :: "real list list"
  last_attacks :: "int list"
  psv_blocktype_old :: "blocktype list"
  loudness_sq_save :: "real list"
  tot_ener :: "real list"

text \<open>
  What \<^verbatim>\<open>psymodel_init\<close> does to \<^verbatim>\<open>gfc->sv_psy\<close>. The function returns at once when the constant
  tables exist already (\<^verbatim>\<open>gfc->cd_psy != 0\<close>, the first argument); otherwise its loops over
  the four channels fill every array with one value. The computation of the constant tables
  that follows does not write to the state.
\<close>

definition psymodel_init :: "bool \<Rightarrow> PsyStateVar_t \<Rightarrow> PsyStateVar_t" where
  "psymodel_init cd_psy_set psv =
     (if cd_psy_set then psv
      else psv\<lparr>psv_blocktype_old := [NORM_TYPE, NORM_TYPE],
               nb_l1 := replicate 4 (replicate CBANDS (10 ^ 20)),
               nb_l2 := replicate 4 (replicate CBANDS (10 ^ 20)),
               nb_s1 := replicate 4 (replicate CBANDS 1.0),
               nb_s2 := replicate 4 (replicate CBANDS 1.0),
               psv_en := replicate 4 \<lparr>xmin_l = replicate SBMAX_l (10 ^ 20),
                                       xmin_s = replicate SBMAX_s (replicate 3 (10 ^ 20))\<rparr>,
               psv_thm := replicate 4 \<lparr>xmin_l = replicate SBMAX_l (10 ^ 20),
                                        xmin_s = replicate SBMAX_s (replicate 3 (10 ^ 20))\<rparr>,
               last_attacks := replicate 4 0,
               last_en_subshort := replicate 4 (replicate 9 10),
               loudness_sq_save := [0, 0]\<rparr>)"

text \<open>The state as \<^verbatim>\<open>calloc\<close> delivers it: every word zero.\<close>

definition psv_calloc :: PsyStateVar_t where
  "psv_calloc =
     \<lparr>nb_l1 = replicate 4 (replicate CBANDS 0), nb_l2 = replicate 4 (replicate CBANDS 0),
      nb_s1 = replicate 4 (replicate CBANDS 0), nb_s2 = replicate 4 (replicate CBANDS 0),
      psv_en = replicate 4 \<lparr>xmin_l = replicate SBMAX_l 0,
                              xmin_s = replicate SBMAX_s (replicate 3 0)\<rparr>,
      psv_thm = replicate 4 \<lparr>xmin_l = replicate SBMAX_l 0,
                               xmin_s = replicate SBMAX_s (replicate 3 0)\<rparr>,
      last_en_subshort = replicate 4 (replicate 9 0), last_attacks = replicate 4 0,
      psv_blocktype_old = [NORM_TYPE, NORM_TYPE], loudness_sq_save = [0, 0],
      tot_ener = replicate 4 0\<rparr>"

section \<open>The session interface: encode calls and close\<close>

text \<open>
  \<^verbatim>\<open>LAME_ID\<close>, the class id of an initialised session, is defined in a header that is not among
  the sources; the functions only compare with it and store 0 otherwise.
\<close>

definition LAME_ID :: int where "LAME_ID = 0xFFF88E3B"

text \<open>
  The session as the interface functions see it. \<^verbatim>\<open>lame_internal_flags\<close> carries the class id
  and the number of input channels; everything else the encoder keeps there (sample buffers,
  bit stream, reservoir, analysis state) is the component \<open>internals\<close> of arbitrary type.
  \<^verbatim>\<open>lame_global_flags\<close> holds the pointer \<^verbatim>\<open>internal_flags\<close> (\<open>None\<close> is \<^verbatim>\<open>NULL\<close>), the flag that the
  library allocated the structure itself, the open file behind \<^verbatim>\<open>exp_nspsytune2.pointer[0]\<close>
  and the frame size.

  The handle a caller holds points to the \<^verbatim>\<open>lame_global_flags\<close>; as a state it is an option,
  \<open>None\<close> once the structure has been freed.
\<close>

record 'e lame_internal_flags =
  Class_ID :: int
  channels_in :: int
  internals :: 'e

record 'e lame_global_flags =
  internal_flags :: "'e lame_internal_flags option"
  lame_allocated_gfp :: int
  exp_nspsytune2_pointer0 :: bool
  framesize :: int

type_synonym 'e handle = "'e lame_global_flags option"

text \<open>
  A call either returns or reads through a \<^verbatim>\<open>NULL\<close> or freed pointer, for which C defines no
  behaviour (\<open>Fault\<close>). A returning encode call yields its return code, the handle state and
  the caller's \<^verbatim>\<open>mp3buf\<close>.
\<close>

datatype 'a outcome = Returns 'a | Fault

type_synonym 'e encode_result = "(int \<times> 'e handle \<times> nat list) outcome"

text \<open>
  The part of \<^verbatim>\<open>lame_encode_buffer_sample_t\<close> after its two tests buffers, resamples and encodes
  through routines that are not among the sources (\<^verbatim>\<open>copy_buffer\<close>, \<^verbatim>\<open>fill_buffer\<close>,
  \<^verbatim>\<open>lame_encode_mp3_frame\<close>); it is the parameter \<open>engine\<close>, a function of the session, the
  two sample buffers, \<^verbatim>\<open>nsamples\<close>, \<^verbatim>\<open>mp3buf\<close> and \<^verbatim>\<open>mp3buf_size\<close>.
\<close>

type_synonym 'e engine =
  "'e lame_global_flags \<Rightarrow> real list \<Rightarrow> real list \<Rightarrow> int \<Rightarrow> nat list \<Rightarrow> int
     \<Rightarrow> int \<times> 'e lame_global_flags \<times> nat list"

definition lame_encode_buffer_sample_t ::
  "'e engine \<Rightarrow> 'e handle \<Rightarrow> real list \<Rightarrow> real list \<Rightarrow> int \<Rightarrow> nat list \<Rightarrow> int
     \<Rightarrow> 'e encode_result" where
  "lame_encode_buffer_sample_t engine h buffer_l buffer_r nsamples mp3buf mp3buf_size =
     (case h of
        None \<Rightarrow> Fault
      | Some gf \<Rightarrow>
          (case internal_flags gf of
             None \<Rightarrow> Fault
           | Some gfc \<Rightarrow>
               if Class_ID gfc \<noteq> LAME_ID then Returns (- 3, h, mp3buf)
               else if nsamples = 0 then Returns (0, h, mp3buf)
               else
                 (case engine gf buffer_l buffer_r nsamples mp3buf mp3buf_size of
                    (ret, gf', mp3buf') \<Rightarrow> Returns (ret, Some gf', mp3buf'))))"

text \<open>
  The five typed entry points share their text up to the conversion of a sample to
  \<^verbatim>\<open>sample_t\<close>: the class test, the test for \<^verbatim>\<open>nsamples == 0\<close>, the two \<^verbatim>\<open>calloc\<close> calls (their
  joint success is the argument \<open>alloc_ok\<close>), the copy of the left buffer and, with more than
  one input channel, of the right one, and the call of \<^verbatim>\<open>lame_encode_buffer_sample_t\<close>.
\<close>

definition encode_buffer_typed ::
  "(real \<Rightarrow> real) \<Rightarrow> 'e engine \<Rightarrow> bool \<Rightarrow> 'e handle \<Rightarrow> real list \<Rightarrow> real list \<Rightarrow> int \<Rightarrow> nat list
     \<Rightarrow> int \<Rightarrow> 'e encode_result" where
  "encode_buffer_typed conv engine alloc_ok h buffer_l buffer_r nsamples mp3buf mp3buf_size =
     (case h of
        None \<Rightarrow> Fault
      | Some gf \<Rightarrow>
          (case internal_flags gf of
             None \<Rightarrow> Fault
           | Some gfc \<Rightarrow>
               if Class_ID gfc \<noteq> LAME_ID then Returns (- 3, h, mp3buf)
               else if nsamples = 0 then Returns (0, h, mp3buf)
               else if \<not> alloc_ok then Returns (- 2, h, mp3buf)
               else
                 lame_encode_buffer_sample_t engine h
                   (map conv (take (nat nsamples) buffer_l))
                   (if channels_in gfc > 1 then map conv (take (nat nsamples) buffer_r)
                    else replicate (nat nsamples) 0)
                   nsamples mp3buf mp3buf_size))"

text \<open>
  \<^verbatim>\<open>short\<close>, \<^verbatim>\<open>float\<close> and \<^verbatim>\<open>long\<close> samples are copied as they are; \<^verbatim>\<open>int\<close> samples and the
  \<^verbatim>\<open>long\<close> samples of \<^verbatim>\<open>lame_encode_buffer_long2\<close> are scaled to 16 bits, by a factor that
  depends on the size in bytes of the type on the platform.
\<close>

definition lame_encode_buffer where
  "lame_encode_buffer = encode_buffer_typed (\<lambda>x. x)"

definition lame_encode_buffer_float where
  "lame_encode_buffer_float = encode_buffer_typed (\<lambda>x. x)"

definition lame_encode_buffer_int where
  "lame_encode_buffer_int sizeof_int = encode_buffer_typed (\<lambda>x. x * (1 / 2 ^ (8 * sizeof_int - 16)))"

definition lame_encode_buffer_long2 where
  "lame_encode_buffer_long2 sizeof_long =
     encode_buffer_typed (\<lambda>x. x * (1 / 2 ^ (8 * sizeof_long - 16)))"

definition lame_encode_buffer_long where
  "lame_encode_buffer_long = encode_buffer_typed (\<lambda>x. x)"

text \<open>
  \<^verbatim>\<open>lame_encode_buffer_interleaved\<close> allocates before anything else and leaves the tests to
  \<^verbatim>\<open>lame_encode_buffer_sample_t\<close>.
\<close>

definition lame_encode_buffer_interleaved ::
  "'e engine \<Rightarrow> bool \<Rightarrow> 'e handle \<Rightarrow> real list \<Rightarrow> int \<Rightarrow> nat list \<Rightarrow> int \<Rightarrow> 'e encode_result" where
  "lame_encode_buffer_interleaved engine alloc_ok h buffer nsamples mp3buf mp3buf_size =
     (if \<not> alloc_ok then Returns (- 2, h, mp3buf)
      else
        lame_encode_buffer_sample_t engine h
          (map (\<lambda>i. buffer ! (2 * i)) [0..<nat nsamples])
          (map (\<lambda>i. buffer ! (2 * i + 1)) [0..<nat nsamples])
          nsamples mp3buf mp3buf_size)"

text \<open>
  \<^verbatim>\<open>lame_close\<close>: after the class test it closes the tuning file, clears the class id, frees
  the internal state, stores \<^verbatim>\<open>NULL\<close> in \<^verbatim>\<open>internal_flags\<close> and, if the library allocated the
  structure, frees the structure as well. The result is the return code and the state of the
  handle.
\<close>

definition lame_close :: "'e handle \<Rightarrow> (int \<times> 'e handle) outcome" where
  "lame_close h =
     (case h of
        None \<Rightarrow> Fault
      | Some gf \<Rightarrow>
          (case internal_flags gf of
             None \<Rightarrow> Fault
           | Some gfc \<Rightarrow>
               if Class_ID gfc \<noteq> LAME_ID then Returns (- 3, h)
               else
                 (let gf1 = gf\<lparr>exp_nspsytune2_pointer0 := False, internal_flags := None\<rparr>
                  in if lame_allocated_gfp gf1 \<noteq> 0 then Returns (0, None)
                     else Returns (0, Some gf1))))"

text \<open>The handle state a call leaves behind (the freed state after a fault).\<close>

fun handle_after :: "(int \<times> 'e handle) outcome \<Rightarrow> 'e handle" where
  "handle_after (Returns (ret, h)) = h"
| "handle_after Fault = None"

text \<open>
  Example sessions: one that \<^verbatim>\<open>lame_init\<close> allocated and \<^verbatim>\<open>lame_init_params\<close> completed, one
  in a structure of the caller, and an engine that emits nothing.
\<close>

definition session_valid :: "unit lame_global_flags" where
  "session_valid =
     \<lparr>internal_flags = Some \<lparr>Class_ID = LAME_ID, channels_in = 2, internals = ()\<rparr>,
      lame_allocated_gfp = 1, exp_nspsytune2_pointer0 = False, framesize = 1152\<rparr>"

definition session_static :: "unit lame_global_flags" where
  "session_static = session_valid\<lparr>lame_allocated_gfp := 0\<rparr>"

definition idle_engine :: "unit engine" where
  "idle_engine gf buffer_l buffer_r nsamples mp3buf mp3buf_size = (0, gf, mp3buf)"

section \<open>Attack detection\<close>

text \<open>
  Both analyzers hold the same text for the energies of the sub-short blocks. For one channel
  it reads the nine values \<^verbatim>\<open>psv->last_en_subshort[chn]\<close> of the previous granule and the 576
  high-pass filtered samples \<^verbatim>\<open>ns_hpfsmpl[chn & 1]\<close>, and fills \<^verbatim>\<open>en_subshort[12]\<close>,
  \<^verbatim>\<open>attack_intensity[12]\<close> and \<^verbatim>\<open>en_short[4]\<close>; it also stores the nine new peaks in
  \<^verbatim>\<open>psv->last_en_subshort[chn]\<close>. A failed \<^verbatim>\<open>assert\<close> is the result \<open>None\<close>.
\<close>

record attack_vars =
  en_subshort :: "real list"
  attack_intensity :: "real list"
  en_short :: "real list"
  new_en_subshort :: "real list"

text \<open>The peak \<^verbatim>\<open>p\<close> of sub-short block \<open>i\<close>: the largest magnitude of its 64 samples, at least 1.\<close>

definition sub_short_peak :: "real list \<Rightarrow> nat \<Rightarrow> real" where
  "sub_short_peak pf i =
     fold (\<lambda>k p. if p < \<bar>pf ! k\<bar> then \<bar>pf ! k\<bar> else p) [64 * i..<64 * i + 64] 1"

definition attack_energies_head :: "real list \<Rightarrow> attack_vars option" where
  "attack_energies_head last_en =
     (if list_ex (\<lambda>i. \<not> last_en ! (i + 4) > 0) [0..<3] then None
      else Some \<lparr>en_subshort = map (\<lambda>i. last_en ! (i + 6)) [0..<3] @ replicate 9 0,
                 attack_intensity = map (\<lambda>i. last_en ! (i + 6) / last_en ! (i + 4)) [0..<3]
                                      @ replicate 9 0,
                 en_short = [last_en ! 6 + last_en ! 7 + last_en ! 8, 0, 0, 0],
                 new_en_subshort = last_en\<rparr>)"

text \<open>
  The attack intensity of a sub-short block with peak \<open>p\<close> against the peak \<open>q\<close> two blocks
  earlier: the ratio of a rise, a tenth of the ratio of a fall, else 0.
\<close>

definition attack_intensity_of :: "real \<Rightarrow> real \<Rightarrow> real option" where
  "attack_intensity_of p q =
     (if p > q then (if q > 0 then Some (p / q) else None)
      else if q > p * 10 then (if p > 0 then Some (q / (p * 10)) else None)
      else Some 0)"

definition attack_energies_step :: "real list \<Rightarrow> nat \<Rightarrow> attack_vars \<Rightarrow> attack_vars option" where
  "attack_energies_step pf i v =
     (case attack_intensity_of (sub_short_peak pf i)
             ((en_subshort v)[i + 3 := sub_short_peak pf i] ! (i + 3 - 2)) of
        None \<Rightarrow> None
      | Some a \<Rightarrow>
          Some (v\<lparr>new_en_subshort := (new_en_subshort v)[i := sub_short_peak pf i],
                  en_subshort := (en_subshort v)[i + 3 := sub_short_peak pf i],
                  en_short := (en_short v)[1 + i div 3 :=
                                en_short v ! (1 + i div 3) + sub_short_peak pf i],
                  attack_intensity := (attack_intensity v)[i + 3 := a]\<rparr>))"

definition attack_energies :: "real list \<Rightarrow> real list \<Rightarrow> attack_vars option" where
  "attack_energies last_en pf =
     (case attack_energies_head last_en of
        None \<Rightarrow> None
      | Some v \<Rightarrow> for_loop (attack_energies_step pf) [0..<9] v)"

text \<open>
  "Compare energies between sub-shortblocks": position \<open>i / 3\<close> gets the mark \<open>i % 3 + 1\<close> of
  the first of its three sub-short blocks whose attack intensity exceeds the threshold \<open>x\<close>.
\<close>

definition attack_marks :: "real \<Rightarrow> real list \<Rightarrow> int list \<Rightarrow> int list" where
  "attack_marks x intensity ns_attacks =
     fold (\<lambda>i a. if a ! (i div 3) = 0 \<and> intensity ! i > x
                  then a[i div 3 := int (i mod 3) + 1] else a)
       [0..<12] ns_attacks"

text \<open>
  The test against periodic signals of \<^verbatim>\<open>L3psycho_anal_ns\<close>, for \<open>i = 1, 2, 3\<close>, with its two
  assertions.
\<close>

definition ns_periodic_step :: "real list \<Rightarrow> nat \<Rightarrow> int list \<Rightarrow> int list option" where
  "ns_periodic_step esh i a =
     (case (if esh ! (i - 1) > esh ! i
            then (if esh ! i > 0 then Some (esh ! (i - 1) / esh ! i) else None)
            else (if esh ! (i - 1) > 0 then Some (esh ! i / esh ! (i - 1)) else None)) of
        None \<Rightarrow> None
      | Some ratio \<Rightarrow>
          Some (if ratio < 1.7 then (let a1 = a[i := 0] in if i = 1 then a1[0 := 0] else a1)
                else a))"

text \<open>The same test in \<^verbatim>\<open>vbrpsy_attack_detection\<close>.\<close>

definition vbr_periodic_step :: "real list \<Rightarrow> nat \<Rightarrow> int list \<Rightarrow> int list" where
  "vbr_periodic_step esh i a =
     (let u = esh ! (i - 1); v = esh ! i; m = max u v
      in if m < 40000 then
           (if u < 1.7 * v \<and> v < 1.7 * u then
              (let a1 = (if i = 1 \<and> a ! 0 \<le> a ! i then a[0 := 0] else a) in a1[i := 0])
            else a)
         else a)"

text \<open>
  The end of the detection, the same in both analyzers: with an attack at hand (or one at
  the end of the previous granule) short blocks are chosen and a mark next to a marked
  position is dropped. The result is the marks and \<^verbatim>\<open>ns_uselongblock\<close>.
\<close>

definition attack_decide :: "int \<Rightarrow> int list \<Rightarrow> int list \<times> int" where
  "attack_decide last_att a =
     (if last_att = 3 \<or> a ! 0 + a ! 1 + a ! 2 + a ! 3 \<noteq> 0 then
        (let a1 = (if a ! 1 \<noteq> 0 \<and> a ! 0 \<noteq> 0 then a[1 := 0] else a);
             a2 = (if a1 ! 2 \<noteq> 0 \<and> a1 ! 1 \<noteq> 0 then a1[2 := 0] else a1);
             a3 = (if a2 ! 3 \<noteq> 0 \<and> a2 ! 2 \<noteq> 0 then a2[3 := 0] else a2)
         in (a3, 0))
      else (a, 1))"

text \<open>
  The attack detection of \<^verbatim>\<open>L3psycho_anal_ns\<close> for one channel: threshold
  \<^verbatim>\<open>attack_threshold[chn]\<close>, \<^verbatim>\<open>psv->last_attacks[chn]\<close>, \<^verbatim>\<open>psv->last_en_subshort[chn]\<close> and the
  filtered samples. The marks start from \<^verbatim>\<open>ns_attacks[4] = { 0 }\<close>. The result is the marks,
  \<^verbatim>\<open>ns_uselongblock\<close> and the new \<^verbatim>\<open>last_en_subshort[chn]\<close>.
\<close>

definition ns_attack_detection ::
  "real \<Rightarrow> int \<Rightarrow> real list \<Rightarrow> real list \<Rightarrow> (int list \<times> int \<times> real list) option" where
  "ns_attack_detection x last_att last_en pf =
     (case attack_energies last_en pf of
        None \<Rightarrow> None
      | Some v \<Rightarrow>
          (case for_loop (ns_periodic_step (en_short v)) [1..<4]
                  (attack_marks x (attack_intensity v) [0, 0, 0, 0]) of
             None \<Rightarrow> None
           | Some a \<Rightarrow>
               (let a1 = (if a ! 0 \<noteq> 0 \<and> last_att \<noteq> 0 then a[0 := 0] else a)
                in Some (fst (attack_decide last_att a1), snd (attack_decide last_att a1),
                         new_en_subshort v))))"

text \<open>
  The channel loop body of \<^verbatim>\<open>vbrpsy_attack_detection\<close>; the marks \<^verbatim>\<open>ns_attacks[chn]\<close> come
  from the caller, which passes zeros.
\<close>

definition vbrpsy_attack_detection ::
  "real \<Rightarrow> int \<Rightarrow> real list \<Rightarrow> real list \<Rightarrow> int list \<Rightarrow> (int list \<times> int \<times> real list) option" where
  "vbrpsy_attack_detection x last_att last_en pf ns_attacks =
     (case attack_energies last_en pf of
        None \<Rightarrow> None
      | Some v \<Rightarrow>
          (let a = fold (vbr_periodic_step (en_short v)) [1..<4]
                     (attack_marks x (attack_intensity v) ns_attacks);
               a1 = (if a ! 0 \<le> last_att then a[0 := 0] else a)
           in Some (fst (attack_decide last_att a1), snd (attack_decide last_att a1),
                    new_en_subshort v)))"

text \<open>Invariant of the loop over the nine sub-short blocks, before turn \<open>i\<close>.\<close>

definition energies_inv :: "nat \<Rightarrow> attack_vars \<Rightarrow> bool" where
  "energies_inv i v \<longleftrightarrow>
     length (en_subshort v) = 12 \<and> length (en_short v) = 4 \<and> length (attack_intensity v) = 12
     \<and> (\<forall>j < i + 3. 0 < en_subshort v ! j)
     \<and> (\<forall>k<4. 0 \<le> en_short v ! k) \<and> 0 < en_short v ! 0
     \<and> (\<forall>k. 1 \<le> k \<and> k < 4 \<and> 3 * (k - 1) < i \<longrightarrow> 0 < en_short v ! k)"

text \<open>
  The two conditions on a surviving mark, for position \<open>k\<close>: some sub-short block of the position
  exceeds the threshold; the energies of the two neighbouring short blocks differ by a factor
  of 1.7 at least, or the larger one is 40000 at least.
\<close>

definition intensity_exceeds :: "real \<Rightarrow> real list \<Rightarrow> nat \<Rightarrow> bool" where
  "intensity_exceeds x intensity k = list_ex (\<lambda>i. intensity ! i > x) [3 * k..<3 * k + 3]"

definition non_periodic :: "real list \<Rightarrow> nat \<Rightarrow> bool" where
  "non_periodic esh i =
     (esh ! (i - 1) \<ge> 1.7 * esh ! i \<or> esh ! i \<ge> 1.7 * esh ! (i - 1)
      \<or> max (esh ! (i - 1)) (esh ! i) \<ge> 40000)"


text \<open>The test of \<^verbatim>\<open>L3psycho_anal_ns\<close> alone: the two energies differ by a factor of 1.7 at least.\<close>

definition ratio_differs :: "real list \<Rightarrow> nat \<Rightarrow> bool" where
  "ratio_differs esh i = (esh ! (i - 1) \<ge> 1.7 * esh ! i \<or> esh ! i \<ge> 1.7 * esh ! (i - 1))"

text \<open>The marks \<open>a\<close> come from the marks \<open>b\<close> by clearing some of them.\<close>

definition marks_cleared :: "int list \<Rightarrow> int list \<Rightarrow> bool" where
  "marks_cleared a b \<longleftrightarrow> length a = 4 \<and> length b = 4 \<and> (\<forall>k<4. a ! k = b ! k \<or> a ! k = 0)"

text \<open>
  Example inputs. A granule of 576 filtered samples whose nine sub-short blocks are constant,
  with the given peaks; the threshold 4.4; a signal of period two sub-short blocks, after
  a granule that ended with a loud block; an onset in the last short block after a quiet granule.
\<close>

definition block_signal :: "real list \<Rightarrow> real list" where
  "block_signal peaks = map (\<lambda>k. peaks ! (k div 64)) [0..<576]"

definition example_threshold :: real where
  "example_threshold = 4.4"

definition periodic_last_en :: "real list" where
  "periodic_last_en = [1, 1, 1, 1, 1, 1, 1, 1, 100]"

definition periodic_peaks :: "real list" where
  "periodic_peaks = [1, 100, 1, 100, 1, 100, 1, 100, 1]"

definition quiet_last_en :: "real list" where
  "quiet_last_en = [1, 1, 1, 1, 1, 1, 1, 1, 1]"

definition onset_peaks :: "real list" where
  "onset_peaks = [1, 1, 1, 1, 1, 1, 100, 100, 100]"
section \<open>Masking thresholds\<close>

text \<open>
  The tables \<^verbatim>\<open>gfc->cd_psy->l\<close> (\<^verbatim>\<open>PsyConst_l_t\<close>) that the long-block threshold computation
  reads: the number of partitions, the FFT lines of each partition and the reciprocal, the
  spreading function \<^verbatim>\<open>s3\<close> with the first and last partition \<^verbatim>\<open>s3ind[b][0..1]\<close> that spread
  into partition \<open>b\<close>, the limits \<^verbatim>\<open>bo\<close> and weights \<^verbatim>\<open>bo_weight\<close> of the scalefactor
  bands, and the stereo demasking \<^verbatim>\<open>mld_cb\<close>. The tables \<^verbatim>\<open>gfc->cd_psy->s\<close> for short blocks
  have members of the same names. An array is a list; a read outside the list is the result
  \<open>None\<close> of the function that reads, as is a failed \<^verbatim>\<open>assert\<close>.
\<close>

record PsyConst_l_t =
  npart :: nat
  numlines :: "int list"
  rnumlines :: "real list"
  s3 :: "real list"
  s3ind :: "(nat \<times> nat) list"
  masking_lower :: "real list"
  minval :: "real list"
  bo :: "nat list"
  bo_weight :: "real list"
  mld_cb :: "real list"

type_synonym PsyConst_s_t = PsyConst_l_t

text \<open>
  The constants \<^verbatim>\<open>rpelev\<close>, \<^verbatim>\<open>rpelev2\<close>, \<^verbatim>\<open>NS_PREECHO_ATT0\<close>, \<^verbatim>\<open>NS_PREECHO_ATT1\<close> and
  \<^verbatim>\<open>NS_PREECHO_ATT2\<close> come from a header that is not part of the sources at hand; they are
  parameters here.
\<close>

record psy_header =
  rpelev :: real
  rpelev2 :: real
  NS_PREECHO_ATT0 :: real
  NS_PREECHO_ATT1 :: real
  NS_PREECHO_ATT2 :: real

text \<open>What the analysis reads of \<^verbatim>\<open>gfc->ATH\<close>.\<close>

record ATH_t =
  cb_l :: "real list"
  cb_s :: "real list"
  adjust_factor :: real

text \<open>The sizes \<^verbatim>\<open>HBLKSIZE\<close> and \<^verbatim>\<open>HBLKSIZE_s\<close>, which \<^verbatim>\<open>psymodel_init\<close> asserts as 513 and 129.\<close>

definition HBLKSIZE :: nat where "HBLKSIZE = 513"

definition HBLKSIZE_s :: nat where "HBLKSIZE_s = 129"

definition tab :: "real list" where
  "tab = [1.0, 0.79433, 0.63096, 0.63096, 0.63096, 0.63096, 0.63096, 0.25119, 0.11749]"

definition last_tab_entry :: int where
  "last_tab_entry = int (length tab) - 1"

text \<open>The macro \<^verbatim>\<open>Min(A, B)\<close>, \<^verbatim>\<open>((A) < (B) ? (A) : (B))\<close>.\<close>

definition Min_c :: "real \<Rightarrow> real \<Rightarrow> real" where
  "Min_c a b = (if a < b then a else b)"

text \<open>The macro \<^verbatim>\<open>Max(A, B)\<close>, \<^verbatim>\<open>((A) > (B) ? (A) : (B))\<close>.\<close>

definition Max_c :: "real \<Rightarrow> real \<Rightarrow> real" where
  "Max_c a b = (if a > b then a else b)"

text \<open>
  \<^verbatim>\<open>NS_INTERP(x, y, r)\<close>; \<^verbatim>\<open>pow\<close> is the real power, which is what it computes for the
  base \<^verbatim>\<open>x / y\<close> not below zero.
\<close>

definition NS_INTERP :: "real \<Rightarrow> real \<Rightarrow> real \<Rightarrow> real" where
  "NS_INTERP x y r =
     (if r \<ge> 1 then x else if r \<le> 0 then y else if y > 0 then (x / y) powr r * y else 0)"

subsection \<open>Energy and masking index of the partitions\<close>

text \<open>The inner loop of \<^verbatim>\<open>calc_energy\<close> over the lines of one partition: sum and maximum.\<close>

definition energy_of_lines :: "real list \<Rightarrow> (real \<times> real) option" where
  "energy_of_lines els =
     (if list_ex (\<lambda>el. \<not> 0 \<le> el) els then None
      else Some (fold (\<lambda>el (ebb, m). (ebb + el, if m < el then el else m)) els (0, 0)))"

text \<open>
  \<^verbatim>\<open>calc_energy\<close>: the loop over the partitions, with the running line index \<open>j\<close>; the result
  is \<^verbatim>\<open>eb\<close>, \<^verbatim>\<open>max\<close> and \<^verbatim>\<open>avg\<close> for the partitions below \<^verbatim>\<open>npart\<close>.
\<close>

fun calc_energy_loop ::
  "PsyConst_l_t \<Rightarrow> real list \<Rightarrow> nat list \<Rightarrow> nat \<Rightarrow> real list \<times> real list \<times> real list
     \<Rightarrow> (real list \<times> real list \<times> real list) option" where
  "calc_energy_loop l fftenergy [] j r = Some r"
| "calc_energy_loop l fftenergy (b # bs) j (eb, mx, av) =
     (if b < length (numlines l) \<and> b < length (rnumlines l)
         \<and> j + nat (numlines l ! b) \<le> length fftenergy then
        (case energy_of_lines (take (nat (numlines l ! b)) (drop j fftenergy)) of
           None \<Rightarrow> None
         | Some (ebb, m) \<Rightarrow>
             if 0 \<le> rnumlines l ! b \<and> 0 \<le> ebb \<and> 0 \<le> m \<and> 0 \<le> ebb * rnumlines l ! b
             then calc_energy_loop l fftenergy bs (j + nat (numlines l ! b))
                    (eb @ [ebb], mx @ [m], av @ [ebb * rnumlines l ! b])
             else None)
      else None)"

definition calc_energy ::
  "PsyConst_l_t \<Rightarrow> real list \<Rightarrow> (real list \<times> real list \<times> real list) option" where
  "calc_energy l fftenergy = calc_energy_loop l fftenergy [0..<npart l] 0 ([], [], [])"

text \<open>
  One entry of \<^verbatim>\<open>calc_mask_index_l\<close>: \<open>a\<close> is the sum of the averages of the two or three
  partitions, \<open>m\<close> their largest maximum, \<open>c\<close> their number and \<open>n\<close> the sum of their numbers of
  lines. The index is stored in an \<^verbatim>\<open>unsigned char\<close>.
\<close>

definition mask_index_of :: "real \<Rightarrow> real \<Rightarrow> real \<Rightarrow> int \<Rightarrow> nat option" where
  "mask_index_of a m c n =
     (if \<not> 0 \<le> a then None
      else if a > 0 then
        (if \<not> n - 1 > 0 then None
         else
           (let k = c_int (20 * (m * c - a) / (a * real_of_int (n - 1)))
            in Some (nat ((if k > last_tab_entry then last_tab_entry else k) mod 256))))
      else Some 0)"

definition mask_index_mid :: "PsyConst_l_t \<Rightarrow> real list \<Rightarrow> real list \<Rightarrow> nat \<Rightarrow> nat option" where
  "mask_index_mid l mx av b =
     mask_index_of (av ! (b - 1) + av ! b + av ! (b + 1))
       (let m = mx ! (b - 1); m1 = (if m < mx ! b then mx ! b else m)
        in if m1 < mx ! (b + 1) then mx ! (b + 1) else m1)
       3 (numlines l ! (b - 1) + numlines l ! b + numlines l ! (b + 1))"

text \<open>
  \<^verbatim>\<open>calc_mask_index_l\<close>. After the loop over the inner partitions the code asserts
  \<^verbatim>\<open>b == gdl->npart - 1\<close>, which fails with fewer than two partitions.
\<close>

definition calc_mask_index_l :: "PsyConst_l_t \<Rightarrow> real list \<Rightarrow> real list \<Rightarrow> nat list option" where
  "calc_mask_index_l l mx av =
     (if npart l < 2 \<or> length mx < npart l \<or> length av < npart l
         \<or> length (numlines l) < npart l then None
      else
        (case mask_index_of (av ! 0 + av ! 1) (if mx ! 0 < mx ! 1 then mx ! 1 else mx ! 0) 2
                (numlines l ! 0 + numlines l ! 1) of
           None \<Rightarrow> None
         | Some k0 \<Rightarrow>
             (case those (map (mask_index_mid l mx av) [1..<npart l - 1]) of
                None \<Rightarrow> None
              | Some ks \<Rightarrow>
                  (case mask_index_of (av ! (npart l - 2) + av ! (npart l - 1))
                          (if mx ! (npart l - 2) < mx ! (npart l - 1)
                           then mx ! (npart l - 1) else mx ! (npart l - 2))
                          2 (numlines l ! (npart l - 2) + numlines l ! (npart l - 1)) of
                     None \<Rightarrow> None
                   | Some kl \<Rightarrow> Some (k0 # ks @ [kl])))))"

subsection \<open>The variable-bitrate analyzer\<close>

text \<open>
  The convolution with the spreading function in \<^verbatim>\<open>vbrpsy_compute_masking_l\<close>, for partition
  \<open>b\<close>: one turn of the \<^verbatim>\<open>while\<close> loop. The state is \<^verbatim>\<open>ecb\<close>, \<^verbatim>\<open>dd\<close>, \<^verbatim>\<open>dd_n\<close> and the index
  \<^verbatim>\<open>k\<close> into \<^verbatim>\<open>s3\<close>.
\<close>

definition vbr_spread_step ::
  "PsyConst_l_t \<Rightarrow> real list \<Rightarrow> nat list \<Rightarrow> nat \<Rightarrow> nat \<Rightarrow> real \<times> nat \<times> nat \<times> nat
     \<Rightarrow> (real \<times> nat \<times> nat \<times> nat) option" where
  "vbr_spread_step l eb mask_idx b kk st =
     (case st of (ecb, dd, dd_n, k) \<Rightarrow>
        if kk < length eb \<and> kk < length mask_idx \<and> k < length (s3 l)
           \<and> mask_idx ! kk < length tab then
          (case vbrpsy_mask_add ecb (s3 l ! k * eb ! kk * tab ! (mask_idx ! kk))
                  (int kk - int b) of
             None \<Rightarrow> None
           | Some t \<Rightarrow> Some (t, dd + mask_idx ! kk, dd_n + 1, k + 1))
        else None)"

definition vbr_spread ::
  "PsyConst_l_t \<Rightarrow> real list \<Rightarrow> nat list \<Rightarrow> nat \<Rightarrow> nat \<Rightarrow> (real \<times> nat \<times> nat \<times> nat) option" where
  "vbr_spread l eb mask_idx b k =
     (if b < length (s3ind l) then
        (let kk = fst (s3ind l ! b); hi = snd (s3ind l ! b)
         in if kk < length eb \<and> kk < length mask_idx \<and> k < length (s3 l)
               \<and> mask_idx ! kk < length tab then
              for_loop (vbr_spread_step l eb mask_idx b) [kk + 1..<hi + 1]
                (s3 l ! k * eb ! kk * tab ! (mask_idx ! kk), mask_idx ! kk, 1, k + 1)
            else None)
      else None)"

text \<open>
  The long block pre-echo control of \<^verbatim>\<open>vbrpsy_compute_masking_l\<close>: \<^verbatim>\<open>thr[b]\<close> from \<^verbatim>\<open>ecb\<close>, the
  energy \<^verbatim>\<open>eb_l[b]\<close>, the maskings \<^verbatim>\<open>nb_l1\<close> and \<^verbatim>\<open>nb_l2\<close> of the two granules before, and
  \<^verbatim>\<open>psv->blocktype_old[chn & 1]\<close>.
\<close>

definition vbr_pre_echo ::
  "psy_header \<Rightarrow> blocktype \<Rightarrow> real \<Rightarrow> real \<Rightarrow> real \<Rightarrow> real \<Rightarrow> real" where
  "vbr_pre_echo h bt_old ecb eb_b nb1 nb2 =
     (if bt_old = SHORT_TYPE then
        (let ecb_limit = rpelev h * nb1
         in if ecb_limit > 0 then Min_c ecb ecb_limit
            else Min_c ecb (eb_b * NS_PREECHO_ATT2 h))
      else
        (let ecb_limit_2 = (if rpelev2 h * nb2 \<le> 0 then ecb else rpelev2 h * nb2);
             ecb_limit_1 = (if rpelev h * nb1 \<le> 0 then ecb else rpelev h * nb1);
             ecb_limit = (if bt_old = NORM_TYPE then Min_c ecb_limit_1 ecb_limit_2
                          else ecb_limit_1)
         in Min_c ecb ecb_limit))"

text \<open>
  The limits that follow: by \<^verbatim>\<open>max[b] * minval[b] * avg_mask\<close>, by the energy \<^verbatim>\<open>eb_l[b]\<close>, and
  the factor \<^verbatim>\<open>masking_lower\<close>, applied before the limit by the energy when it is above 1 and
  after it when it is below 1; then \<^verbatim>\<open>assert(thr[b] >= 0)\<close>.
\<close>

definition vbr_limit_thr :: "real \<Rightarrow> real \<Rightarrow> real \<Rightarrow> real \<Rightarrow> real option" where
  "vbr_limit_thr thr0 x ml eb_b =
     (let thr1 = (if thr0 > x then x else thr0);
          thr2 = (if ml > 1 then thr1 * ml else thr1);
          thr3 = (if thr2 > eb_b then eb_b else thr2);
          thr4 = (if ml < 1 then thr3 * ml else thr3)
      in if 0 \<le> thr4 then Some thr4 else None)"

text \<open>
  One turn of the loop over the partitions, which \<^verbatim>\<open>vbrpsy_compute_masking_l\<close> and
  \<^verbatim>\<open>vbrpsy_compute_masking_s\<close> have in common but for the pre-echo control (the argument \<open>pre\<close>:
  \<^verbatim>\<open>thr[b]\<close> from \<^verbatim>\<open>ecb\<close>, the energy and the two stored maskings). The state is \<^verbatim>\<open>k\<close>, the
  thresholds found so far, and the maskings \<^verbatim>\<open>psv->nb_l1[chn]\<close> and \<^verbatim>\<open>psv->nb_l2[chn]\<close> (or
  \<^verbatim>\<open>nb_s1\<close> and \<^verbatim>\<open>nb_s2\<close>); \<open>ml\<close> is \<^verbatim>\<open>gfc->sv_qnt.masking_lower\<close>.
\<close>

definition vbr_masking_step ::
  "(real \<Rightarrow> real \<Rightarrow> real \<Rightarrow> real \<Rightarrow> real) \<Rightarrow> PsyConst_l_t \<Rightarrow> real \<Rightarrow> real list \<Rightarrow> real list
     \<Rightarrow> nat list \<Rightarrow> nat \<Rightarrow> nat \<times> real list \<times> real list \<times> real list
     \<Rightarrow> (nat \<times> real list \<times> real list \<times> real list) option" where
  "vbr_masking_step pre l ml eb mx mask_idx b st =
     (case st of (k, thr, nb1, nb2) \<Rightarrow>
        if b < length eb \<and> b < length mx \<and> b < length nb1 \<and> b < length nb2
           \<and> b < length (minval l) \<and> b < length (masking_lower l) then
          (case vbr_spread l eb mask_idx b k of
             None \<Rightarrow> None
           | Some (ecb0, dd, dd_n, k') \<Rightarrow>
               if (1 + 2 * dd) div (2 * dd_n) < length tab then
                 (let avg_mask = tab ! ((1 + 2 * dd) div (2 * dd_n)) * 0.5;
                      ecb = ecb0 * avg_mask
                  in case vbr_limit_thr (pre ecb (eb ! b) (nb1 ! b) (nb2 ! b))
                            (mx ! b * minval l ! b * avg_mask) (masking_lower l ! b * ml)
                            (eb ! b) of
                       None \<Rightarrow> None
                     | Some t \<Rightarrow> Some (k', thr @ [t], nb1[b := ecb], nb2[b := nb1 ! b]))
               else None)
        else None)"

text \<open>
  \<^verbatim>\<open>vbrpsy_compute_masking_l\<close> for one channel: the result is \<^verbatim>\<open>eb_l\<close> and \<^verbatim>\<open>thr\<close>, both
  with \<^verbatim>\<open>CBANDS\<close> entries (zero from \<^verbatim>\<open>npart\<close> on), and the new \<^verbatim>\<open>nb_l1\<close> and \<^verbatim>\<open>nb_l2\<close>.
\<close>

definition vbrpsy_compute_masking_l ::
  "psy_header \<Rightarrow> PsyConst_l_t \<Rightarrow> real \<Rightarrow> blocktype \<Rightarrow> real list \<Rightarrow> real list \<Rightarrow> real list
     \<Rightarrow> (real list \<times> real list \<times> real list \<times> real list) option" where
  "vbrpsy_compute_masking_l h l ml bt_old fftenergy nb1 nb2 =
     (if npart l > CBANDS then None
      else
        (case calc_energy l fftenergy of
           None \<Rightarrow> None
         | Some (eb, mx, av) \<Rightarrow>
             (case calc_mask_index_l l mx av of
                None \<Rightarrow> None
              | Some mask_idx \<Rightarrow>
                  (case for_loop (vbr_masking_step (vbr_pre_echo h bt_old) l ml eb mx mask_idx)
                          [0..<npart l] (0, [], nb1, nb2) of
                     None \<Rightarrow> None
                   | Some (k, thr, nb1', nb2') \<Rightarrow>
                       Some (eb @ replicate (CBANDS - npart l) 0,
                             thr @ replicate (CBANDS - npart l) 0, nb1', nb2')))))"

text \<open>
  The energies in \<^verbatim>\<open>vbrpsy_compute_masking_s\<close>: the loop over the partitions of a short block,
  with the running line index \<open>j\<close>, which the code asserts to end at 129. There is no
  assertion on the single line here; the sum, the number of lines and the average are
  asserted.
\<close>

fun short_energy_loop ::
  "PsyConst_s_t \<Rightarrow> real list \<Rightarrow> nat list \<Rightarrow> nat \<Rightarrow> real list \<times> real list \<times> real list
     \<Rightarrow> (nat \<times> real list \<times> real list \<times> real list) option" where
  "short_energy_loop s fftenergy [] j r = Some (j, r)"
| "short_energy_loop s fftenergy (b # bs) j (eb, mx, av) =
     (if b < length (numlines s) \<and> b < length (rnumlines s)
         \<and> j + nat (numlines s ! b) \<le> length fftenergy then
        (case fold (\<lambda>el (ebb, m). (ebb + el, if m < el then el else m))
                (take (nat (numlines s ! b)) (drop j fftenergy)) (0, 0) of
           (ebb, m) \<Rightarrow>
             if 0 \<le> ebb \<and> 0 < numlines s ! b \<and> 0 \<le> ebb * rnumlines s ! b
             then short_energy_loop s fftenergy bs (j + nat (numlines s ! b))
                    (eb @ [ebb], mx @ [m], av @ [ebb * rnumlines s ! b])
             else None)
      else None)"

text \<open>
  \<^verbatim>\<open>psyvbr_calc_mask_index_s\<close> has the text of \<^verbatim>\<open>calc_mask_index_l\<close>, with the tables for short
  blocks.
\<close>

definition psyvbr_calc_mask_index_s :: "PsyConst_s_t \<Rightarrow> real list \<Rightarrow> real list \<Rightarrow> nat list option" where
  "psyvbr_calc_mask_index_s s mx av = calc_mask_index_l s mx av"

text \<open>
  \<^verbatim>\<open>vbrpsy_compute_masking_s\<close> for one channel and one short block. \<^verbatim>\<open>max\<close> and \<^verbatim>\<open>avg\<close> are
  zero from \<^verbatim>\<open>npart\<close> on (\<^verbatim>\<open>memset\<close>); the pre-echo control is left for later (\<^verbatim>\<open>thr[b] = ecb\<close>).
  The convolution reads \<^verbatim>\<open>eb\<close> below \<^verbatim>\<open>npart\<close> only, with tables as \<^verbatim>\<open>psymodel_init\<close> makes
  them; a read at or above \<^verbatim>\<open>npart\<close>, which in C finds what the caller's array held before,
  is the result \<open>None\<close> here.
\<close>

definition vbrpsy_compute_masking_s ::
  "PsyConst_s_t \<Rightarrow> real \<Rightarrow> real list \<Rightarrow> real list \<Rightarrow> real list
     \<Rightarrow> (real list \<times> real list \<times> real list \<times> real list) option" where
  "vbrpsy_compute_masking_s s ml fftenergy_s nb1 nb2 =
     (if npart s > CBANDS then None
      else
        (case short_energy_loop s fftenergy_s [0..<npart s] 0 ([], [], []) of
           None \<Rightarrow> None
         | Some (j, eb, mx, av) \<Rightarrow>
             if j \<noteq> 129 then None
             else
               (case psyvbr_calc_mask_index_s s (mx @ replicate (CBANDS - npart s) 0)
                       (av @ replicate (CBANDS - npart s) 0) of
                  None \<Rightarrow> None
                | Some mask_idx \<Rightarrow>
                    (case for_loop (vbr_masking_step (\<lambda>ecb eb_b nb1_b nb2_b. ecb) s ml eb mx
                                      mask_idx)
                            [0..<npart s] (0, [], nb1, nb2) of
                       None \<Rightarrow> None
                     | Some (k, thr, nb1', nb2') \<Rightarrow>
                         Some (eb @ replicate (CBANDS - npart s) 0,
                               thr @ replicate (CBANDS - npart s) 0, nb1', nb2')))))"

subsection \<open>From partitions to scalefactor bands\<close>

text \<open>
  \<^verbatim>\<open>convert_partition2scalefac_l\<close>: the loop over the scalefactor bands. The state is the
  partition \<open>b\<close>, the sums \<^verbatim>\<open>enn\<close> and \<^verbatim>\<open>thmm\<close>, and the entries of \<^verbatim>\<open>psv->en[chn].l\<close> and
  \<^verbatim>\<open>psv->thm[chn].l\<close> stored so far. When the partitions are used up the remaining bands
  get zero.
\<close>

fun convert_loop ::
  "PsyConst_l_t \<Rightarrow> real list \<Rightarrow> real list \<Rightarrow> nat list \<Rightarrow> nat \<Rightarrow> real \<Rightarrow> real
     \<Rightarrow> real list \<times> real list \<Rightarrow> (real list \<times> real list) option" where
  "convert_loop l eb thr [] b enn thmm r = Some r"
| "convert_loop l eb thr (sb # sbs) b enn thmm (en, thm) =
     (if sb < length (bo l) \<and> sb < length (bo_weight l) then
        (let b_lim = (if bo l ! sb < npart l then bo l ! sb else npart l);
             b1 = (if b < b_lim then b_lim else b)
         in if list_ex (\<lambda>b'. \<not> (b' < length eb \<and> b' < length thr
                                   \<and> 0 \<le> eb ! b' \<and> 0 \<le> thr ! b')) [b..<b_lim]
            then None
            else
              (let enn1 = fold (\<lambda>b' e. e + eb ! b') [b..<b_lim] enn;
                   thmm1 = fold (\<lambda>b' t. t + thr ! b') [b..<b_lim] thmm
               in if b1 \<ge> npart l
                  then Some (en @ [enn1] @ replicate (length sbs) 0,
                             thm @ [thmm1] @ replicate (length sbs) 0)
                  else if \<not> (b1 < length eb \<and> b1 < length thr \<and> 0 \<le> eb ! b1 \<and> 0 \<le> thr ! b1)
                  then None
                  else convert_loop l eb thr sbs (b1 + 1)
                         ((1 - bo_weight l ! sb) * eb ! b1) ((1 - bo_weight l ! sb) * thr ! b1)
                         (en @ [enn1 + bo_weight l ! sb * eb ! b1],
                          thm @ [thmm1 + bo_weight l ! sb * thr ! b1])))
      else None)"

definition convert_partition2scalefac_l ::
  "PsyConst_l_t \<Rightarrow> real list \<Rightarrow> real list \<Rightarrow> (real list \<times> real list) option" where
  "convert_partition2scalefac_l l eb thr = convert_loop l eb thr [0..<SBMAX_l] 0 0 0 ([], [])"

text \<open>
  \<^verbatim>\<open>convert_partition2scalefac_s\<close> has the same loop with the tables for short blocks and
  \<^verbatim>\<open>SBMAX_s\<close> bands; it stores its results in \<^verbatim>\<open>psv->en[chn].s[sb][sblock]\<close> and
  \<^verbatim>\<open>psv->thm[chn].s[sb][sblock]\<close>, which \<open>store_short\<close> does below.
\<close>

definition convert_partition2scalefac_s ::
  "PsyConst_s_t \<Rightarrow> real list \<Rightarrow> real list \<Rightarrow> (real list \<times> real list) option" where
  "convert_partition2scalefac_s s eb thr = convert_loop s eb thr [0..<SBMAX_s] 0 0 0 ([], [])"

definition store_short :: "real list list \<Rightarrow> nat \<Rightarrow> real list \<Rightarrow> real list list" where
  "store_short rows sblock vals = map (\<lambda>sb. (rows ! sb)[sblock := vals ! sb]) [0..<SBMAX_s]"

subsection \<open>Thresholds of the mid and side channels\<close>

text \<open>
  One turn of the loop of \<^verbatim>\<open>vbrpsy_compute_MS_thresholds\<close>: from \<^verbatim>\<open>eb[2][b]\<close>, \<^verbatim>\<open>eb[3][b]\<close> and
  the four thresholds \<^verbatim>\<open>thr[0..3][b]\<close> to the new \<^verbatim>\<open>thr[2][b]\<close> and \<^verbatim>\<open>thr[3][b]\<close>. The assertion
  inside the branch repeats the condition of the branch.
\<close>

definition ms_thresholds_b ::
  "real \<Rightarrow> real \<Rightarrow> real \<Rightarrow> real \<Rightarrow> real \<Rightarrow> real \<Rightarrow> real \<Rightarrow> real \<Rightarrow> real \<Rightarrow> real \<Rightarrow> real \<times> real" where
  "ms_thresholds_b msfix athlower mld ath_b ebM ebS thmL thmR thmM thmS =
     (let msfix2 = msfix * 2;
          (rmid, rside) =
            (if thmL \<le> 1.58 * thmR \<and> thmR \<le> 1.58 * thmL
             then (Max_c thmM (Min_c thmS (mld * ebS)), Max_c thmS (Min_c thmM (mld * ebM)))
             else (thmM, thmS));
          (rmid1, rside1) =
            (if msfix > 0 then
               (let ath = ath_b * athlower;
                    thmLR = Min_c (Max_c thmL ath) (Max_c thmR ath);
                    thmM1 = Max_c rmid ath;
                    thmS1 = Max_c rside ath;
                    thmMS = thmM1 + thmS1;
                    (thmM2, thmS2) =
                      (if thmMS > 0 \<and> thmLR * msfix2 < thmMS
                       then (thmM1 * (thmLR * msfix2 / thmMS), thmS1 * (thmLR * msfix2 / thmMS))
                       else (thmM1, thmS1))
                in (Min_c thmM2 rmid, Min_c thmS2 rside))
             else (rmid, rside))
      in (if rmid1 > ebM then ebM else rmid1, if rside1 > ebS then ebS else rside1))"

text \<open>
  \<^verbatim>\<open>vbrpsy_compute_MS_thresholds\<close>: the partitions below \<open>n\<close> of \<^verbatim>\<open>thr[2]\<close> and \<^verbatim>\<open>thr[3]\<close> are
  computed anew, each from the entries of its own partition.
\<close>

definition vbrpsy_compute_MS_thresholds ::
  "real list list \<Rightarrow> real list list \<Rightarrow> real list \<Rightarrow> real list \<Rightarrow> real \<Rightarrow> real \<Rightarrow> nat
     \<Rightarrow> real list list option" where
  "vbrpsy_compute_MS_thresholds eb thr cb_mld ath_cb athlower msfix n =
     (if length eb = 4 \<and> length thr = 4 \<and> n \<le> length cb_mld \<and> n \<le> length ath_cb
         \<and> n \<le> length (eb ! 2) \<and> n \<le> length (eb ! 3)
         \<and> list_all (\<lambda>t. n \<le> length t) thr then
        (let r = map (\<lambda>b. ms_thresholds_b msfix athlower (cb_mld ! b) (ath_cb ! b)
                             (eb ! 2 ! b) (eb ! 3 ! b)
                             (thr ! 0 ! b) (thr ! 1 ! b) (thr ! 2 ! b) (thr ! 3 ! b)) [0..<n]
         in Some (thr[2 := map fst r @ drop n (thr ! 2), 3 := map snd r @ drop n (thr ! 3)]))
      else None)"

subsection \<open>The thresholds of a granule in the variable-bitrate analyzer\<close>

text \<open>
  What \<^verbatim>\<open>L3psycho_anal_vbr\<close> reads of the session: the mode and the number of channels, the
  \<^verbatim>\<open>msfix\<close> setting with the factor of the absolute threshold, the constant tables for long
  and short blocks, the absolute threshold, and \<^verbatim>\<open>gfc->sv_qnt.masking_lower\<close>.
\<close>

datatype MPEG_mode = STEREO | JOINT_STEREO | DUAL_CHANNEL | MONO

record psy_config =
  cfg_mode :: MPEG_mode
  cfg_channels_out :: nat
  cfg_msfix :: real
  cfg_ATH_offset_factor :: real
  cd_psy_l :: PsyConst_l_t
  cd_psy_s :: PsyConst_s_t
  gfc_ATH :: ATH_t
  sv_qnt_masking_lower :: real

text \<open>The number of analyzed channels: with joint stereo the channels 2 and 3 are mid and side.\<close>

definition n_chn_psy :: "psy_config \<Rightarrow> nat" where
  "n_chn_psy c = (if cfg_mode c = JOINT_STEREO then 4 else cfg_channels_out c)"

definition ath_factor :: "psy_config \<Rightarrow> real" where
  "ath_factor c =
     (if cfg_msfix c > 0 then cfg_ATH_offset_factor c * adjust_factor (gfc_ATH c) else 1)"

text \<open>
  The factor for pulse-like signals that \<^verbatim>\<open>vbrpsy_attack_detection\<close> computes for sub-block
  \<open>i\<close> from the twelve energies \<^verbatim>\<open>en_subshort\<close> of a channel.
\<close>

definition sub_short_factor_of :: "real list \<Rightarrow> nat \<Rightarrow> real" where
  "sub_short_factor_of en_sub i =
     (let enn = en_sub ! (i * 3 + 3) + en_sub ! (i * 3 + 4) + en_sub ! (i * 3 + 5)
      in if en_sub ! (i * 3 + 5) * 6 < enn
         then (if en_sub ! (i * 3 + 4) * 6 < enn then 1 * 0.5 * 0.5 else 1 * 0.5)
         else 1)"

text \<open>
  The state of the loops of \<^verbatim>\<open>L3psycho_anal_vbr\<close>: the local arrays \<^verbatim>\<open>eb[4][CBANDS]\<close> and
  \<^verbatim>\<open>thr[4][CBANDS]\<close>, and \<^verbatim>\<open>gfc->sv_psy\<close>. The FFT energies of the long block of channel \<open>chn\<close>
  are \<open>fftenergy ! chn\<close>, those of its short block \<open>sblock\<close> are \<open>fftenergy_s ! chn ! sblock\<close>:
  \<^verbatim>\<open>vbrpsy_compute_fft_l\<close> and \<^verbatim>\<open>vbrpsy_compute_fft_s\<close> compute them with the transforms of
  \<^verbatim>\<open>fft.c\<close>, as squares and sums of squares.

  The long block of one channel: \<^verbatim>\<open>vbrpsy_compute_masking_l(gfc, fftenergy, eb[chn], thr[chn], chn)\<close>.
\<close>

definition vbr_long_chn ::
  "psy_header \<Rightarrow> psy_config \<Rightarrow> real list list \<Rightarrow> nat
     \<Rightarrow> real list list \<times> real list list \<times> PsyStateVar_t
     \<Rightarrow> (real list list \<times> real list list \<times> PsyStateVar_t) option" where
  "vbr_long_chn h c fftenergy chn st =
     (case st of (ebs, thrs, psv) \<Rightarrow>
        if chn < length fftenergy \<and> chn < length ebs \<and> chn < length thrs
           \<and> chn < length (nb_l1 psv) \<and> chn < length (nb_l2 psv)
           \<and> chn mod 2 < length (psv_blocktype_old psv) then
          (case vbrpsy_compute_masking_l h (cd_psy_l c) (sv_qnt_masking_lower c)
                  (psv_blocktype_old psv ! (chn mod 2)) (fftenergy ! chn)
                  (nb_l1 psv ! chn) (nb_l2 psv ! chn) of
             None \<Rightarrow> None
           | Some (eb, thr, nb1, nb2) \<Rightarrow>
               Some (ebs[chn := eb], thrs[chn := thr],
                     psv\<lparr>nb_l1 := (nb_l1 psv)[chn := nb1], nb_l2 := (nb_l2 psv)[chn := nb2]\<rparr>))
        else None)"

text \<open>
  The thresholds of mid and side, computed when both channels use long blocks (\<open>both = 2\<close>,
  with the tables for long blocks) or both use short blocks (\<open>both = 0\<close>, with those for
  short blocks), in joint stereo.
\<close>

definition vbr_ms_case ::
  "psy_config \<Rightarrow> int list \<Rightarrow> int \<Rightarrow> PsyConst_l_t \<Rightarrow> real list
     \<Rightarrow> real list list \<times> real list list \<times> PsyStateVar_t
     \<Rightarrow> (real list list \<times> real list list \<times> PsyStateVar_t) option" where
  "vbr_ms_case c uselong both tables ath_cb st =
     (case st of (ebs, thrs, psv) \<Rightarrow>
        if uselong ! 0 + uselong ! 1 = both \<and> cfg_mode c = JOINT_STEREO then
          (case vbrpsy_compute_MS_thresholds ebs thrs (mld_cb tables) ath_cb (ath_factor c)
                  (cfg_msfix c) (npart tables) of
             None \<Rightarrow> None
           | Some thrs' \<Rightarrow> Some (ebs, thrs', psv))
        else Some st)"

text \<open>The conversion to scalefactor bands for a channel that uses long blocks.\<close>

definition vbr_convert_l_chn ::
  "psy_config \<Rightarrow> int list \<Rightarrow> nat \<Rightarrow> real list list \<times> real list list \<times> PsyStateVar_t
     \<Rightarrow> (real list list \<times> real list list \<times> PsyStateVar_t) option" where
  "vbr_convert_l_chn c uselong chn st =
     (case st of (ebs, thrs, psv) \<Rightarrow>
        if uselong ! (chn mod 2) \<noteq> 0 then
          (if chn < length ebs \<and> chn < length thrs \<and> chn < length (psv_en psv)
              \<and> chn < length (psv_thm psv) then
             (case convert_partition2scalefac_l (cd_psy_l c) (ebs ! chn) (thrs ! chn) of
                None \<Rightarrow> None
              | Some (en, thl) \<Rightarrow>
                  Some (ebs, thrs,
                        psv\<lparr>psv_en := (psv_en psv)[chn := (psv_en psv ! chn)\<lparr>xmin_l := en\<rparr>],
                            psv_thm := (psv_thm psv)[chn := (psv_thm psv ! chn)\<lparr>xmin_l := thl\<rparr>]\<rparr>))
           else None)
        else Some st)"

text \<open>
  \<^verbatim>\<open>vbrpsy_skip_masking_s\<close>, for a channel that uses long blocks: in the first short block
  \<^verbatim>\<open>nb_s2\<close> takes the partitions of \<^verbatim>\<open>nb_s1\<close>.
\<close>

definition vbrpsy_skip_masking_s ::
  "psy_config \<Rightarrow> nat \<Rightarrow> nat \<Rightarrow> PsyStateVar_t \<Rightarrow> PsyStateVar_t option" where
  "vbrpsy_skip_masking_s c chn sblock psv =
     (if sblock = 0 then
        (if chn < length (nb_s1 psv) \<and> chn < length (nb_s2 psv)
            \<and> npart (cd_psy_s c) \<le> length (nb_s1 psv ! chn)
            \<and> npart (cd_psy_s c) \<le> length (nb_s2 psv ! chn)
         then Some (psv\<lparr>nb_s2 := (nb_s2 psv)
                          [chn := take (npart (cd_psy_s c)) (nb_s1 psv ! chn)
                                  @ drop (npart (cd_psy_s c)) (nb_s2 psv ! chn)]\<rparr>)
         else None)
      else Some psv)"

text \<open>One channel in the loop over the short blocks: skipped, or its masking computed.\<close>

definition vbr_short_chn ::
  "psy_config \<Rightarrow> int list \<Rightarrow> real list list list \<Rightarrow> nat \<Rightarrow> nat
     \<Rightarrow> real list list \<times> real list list \<times> PsyStateVar_t
     \<Rightarrow> (real list list \<times> real list list \<times> PsyStateVar_t) option" where
  "vbr_short_chn c uselong fftenergy_s sblock chn st =
     (case st of (ebs, thrs, psv) \<Rightarrow>
        if uselong ! (chn mod 2) \<noteq> 0
        then (case vbrpsy_skip_masking_s c chn sblock psv of
                None \<Rightarrow> None
              | Some psv' \<Rightarrow> Some (ebs, thrs, psv'))
        else if chn < length fftenergy_s \<and> sblock < length (fftenergy_s ! chn)
                \<and> chn < length ebs \<and> chn < length thrs
                \<and> chn < length (nb_s1 psv) \<and> chn < length (nb_s2 psv) then
          (case vbrpsy_compute_masking_s (cd_psy_s c) (sv_qnt_masking_lower c)
                  (fftenergy_s ! chn ! sblock) (nb_s1 psv ! chn) (nb_s2 psv ! chn) of
             None \<Rightarrow> None
           | Some (eb, thr, nb1, nb2) \<Rightarrow>
               Some (ebs[chn := eb], thrs[chn := thr],
                     psv\<lparr>nb_s1 := (nb_s1 psv)[chn := nb1], nb_s2 := (nb_s2 psv)[chn := nb2]\<rparr>))
        else None)"

text \<open>The conversion to scalefactor bands for a channel that uses short blocks.\<close>

definition vbr_convert_s_chn ::
  "psy_config \<Rightarrow> int list \<Rightarrow> nat \<Rightarrow> nat \<Rightarrow> real list list \<times> real list list \<times> PsyStateVar_t
     \<Rightarrow> (real list list \<times> real list list \<times> PsyStateVar_t) option" where
  "vbr_convert_s_chn c uselong sblock chn st =
     (case st of (ebs, thrs, psv) \<Rightarrow>
        if uselong ! (chn mod 2) = 0 then
          (if chn < length ebs \<and> chn < length thrs \<and> chn < length (psv_en psv)
              \<and> chn < length (psv_thm psv)
              \<and> SBMAX_s \<le> length (xmin_s (psv_en psv ! chn))
              \<and> SBMAX_s \<le> length (xmin_s (psv_thm psv ! chn))
              \<and> list_all (\<lambda>row. sblock < length row) (xmin_s (psv_en psv ! chn))
              \<and> list_all (\<lambda>row. sblock < length row) (xmin_s (psv_thm psv ! chn)) then
             (case convert_partition2scalefac_s (cd_psy_s c) (ebs ! chn) (thrs ! chn) of
                None \<Rightarrow> None
              | Some (en, ths) \<Rightarrow>
                  Some (ebs, thrs,
                        psv\<lparr>psv_en := (psv_en psv)
                               [chn := (psv_en psv ! chn)
                                  \<lparr>xmin_s := store_short (xmin_s (psv_en psv ! chn)) sblock en\<rparr>],
                            psv_thm := (psv_thm psv)
                               [chn := (psv_thm psv ! chn)
                                  \<lparr>xmin_s := store_short (xmin_s (psv_thm psv ! chn)) sblock ths\<rparr>]\<rparr>))
           else None)
        else Some st)"

text \<open>One turn of the loop over the three short blocks.\<close>

definition vbr_short_sblock ::
  "psy_config \<Rightarrow> int list \<Rightarrow> real list list list \<Rightarrow> nat
     \<Rightarrow> real list list \<times> real list list \<times> PsyStateVar_t
     \<Rightarrow> (real list list \<times> real list list \<times> PsyStateVar_t) option" where
  "vbr_short_sblock c uselong fftenergy_s sblock st =
     (case for_loop (vbr_short_chn c uselong fftenergy_s sblock) [0..<n_chn_psy c] st of
        None \<Rightarrow> None
      | Some st1 \<Rightarrow>
          (case vbr_ms_case c uselong 0 (cd_psy_s c) (cb_s (gfc_ATH c)) st1 of
             None \<Rightarrow> None
           | Some st2 \<Rightarrow>
               for_loop (vbr_convert_s_chn c uselong sblock) [0..<n_chn_psy c] st2))"

text \<open>
  The pre-echo control of short blocks: the new threshold of short block \<open>sblock\<close> in one
  scalefactor band, from the three thresholds \<open>row\<close> of the band, the attacks
  \<^verbatim>\<open>ns_attacks[chn]\<close>, \<^verbatim>\<open>psv->last_attacks[chn]\<close> and the factors \<^verbatim>\<open>sub_short_factor[chn]\<close>;
  \<^verbatim>\<open>pcfact\<close> is \<^verbatim>\<open>0.6f\<close>.
\<close>

definition vbr_pre_echo_s ::
  "psy_header \<Rightarrow> int list \<Rightarrow> int \<Rightarrow> real list \<Rightarrow> real list \<Rightarrow> nat \<Rightarrow> real" where
  "vbr_pre_echo_s h ns_att last_att factors row sblock =
     (let pcfact = 0.6;
          thmm = row ! sblock * NS_PREECHO_ATT0 h;
          thmm1 =
            (if ns_att ! sblock \<ge> 2 \<or> ns_att ! (sblock + 1) = 1
             then Min_c thmm (NS_INTERP (row ! (if sblock \<noteq> 0 then sblock - 1 else 2)) thmm
                                (NS_PREECHO_ATT1 h * pcfact))
             else if ns_att ! sblock = 1
             then Min_c thmm (NS_INTERP (row ! (if sblock \<noteq> 0 then sblock - 1 else 2)) thmm
                                (NS_PREECHO_ATT2 h * pcfact))
             else if (sblock \<noteq> 0 \<and> ns_att ! (sblock - 1) = 3) \<or> (sblock = 0 \<and> last_att = 3)
             then Min_c thmm (NS_INTERP (row ! (if sblock \<noteq> 2 then sblock + 1 else 0)) thmm
                                (NS_PREECHO_ATT2 h * pcfact))
             else thmm)
      in thmm1 * factors ! sblock)"

definition vbr_pre_echo_chn ::
  "psy_header \<Rightarrow> int list \<Rightarrow> int list list \<Rightarrow> real list list \<Rightarrow> nat \<Rightarrow> PsyStateVar_t
     \<Rightarrow> PsyStateVar_t option" where
  "vbr_pre_echo_chn h uselong ns_attacks sub_short_factor chn psv =
     (if uselong ! (chn mod 2) \<noteq> 0 then Some psv
      else if chn < length ns_attacks \<and> length (ns_attacks ! chn) = 4
              \<and> chn < length sub_short_factor \<and> length (sub_short_factor ! chn) = 3
              \<and> chn < length (last_attacks psv) \<and> chn < length (psv_thm psv)
              \<and> SBMAX_s \<le> length (xmin_s (psv_thm psv ! chn))
              \<and> list_all (\<lambda>row. length row = 3) (xmin_s (psv_thm psv ! chn)) then
        Some (psv\<lparr>psv_thm := (psv_thm psv)
                    [chn := (psv_thm psv ! chn)
                       \<lparr>xmin_s :=
                          map (\<lambda>sb. map (vbr_pre_echo_s h (ns_attacks ! chn)
                                               (last_attacks psv ! chn) (sub_short_factor ! chn)
                                               (xmin_s (psv_thm psv ! chn) ! sb)) [0..<3])
                              [0..<SBMAX_s]\<rparr>]\<rparr>)
      else None)"

text \<open>
  The thresholds in \<^verbatim>\<open>L3psycho_anal_vbr\<close>, from the call of \<^verbatim>\<open>vbrpsy_compute_block_type\<close> on:
  the long blocks of all analyzed channels, mid and side, the conversion; the same for each
  of the three short blocks; the pre-echo control of the short blocks; and the attacks
  remembered for the next granule. \<open>uselong\<close>, \<open>ns_attacks\<close> and \<open>en_sub\<close> (the arrays
  \<^verbatim>\<open>uselongblock\<close>, \<^verbatim>\<open>ns_attacks\<close> and \<^verbatim>\<open>en_subshort\<close> of each channel) are as the
  attack detection and \<^verbatim>\<open>vbrpsy_compute_block_type\<close> leave them. The result is \<^verbatim>\<open>gfc->sv_psy\<close>,
  whose energies and thresholds the next call hands to the quantization
  (\<^verbatim>\<open>masking_ratio[gr_out][chn].en = psv->en[chn]\<close> and \<^verbatim>\<open>.thm = psv->thm[chn]\<close> in
  \<^verbatim>\<open>vbrpsy_attack_detection\<close>, for mid and side \<^verbatim>\<open>masking_MS_ratio\<close>). What follows in the
  function, \<^verbatim>\<open>vbrpsy_apply_block_type\<close> and the perceptual entropies, writes neither of them.
\<close>

definition L3psycho_anal_vbr_thresholds ::
  "psy_header \<Rightarrow> psy_config \<Rightarrow> int list \<Rightarrow> int list list \<Rightarrow> real list list \<Rightarrow> real list list
     \<Rightarrow> real list list list \<Rightarrow> PsyStateVar_t \<Rightarrow> PsyStateVar_t option" where
  "L3psycho_anal_vbr_thresholds h c uselong ns_attacks en_sub fftenergy fftenergy_s psv =
     (case for_loop (vbr_long_chn h c fftenergy) [0..<n_chn_psy c]
             (replicate 4 [], replicate 4 [], psv) of
        None \<Rightarrow> None
      | Some st1 \<Rightarrow>
          (case vbr_ms_case c uselong 2 (cd_psy_l c) (cb_l (gfc_ATH c)) st1 of
             None \<Rightarrow> None
           | Some st2 \<Rightarrow>
               (case for_loop (vbr_convert_l_chn c uselong) [0..<n_chn_psy c] st2 of
                  None \<Rightarrow> None
                | Some st3 \<Rightarrow>
                    (case for_loop (vbr_short_sblock c uselong fftenergy_s) [0..<3] st3 of
                       None \<Rightarrow> None
                     | Some (ebs, thrs, psv4) \<Rightarrow>
                         (case for_loop
                                 (vbr_pre_echo_chn h uselong ns_attacks
                                    (map (\<lambda>es. map (sub_short_factor_of es) [0..<3]) en_sub))
                                 [0..<n_chn_psy c] psv4 of
                            None \<Rightarrow> None
                          | Some psv5 \<Rightarrow>
                              if n_chn_psy c \<le> length (last_attacks psv5)
                                 \<and> n_chn_psy c \<le> length ns_attacks
                              then Some (psv5\<lparr>last_attacks :=
                                                map (\<lambda>chn. if chn < n_chn_psy c
                                                            then ns_attacks ! chn ! 2
                                                            else last_attacks psv5 ! chn)
                                                    [0..<length (last_attacks psv5)]\<rparr>)
                              else None)))))"

subsection \<open>The constant-bitrate analyzer\<close>

definition table1 :: "real list" where
  "table1 =
     [3.3246 * 3.3246, 3.23837 * 3.23837, 3.15437 * 3.15437, 3.00412 * 3.00412,
      2.86103 * 2.86103, 2.65407 * 2.65407, 2.46209 * 2.46209, 2.284 * 2.284,
      2.11879 * 2.11879, 1.96552 * 1.96552, 1.82335 * 1.82335, 1.69146 * 1.69146,
      1.56911 * 1.56911, 1.46658 * 1.46658, 1.37074 * 1.37074, 1.31036 * 1.31036,
      1.25264 * 1.25264, 1.20648 * 1.20648, 1.16203 * 1.16203, 1.12765 * 1.12765,
      1.09428 * 1.09428, 1.0659 * 1.0659, 1.03826 * 1.03826, 1.01895 * 1.01895,
      1]"

definition table3 :: "real list" where
  "table3 =
     [2.35364 * 2.35364, 2.29259 * 2.29259, 2.23313 * 2.23313, 2.12675 * 2.12675,
      2.02545 * 2.02545, 1.87894 * 1.87894, 1.74303 * 1.74303, 1.61695 * 1.61695,
      1.49999 * 1.49999, 1.39148 * 1.39148, 1.29083 * 1.29083, 1.19746 * 1.19746,
      1.11084 * 1.11084, 1.03826 * 1.03826]"

text \<open>A table read with a C \<^verbatim>\<open>int\<close> index.\<close>

definition table_at :: "real list \<Rightarrow> int \<Rightarrow> real option" where
  "table_at t i = (if 0 \<le> i \<and> i < int (length t) then Some (t ! nat i) else None)"

text \<open>
  \<^verbatim>\<open>mask_add(m1, m2, kk, b, gfc, 0)\<close>, the long block case. Its \<^verbatim>\<open>table2\<close> is the one of
  \<^verbatim>\<open>vbrpsy_mask_add\<close>. The test \<^verbatim>\<open>(unsigned int) (b + 3) <= 3 + 3\<close> holds for \<open>b\<close> from -3
  to 3.
\<close>

definition mask_add :: "real \<Rightarrow> real \<Rightarrow> nat \<Rightarrow> int \<Rightarrow> ATH_t \<Rightarrow> real option" where
  "mask_add m1 m2 kk b ath =
     (if (if m2 > m1 then \<not> m2 < m1 * ma_max_i2 else m1 \<ge> m2 * ma_max_i2) then Some (m1 + m2)
      else
        (let ratio = (if m2 > m1 then m2 / m1 else m1 / m2)
         in if \<not> (0 \<le> m1 \<and> 0 \<le> m2) then None
            else if - 3 \<le> b \<and> b \<le> 3 then
              (if ratio \<ge> ma_max_i1 then Some (m1 + m2)
               else
                 (case table_at vbr_table2 (c_int (FAST_LOG10_X ratio 16)) of
                    None \<Rightarrow> None
                  | Some t2 \<Rightarrow> Some ((m1 + m2) * t2)))
            else if \<not> kk < length (cb_l ath) then None
            else
              (let i = c_int (FAST_LOG10_X ratio 16);
                   m = cb_l ath ! kk * adjust_factor ath
               in if \<not> 0 \<le> m then None
                  else if m1 + m2 < ma_max_m * m then
                    (if m1 + m2 > m then
                       (case (if i \<le> 13 then table_at table3 i else Some 1) of
                          None \<Rightarrow> None
                        | Some f \<Rightarrow>
                            (case table_at table1 i of
                               None \<Rightarrow> None
                             | Some t1 \<Rightarrow>
                                 Some ((m1 + m2)
                                   * ((t1 - f) * FAST_LOG10_X ((m1 + m2) / m) (10 / 15) + f))))
                     else if i > 13 then Some (m1 + m2)
                     else
                       (case table_at table3 i of
                          None \<Rightarrow> None
                        | Some t3 \<Rightarrow> Some ((m1 + m2) * t3)))
                  else
                    (case table_at table1 i of
                       None \<Rightarrow> None
                     | Some t1 \<Rightarrow> Some ((m1 + m2) * t1)))))"

text \<open>
  The convolution with the spreading function in \<^verbatim>\<open>L3psycho_anal_ns\<close>, for partition \<open>b\<close>:
  one turn of the \<^verbatim>\<open>while\<close> loop, with the state \<^verbatim>\<open>ecb\<close> and \<^verbatim>\<open>k\<close>.
\<close>

definition ns_spread_step ::
  "PsyConst_l_t \<Rightarrow> ATH_t \<Rightarrow> real list \<Rightarrow> nat list \<Rightarrow> nat \<Rightarrow> nat \<Rightarrow> real \<times> nat
     \<Rightarrow> (real \<times> nat) option" where
  "ns_spread_step l ath eb mask_idx b kk st =
     (case st of (ecb, k) \<Rightarrow>
        if kk < length eb \<and> kk < length mask_idx \<and> k < length (s3 l)
           \<and> mask_idx ! kk < length tab then
          (case mask_add ecb (s3 l ! k * (eb ! kk * tab ! (mask_idx ! kk))) kk
                  (int kk - int b) ath of
             None \<Rightarrow> None
           | Some t \<Rightarrow> Some (t, k + 1))
        else None)"

definition ns_spread ::
  "PsyConst_l_t \<Rightarrow> ATH_t \<Rightarrow> real list \<Rightarrow> nat list \<Rightarrow> nat \<Rightarrow> nat \<Rightarrow> (real \<times> nat) option" where
  "ns_spread l ath eb mask_idx b k =
     (if b < length (s3ind l) then
        (let kk = fst (s3ind l ! b); hi = snd (s3ind l ! b)
         in if kk < length eb \<and> kk < length mask_idx \<and> k < length (s3 l)
               \<and> mask_idx ! kk < length tab then
              for_loop (ns_spread_step l ath eb mask_idx b) [kk + 1..<hi + 1]
                (s3 l ! k * (eb ! kk * tab ! (mask_idx ! kk)), k + 1)
            else None)
      else None)"

text \<open>
  One turn of the loop over the partitions in \<^verbatim>\<open>L3psycho_anal_ns\<close>, with the long block
  pre-echo control; \<open>pcfact\<close> is the value the analyzer has chosen at its start.
\<close>

definition ns_masking_l_step ::
  "psy_header \<Rightarrow> PsyConst_l_t \<Rightarrow> ATH_t \<Rightarrow> real \<Rightarrow> blocktype \<Rightarrow> real list \<Rightarrow> nat list
     \<Rightarrow> nat \<Rightarrow> nat \<times> real list \<times> real list \<times> real list
     \<Rightarrow> (nat \<times> real list \<times> real list \<times> real list) option" where
  "ns_masking_l_step h l ath pcfact bt_old eb mask_idx b st =
     (case st of (k, thr, nb1, nb2) \<Rightarrow>
        if b < length nb1 \<and> b < length nb2 then
          (case ns_spread l ath eb mask_idx b k of
             None \<Rightarrow> None
           | Some (ecb0, k') \<Rightarrow>
               (let ecb = ecb0 * 0.158489319246111;
                    t = (if bt_old = SHORT_TYPE then ecb
                         else NS_INTERP
                                (Min_c ecb (Min_c (rpelev h * nb1 ! b) (rpelev2 h * nb2 ! b)))
                                ecb pcfact)
                in Some (k', thr @ [t], nb1[b := ecb], nb2[b := nb1 ! b])))
        else None)"

text \<open>
  The long-block thresholds of one channel in \<^verbatim>\<open>L3psycho_anal_ns\<close>: energies, masking
  indices, convolution and pre-echo control, then \<^verbatim>\<open>convert_partition2scalefac_l\<close>. In a mono
  session nothing changes \<^verbatim>\<open>psv->en[chn].l\<close> and \<^verbatim>\<open>psv->thm[chn].l\<close> after that (the
  inter-channel masking and \<^verbatim>\<open>msfix\<close> steps belong to the stereo modes).
\<close>

definition ns_long_thresholds ::
  "psy_header \<Rightarrow> PsyConst_l_t \<Rightarrow> ATH_t \<Rightarrow> real \<Rightarrow> blocktype \<Rightarrow> real list \<Rightarrow> real list
     \<Rightarrow> real list \<Rightarrow> (real list \<times> real list) option" where
  "ns_long_thresholds h l ath pcfact bt_old fftenergy nb1 nb2 =
     (if npart l > CBANDS then None
      else
        (case calc_energy l fftenergy of
           None \<Rightarrow> None
         | Some (eb, mx, av) \<Rightarrow>
             (case calc_mask_index_l l mx av of
                None \<Rightarrow> None
              | Some mask_idx \<Rightarrow>
                  (case for_loop (ns_masking_l_step h l ath pcfact bt_old eb mask_idx)
                          [0..<npart l] (0, [], nb1, nb2) of
                     None \<Rightarrow> None
                   | Some (k, thr, nb1', nb2') \<Rightarrow>
                       convert_partition2scalefac_l l
                         (eb @ replicate (CBANDS + 1 - npart l) 0)
                         (thr @ replicate (CBANDS + 1 - npart l) 0)))))"

subsection \<open>Conditions on the tables\<close>

text \<open>
  The number of entries of \<^verbatim>\<open>s3\<close> that the partitions below \<open>n\<close> read, and the number of FFT
  lines that all the partitions read.
\<close>

definition s3_used :: "PsyConst_l_t \<Rightarrow> nat \<Rightarrow> nat" where
  "s3_used l n = sum_list (map (\<lambda>b. 1 + (snd (s3ind l ! b) - fst (s3ind l ! b))) [0..<n])"

definition lines_used :: "PsyConst_l_t \<Rightarrow> nat" where
  "lines_used l = sum_list (map (\<lambda>b. nat (numlines l ! b)) [0..<npart l])"

text \<open>
  What \<^verbatim>\<open>psymodel_init\<close> provides for long blocks (with \<open>nsb = SBMAX_l\<close>) and for short blocks
  (with \<open>nsb = SBMAX_s\<close>): at least two partitions, each with at least one line and the
  reciprocal of the number of lines (or less) in \<^verbatim>\<open>rnumlines\<close>, spreading ranges inside the
  partitions and inside \<^verbatim>\<open>s3\<close>, no negative entry in \<^verbatim>\<open>s3\<close>, \<^verbatim>\<open>minval\<close> and
  \<^verbatim>\<open>masking_lower\<close>, and band weights from 0 to 1.
\<close>

definition psy_tables_ok :: "PsyConst_l_t \<Rightarrow> nat \<Rightarrow> bool" where
  "psy_tables_ok l nsb \<longleftrightarrow>
     2 \<le> npart l \<and> npart l \<le> CBANDS
     \<and> npart l \<le> length (numlines l) \<and> npart l \<le> length (rnumlines l)
     \<and> npart l \<le> length (s3ind l) \<and> npart l \<le> length (minval l)
     \<and> npart l \<le> length (masking_lower l)
     \<and> nsb \<le> length (bo l) \<and> nsb \<le> length (bo_weight l)
     \<and> list_all (\<lambda>b. 0 < numlines l ! b \<and> 0 \<le> rnumlines l ! b
                     \<and> rnumlines l ! b * real_of_int (numlines l ! b) \<le> 1
                     \<and> fst (s3ind l ! b) < npart l \<and> snd (s3ind l ! b) < npart l
                     \<and> 0 \<le> minval l ! b \<and> 0 \<le> masking_lower l ! b) [0..<npart l]
     \<and> list_all (\<lambda>x. 0 \<le> x) (s3 l)
     \<and> s3_used l (npart l) \<le> length (s3 l)
     \<and> list_all (\<lambda>sb. 0 \<le> bo_weight l ! sb \<and> bo_weight l ! sb \<le> 1) [0..<nsb]
     \<and> npart l \<le> length (mld_cb l)"

text \<open>
  The arrays of \<^verbatim>\<open>PsyStateVar_t\<close> have the sizes of their declarations: \<^verbatim>\<open>nb_l1\<close>, \<^verbatim>\<open>nb_l2\<close>,
  \<^verbatim>\<open>nb_s1\<close> and \<^verbatim>\<open>nb_s2\<close> are \<^verbatim>\<open>[4][CBANDS]\<close>, \<^verbatim>\<open>en\<close> and \<^verbatim>\<open>thm\<close> are \<^verbatim>\<open>[4]\<close> with members
  \<^verbatim>\<open>l[SBMAX_l]\<close> and \<^verbatim>\<open>s[SBMAX_s][3]\<close>, \<^verbatim>\<open>blocktype_old\<close> is \<^verbatim>\<open>[2]\<close> and \<^verbatim>\<open>last_attacks\<close> is
  \<^verbatim>\<open>[4]\<close>.
\<close>

definition xmin_shape :: "III_psy_xmin \<Rightarrow> bool" where
  "xmin_shape x \<longleftrightarrow>
     length (xmin_l x) = SBMAX_l \<and> length (xmin_s x) = SBMAX_s
     \<and> list_all (\<lambda>row. length row = 3) (xmin_s x)"

definition psv_shape :: "PsyStateVar_t \<Rightarrow> bool" where
  "psv_shape psv \<longleftrightarrow>
     length (nb_l1 psv) = 4 \<and> list_all (\<lambda>r. length r = CBANDS) (nb_l1 psv)
     \<and> length (nb_l2 psv) = 4 \<and> list_all (\<lambda>r. length r = CBANDS) (nb_l2 psv)
     \<and> length (nb_s1 psv) = 4 \<and> list_all (\<lambda>r. length r = CBANDS) (nb_s1 psv)
     \<and> length (nb_s2 psv) = 4 \<and> list_all (\<lambda>r. length r = CBANDS) (nb_s2 psv)
     \<and> length (psv_en psv) = 4 \<and> list_all xmin_shape (psv_en psv)
     \<and> length (psv_thm psv) = 4 \<and> list_all xmin_shape (psv_thm psv)
     \<and> length (psv_blocktype_old psv) = 2 \<and> length (last_attacks psv) = 4"

text \<open>
  The property of the thresholds: in every scalefactor band of a channel, for long blocks
  and for each of the three short blocks, the threshold is at least zero and at most the
  energy; and the same for the channels below \<open>n\<close> of the state.
\<close>

definition xmin_between :: "III_psy_xmin \<Rightarrow> III_psy_xmin \<Rightarrow> bool" where
  "xmin_between thl en \<longleftrightarrow>
     list_all (\<lambda>sb. 0 \<le> xmin_l thl ! sb \<and> xmin_l thl ! sb \<le> xmin_l en ! sb) [0..<SBMAX_l]
     \<and> list_all (\<lambda>sb. list_all (\<lambda>sblock. 0 \<le> xmin_s thl ! sb ! sblock
                                     \<and> xmin_s thl ! sb ! sblock \<le> xmin_s en ! sb ! sblock)
                        [0..<3]) [0..<SBMAX_s]"

definition thresholds_between :: "nat \<Rightarrow> PsyStateVar_t \<Rightarrow> bool" where
  "thresholds_between n psv \<longleftrightarrow>
     list_all (\<lambda>chn. xmin_between (psv_thm psv ! chn) (psv_en psv ! chn)) [0..<n]"

text \<open>
  What a call of \<^verbatim>\<open>L3psycho_anal_vbr\<close> finds: tables as above, whose partitions take the 513
  lines of a long and the 129 lines of a short transform; the stereo demasking and the
  absolute threshold for every partition; \<^verbatim>\<open>masking_lower\<close> not negative; the constants
  \<^verbatim>\<open>NS_PREECHO_ATT0\<close> from 0 to 1 and \<^verbatim>\<open>NS_PREECHO_ATT2\<close> not negative; at most four analyzed
  channels; \<^verbatim>\<open>uselongblock[2]\<close>, \<^verbatim>\<open>ns_attacks[4][4]\<close> and \<^verbatim>\<open>en_subshort[12]\<close> for each channel;
  and for each analyzed channel the energies of 513 lines and of three times 129 lines, none
  of them negative.
\<close>

definition vbr_call_ok ::
  "psy_header \<Rightarrow> psy_config \<Rightarrow> int list \<Rightarrow> int list list \<Rightarrow> real list list \<Rightarrow> real list list
     \<Rightarrow> real list list list \<Rightarrow> bool" where
  "vbr_call_ok h c uselong ns_attacks en_sub fftenergy fftenergy_s \<longleftrightarrow>
     psy_tables_ok (cd_psy_l c) SBMAX_l \<and> psy_tables_ok (cd_psy_s c) SBMAX_s
     \<and> lines_used (cd_psy_l c) = HBLKSIZE \<and> lines_used (cd_psy_s c) = HBLKSIZE_s
     \<and> npart (cd_psy_l c) \<le> length (cb_l (gfc_ATH c))
     \<and> npart (cd_psy_s c) \<le> length (cb_s (gfc_ATH c))
     \<and> 0 \<le> sv_qnt_masking_lower c
     \<and> 0 \<le> NS_PREECHO_ATT0 h \<and> NS_PREECHO_ATT0 h \<le> 1 \<and> 0 \<le> NS_PREECHO_ATT2 h
     \<and> n_chn_psy c \<le> 4
     \<and> length uselong = 2
     \<and> length ns_attacks = 4 \<and> list_all (\<lambda>a. length a = 4) ns_attacks
     \<and> length en_sub = 4 \<and> list_all (\<lambda>es. length es = 12) en_sub
     \<and> n_chn_psy c \<le> length fftenergy \<and> n_chn_psy c \<le> length fftenergy_s
     \<and> list_all (\<lambda>chn. length (fftenergy ! chn) = HBLKSIZE
                        \<and> list_all (\<lambda>e. 0 \<le> e) (fftenergy ! chn)
                        \<and> length (fftenergy_s ! chn) = 3
                        \<and> list_all (\<lambda>f. length f = HBLKSIZE_s \<and> list_all (\<lambda>e. 0 \<le> e) f)
                              (fftenergy_s ! chn)) [0..<n_chn_psy c]"

text \<open>
  Invariants of the two loops of \<^verbatim>\<open>vbrpsy_compute_masking_l\<close>: of the convolution for one
  partition, before the turn for partition \<open>i\<close> of the range that starts at \<open>lo\<close>, and of the
  loop over the partitions, before turn \<open>b\<close>.
\<close>

definition spread_inv :: "nat \<Rightarrow> nat \<Rightarrow> nat \<Rightarrow> real \<times> nat \<times> nat \<times> nat \<Rightarrow> bool" where
  "spread_inv k lo i st \<longleftrightarrow>
     (case st of (ecb, dd, dd_n, k') \<Rightarrow>
        0 \<le> ecb \<and> dd \<le> 8 * dd_n \<and> 1 \<le> dd_n \<and> k' = k + (i - lo))"

definition masking_inv ::
  "PsyConst_l_t \<Rightarrow> real list \<Rightarrow> nat \<Rightarrow> nat \<Rightarrow> nat \<Rightarrow> nat \<times> real list \<times> real list \<times> real list
     \<Rightarrow> bool" where
  "masking_inv l eb n1 n2 b st \<longleftrightarrow>
     (case st of (k, thr, nb1, nb2) \<Rightarrow>
        k = s3_used l b \<and> length thr = b \<and> length nb1 = n1 \<and> length nb2 = n2
        \<and> (\<forall>i<b. 0 \<le> thr ! i \<and> thr ! i \<le> eb ! i))"

text \<open>
  Thresholds and energies of the partitions, filled up with zeros to \<^verbatim>\<open>CBANDS\<close> entries: the
  threshold is between zero and the energy in every entry.
\<close>

definition bands_between :: "real list \<Rightarrow> real list \<Rightarrow> bool" where
  "bands_between eb thr \<longleftrightarrow>
     length eb = CBANDS \<and> length thr = CBANDS \<and> (\<forall>i<CBANDS. 0 \<le> thr ! i \<and> thr ! i \<le> eb ! i)"

text \<open>
  The invariant of the loops of \<^verbatim>\<open>L3psycho_anal_vbr\<close>: the arrays \<^verbatim>\<open>eb\<close> and \<^verbatim>\<open>thr\<close> of the
  channels below \<open>b\<close> hold thresholds between zero and the energy, and the state has its
  shape and the property of the thresholds for the \<open>n\<close> analyzed channels.
\<close>

definition vbr_state_inv ::
  "nat \<Rightarrow> nat \<Rightarrow> real list list \<times> real list list \<times> PsyStateVar_t \<Rightarrow> bool" where
  "vbr_state_inv n b st \<longleftrightarrow>
     (case st of (ebs, thrs, psv) \<Rightarrow>
        length ebs = 4 \<and> length thrs = 4
        \<and> (\<forall>chn<b. bands_between (ebs ! chn) (thrs ! chn))
        \<and> psv_shape psv \<and> thresholds_between n psv)"

subsection \<open>An example\<close>

text \<open>
  Tables of two partitions, the first of one FFT line and the second of all the others,
  every partition spreading into both with weight 1, the limit between the first two
  scalefactor bands half way into the second partition; 2, 16, 0.8, 0.6 and 0.3 for the
  constants of the header; an absolute threshold of zero; a loud first line and a weak second
  one; and the maskings of the granules before as \<^verbatim>\<open>psymodel_init\<close> leaves them.
\<close>

definition example_tables :: PsyConst_l_t where
  "example_tables =
     \<lparr>npart = 2, numlines = [1, 512], rnumlines = [1, 1 / 512], s3 = [1, 1, 1, 1],
      s3ind = [(0, 1), (0, 1)], masking_lower = [1, 1], minval = [1, 1],
      bo = 1 # replicate 21 2, bo_weight = replicate 22 0.5, mld_cb = [1, 1]\<rparr>"

definition example_tables_s :: PsyConst_s_t where
  "example_tables_s =
     \<lparr>npart = 2, numlines = [1, 128], rnumlines = [1, 1 / 128], s3 = [1, 1, 1, 1],
      s3ind = [(0, 1), (0, 1)], masking_lower = [1, 1], minval = [1, 1],
      bo = 1 # replicate 12 2, bo_weight = replicate 13 0.5, mld_cb = [1, 1]\<rparr>"

definition example_header :: psy_header where
  "example_header =
     \<lparr>rpelev = 2, rpelev2 = 16, NS_PREECHO_ATT0 = 0.8, NS_PREECHO_ATT1 = 0.6,
      NS_PREECHO_ATT2 = 0.3\<rparr>"

definition example_ath :: ATH_t where
  "example_ath = \<lparr>cb_l = replicate 64 0, cb_s = replicate 64 0, adjust_factor = 1\<rparr>"

definition example_fftenergy :: "real list" where
  "example_fftenergy = [1000, 1] @ replicate 511 0"

definition example_fftenergy_s :: "real list" where
  "example_fftenergy_s = [1000, 1] @ replicate 127 0"

definition example_nb :: "real list" where
  "example_nb = replicate 64 (10 ^ 20)"

text \<open>
  A session in joint stereo, so with four analyzed channels, every channel with the energies
  above, no attack, long blocks in both channels, and the state as \<^verbatim>\<open>psymodel_init\<close> makes it.
\<close>

definition example_config :: psy_config where
  "example_config =
     \<lparr>cfg_mode = JOINT_STEREO, cfg_channels_out = 2, cfg_msfix = 0,
      cfg_ATH_offset_factor = 1, cd_psy_l = example_tables, cd_psy_s = example_tables_s,
      gfc_ATH = example_ath, sv_qnt_masking_lower = 1\<rparr>"

definition example_psv :: PsyStateVar_t where
  "example_psv = psymodel_init False psv_calloc"
section \<open>The block-type state machine emits legal sequences\<close>

lemma apply_block_type_chn_link:
  assumes "bt_link e s"
  shows "\<exists>d s'. apply_block_type_chn u s = Some (d, s') \<and> adjacent_ok e d \<and> bt_link d s'"
  using assms by (cases e; cases s) (auto simp: apply_block_type_chn_def Let_def)

lemma block_type_set_chn_link:
  assumes "chn < 2" "length (blocktype_d v) = 2" "length (blocktype_old v) = 2"
    and "bt_link e (blocktype_old v ! chn)"
  shows "\<exists>v'. block_type_set_chn sb chn v = Some v'
           \<and> length (blocktype_d v') = 2 \<and> length (blocktype_old v') = 2
           \<and> adjacent_ok e (blocktype_d v' ! chn)
           \<and> bt_link (blocktype_d v' ! chn) (blocktype_old v' ! chn)
           \<and> (\<forall>k. k \<noteq> chn \<longrightarrow> blocktype_d v' ! k = blocktype_d v ! k
                              \<and> blocktype_old v' ! k = blocktype_old v ! k)"
proof -
  let ?u = "(let u1 = (if sb = short_block_dispensed then (uselongblock v)[chn := 1]
                else uselongblock v)
      in (if sb = short_block_forced then u1[chn := 0] else u1))"
  obtain d s' where st: "apply_block_type_chn (?u ! chn) (blocktype_old v ! chn) = Some (d, s')"
      "adjacent_ok e d" "bt_link d s'"
    using apply_block_type_chn_link[OF assms(4)] by blast
  show ?thesis
    using st assms(1-3) by (simp add: block_type_set_chn_def Let_def)
qed

lemma vbrpsy_apply_block_type_chn_link:
  assumes "chn < 2" "length (blocktype_d v) = 2" "length (blocktype_old v) = 2"
    and "bt_link e (blocktype_old v ! chn)"
  shows "\<exists>v'. vbrpsy_apply_block_type_chn chn v = Some v'
           \<and> length (blocktype_d v') = 2 \<and> length (blocktype_old v') = 2
           \<and> adjacent_ok e (blocktype_d v' ! chn)
           \<and> bt_link (blocktype_d v' ! chn) (blocktype_old v' ! chn)
           \<and> (\<forall>k. k \<noteq> chn \<longrightarrow> blocktype_d v' ! k = blocktype_d v ! k
                              \<and> blocktype_old v' ! k = blocktype_old v ! k)"
proof -
  obtain d s' where st: "apply_block_type_chn (uselongblock v ! chn) (blocktype_old v ! chn) = Some (d, s')"
      "adjacent_ok e d" "bt_link d s'"
    using apply_block_type_chn_link[OF assms(4)] by blast
  show ?thesis
    using st assms(1-3) by (simp add: vbrpsy_apply_block_type_chn_def)
qed

text \<open>The channel loop, for any body with the per-channel property above.\<close>

lemma for_chn_link:
  assumes body: "\<And>chn v e. chn < 2 \<Longrightarrow> length (blocktype_d v) = 2 \<Longrightarrow> length (blocktype_old v) = 2
       \<Longrightarrow> bt_link e (blocktype_old v ! chn) \<Longrightarrow>
       \<exists>v'. body chn v = Some v'
           \<and> length (blocktype_d v') = 2 \<and> length (blocktype_old v') = 2
           \<and> adjacent_ok e (blocktype_d v' ! chn)
           \<and> bt_link (blocktype_d v' ! chn) (blocktype_old v' ! chn)
           \<and> (\<forall>k. k \<noteq> chn \<longrightarrow> blocktype_d v' ! k = blocktype_d v ! k
                              \<and> blocktype_old v' ! k = blocktype_old v ! k)"
    and "nch \<le> 2" "length (blocktype_d v) = 2" "length (blocktype_old v) = 2"
    and "\<forall>chn<nch. bt_link (prev ! chn) (blocktype_old v ! chn)"
  shows "\<exists>v'. for_loop body [0..<nch] v = Some v'
           \<and> length (blocktype_d v') = 2 \<and> length (blocktype_old v') = 2
           \<and> (\<forall>chn<nch. adjacent_ok (prev ! chn) (blocktype_d v' ! chn)
                    \<and> bt_link (blocktype_d v' ! chn) (blocktype_old v' ! chn))"
proof -
  consider "nch = 0" | "nch = 1" | "nch = 2" using assms(2) by linarith
  then show ?thesis
  proof cases
    case 1
    then show ?thesis using assms(3,4) by simp
  next
    case 2
    obtain v' where "body 0 v = Some v'" "length (blocktype_d v') = 2" "length (blocktype_old v') = 2"
        "adjacent_ok (prev ! 0) (blocktype_d v' ! 0)" "bt_link (blocktype_d v' ! 0) (blocktype_old v' ! 0)"
      using body[of 0 v "prev ! 0"] assms(3-5) 2 by auto
    then show ?thesis using 2 by simp
  next
    case 3
    obtain v1 where v1: "body 0 v = Some v1" "length (blocktype_d v1) = 2" "length (blocktype_old v1) = 2"
        "adjacent_ok (prev ! 0) (blocktype_d v1 ! 0)" "bt_link (blocktype_d v1 ! 0) (blocktype_old v1 ! 0)"
        "blocktype_old v1 ! 1 = blocktype_old v ! 1"
      using body[of 0 v "prev ! 0"] assms(3-5) 3 by auto
    have "bt_link (prev ! 1) (blocktype_old v1 ! 1)" using v1(6) assms(5) 3 by simp
    then obtain v2 where v2: "body 1 v1 = Some v2" "length (blocktype_d v2) = 2" "length (blocktype_old v2) = 2"
        "adjacent_ok (prev ! 1) (blocktype_d v2 ! 1)" "bt_link (blocktype_d v2 ! 1) (blocktype_old v2 ! 1)"
        "blocktype_d v2 ! 0 = blocktype_d v1 ! 0" "blocktype_old v2 ! 0 = blocktype_old v1 ! 0"
      using body[of 1 v1 "prev ! 1"] v1(2,3) by auto
    have upt2: "[0..<2] = [0, Suc 0]" by (simp add: upt_rec)
    have "for_loop body [0..<nch] v = Some v2" using 3 v1(1) v2(1) by (simp add: upt2)
    moreover have "\<forall>chn<nch. adjacent_ok (prev ! chn) (blocktype_d v2 ! chn)
                    \<and> bt_link (blocktype_d v2 ! chn) (blocktype_old v2 ! chn)"
    proof (intro allI impI)
      fix chn assume "chn < nch"
      then have "chn = 0 \<or> chn = 1" using 3 by auto
      then show "adjacent_ok (prev ! chn) (blocktype_d v2 ! chn)
                    \<and> bt_link (blocktype_d v2 ! chn) (blocktype_old v2 ! chn)"
        using v1 v2 by auto
    qed
    ultimately show ?thesis using v2(2,3) by blast
  qed
qed

lemma block_type_set_link:
  assumes "nch \<le> 2" "length (blocktype_d v) = 2" "length (blocktype_old v) = 2"
    and "\<forall>chn<nch. bt_link (prev ! chn) (blocktype_old v ! chn)"
  shows "\<exists>v'. block_type_set sb nch v = Some v'
           \<and> length (blocktype_d v') = 2 \<and> length (blocktype_old v') = 2
           \<and> (\<forall>chn<nch. adjacent_ok (prev ! chn) (blocktype_d v' ! chn)
                    \<and> bt_link (blocktype_d v' ! chn) (blocktype_old v' ! chn))"
  unfolding block_type_set_def
  by (rule for_chn_link[OF block_type_set_chn_link]) (use assms in simp_all)

lemma vbrpsy_apply_block_type_link:
  assumes "nch \<le> 2" "length (blocktype_d v) = 2" "length (blocktype_old v) = 2"
    and "\<forall>chn<nch. bt_link (prev ! chn) (blocktype_old v ! chn)"
  shows "\<exists>v'. vbrpsy_apply_block_type nch v = Some v'
           \<and> length (blocktype_d v') = 2 \<and> length (blocktype_old v') = 2
           \<and> (\<forall>chn<nch. adjacent_ok (prev ! chn) (blocktype_d v' ! chn)
                    \<and> bt_link (blocktype_d v' ! chn) (blocktype_old v' ! chn))"
  unfolding vbrpsy_apply_block_type_def
  by (rule for_chn_link[OF vbrpsy_apply_block_type_chn_link]) (use assms in simp_all)

lemma ns_block_types_legal:
  assumes "nch \<le> 2" "length old = 2"
    and "\<forall>chn<nch. bt_link (prev ! chn) (old ! chn)"
  shows "\<exists>ds. ns_block_types sb nch old us = Some ds \<and> length ds = length us
           \<and> (\<forall>chn<nch. block_types_legal (prev ! chn) (map (\<lambda>d. d ! chn) ds))"
  using assms(2,3)
proof (induction us arbitrary: old prev)
  case Nil
  then show ?case by simp
next
  case (Cons u us)
  let ?v = "\<lparr>uselongblock = u, blocktype_d = [NORM_TYPE, NORM_TYPE], blocktype_old = old\<rparr>"
  obtain v' where v': "block_type_set sb nch ?v = Some v'" "length (blocktype_old v') = 2"
      "\<forall>chn<nch. adjacent_ok (prev ! chn) (blocktype_d v' ! chn)
                    \<and> bt_link (blocktype_d v' ! chn) (blocktype_old v' ! chn)"
    using block_type_set_link[OF assms(1), of ?v prev sb] Cons.prems by auto
  obtain ds where ds: "ns_block_types sb nch (blocktype_old v') us = Some ds" "length ds = length us"
      "\<forall>chn<nch. block_types_legal (blocktype_d v' ! chn) (map (\<lambda>d. d ! chn) ds)"
    using Cons.IH[of "blocktype_old v'" "blocktype_d v'"] v'(2,3) by auto
  show ?case using v' ds by simp
qed

lemma vbr_block_types_legal:
  assumes "nch \<le> 2" "length old = 2"
    and "\<forall>chn<nch. bt_link (prev ! chn) (old ! chn)"
  shows "\<exists>ds. vbr_block_types sb nch old us = Some ds \<and> length ds = length us
           \<and> (\<forall>chn<nch. block_types_legal (prev ! chn) (map (\<lambda>d. d ! chn) ds))"
  using assms(2,3)
proof (induction us arbitrary: old prev)
  case Nil
  then show ?case by simp
next
  case (Cons u us)
  let ?v = "\<lparr>uselongblock = vbrpsy_compute_block_type sb nch u, blocktype_d = [NORM_TYPE, NORM_TYPE], blocktype_old = old\<rparr>"
  obtain v' where v': "vbrpsy_apply_block_type nch ?v = Some v'" "length (blocktype_old v') = 2"
      "\<forall>chn<nch. adjacent_ok (prev ! chn) (blocktype_d v' ! chn)
                    \<and> bt_link (blocktype_d v' ! chn) (blocktype_old v' ! chn)"
    using vbrpsy_apply_block_type_link[OF assms(1), of ?v prev] Cons.prems by auto
  obtain ds where ds: "vbr_block_types sb nch (blocktype_old v') us = Some ds" "length ds = length us"
      "\<forall>chn<nch. block_types_legal (blocktype_d v' ! chn) (map (\<lambda>d. d ! chn) ds)"
    using Cons.IH[of "blocktype_old v'" "blocktype_d v'"] v'(2,3) by auto
  show ?case using v' ds by simp
qed

text \<open>
  Claim C2. In both analyzers, for every short-block policy, every channel that is coded and
  every sequence of attack decisions, the analysis never fails its assertion and the block
  types it hands out for a channel, read after the long block the session starts from, are
  legal: a SHORT granule is preceded by START or SHORT and followed by SHORT or STOP, so it
  is never next to a NORM granule.
\<close>

theorem block_type_sequences_legal:
  assumes "channels_out \<le> 2" and "chn < channels_out"
  shows "(\<exists>ds. ns_block_types short_blocks channels_out blocktype_old_init us = Some ds
             \<and> length ds = length us
             \<and> block_types_legal NORM_TYPE (map (\<lambda>d. d ! chn) ds))
       \<and> (\<exists>ds. vbr_block_types short_blocks channels_out blocktype_old_init us = Some ds
             \<and> length ds = length us
             \<and> block_types_legal NORM_TYPE (map (\<lambda>d. d ! chn) ds))"
proof -
  have l: "length blocktype_old_init = 2"
    and k: "\<forall>c<channels_out. bt_link ([NORM_TYPE, NORM_TYPE] ! c) (blocktype_old_init ! c)"
    using assms(1) by (auto simp: blocktype_old_init_def nth_Cons')
  have p: "[NORM_TYPE, NORM_TYPE] ! chn = NORM_TYPE"
    using assms by (auto simp: nth_Cons')
  show ?thesis
    using ns_block_types_legal[OF assms(1) l k, of short_blocks us]
      vbr_block_types_legal[OF assms(1) l k, of short_blocks us] assms(2) p
    by metis
qed

theorem block_type_sequences_legal_witness:
  "(2::nat) \<le> 2 \<and> (0::nat) < 2
   \<and> ns_block_types short_block_allowed 2 blocktype_old_init [[1,1],[0,1],[1,1],[0,0]]
       = Some [[NORM_TYPE, NORM_TYPE], [START_TYPE, NORM_TYPE], [SHORT_TYPE, NORM_TYPE],
               [SHORT_TYPE, START_TYPE]]
   \<and> (\<exists>ds. ns_block_types short_block_allowed 2 blocktype_old_init [[1,1],[0,1],[1,1],[0,0]] = Some ds
         \<and> length ds = length [[1,1],[0,1],[1,1],[0,0::int]]
         \<and> block_types_legal NORM_TYPE (map (\<lambda>d. d ! 0) ds))
   \<and> (\<exists>ds. vbr_block_types short_block_allowed 2 blocktype_old_init [[1,1],[0,1],[1,1],[0,0]] = Some ds
         \<and> length ds = length [[1,1],[0,1],[1,1],[0,0::int]]
         \<and> block_types_legal NORM_TYPE (map (\<lambda>d. d ! 0) ds))"
proof -
  have h1: "(2::nat) \<le> 2" and h2: "(0::nat) < 2" by simp_all
  have upt2: "[0..<2] = [0, Suc 0]" by (simp add: upt_rec)
  have e: "ns_block_types short_block_allowed 2 blocktype_old_init [[1,1],[0,1],[1,1],[0,0]]
       = Some [[NORM_TYPE, NORM_TYPE], [START_TYPE, NORM_TYPE], [SHORT_TYPE, NORM_TYPE],
               [SHORT_TYPE, START_TYPE]]"
    by (simp add: blocktype_old_init_def block_type_set_def block_type_set_chn_def
        couple_channels_def apply_block_type_chn_def upt2 Let_def)
  show ?thesis
    using h1 h2 e block_type_sequences_legal[OF h1 h2, of short_block_allowed "[[1,1],[0,1],[1,1],[0,0]]"]
    by blast
qed

section \<open>Additive masking is symmetric and never weakens the stronger masker\<close>

lemma vbr_table2_ge_1:
  assumes "i < length vbr_table2"
  shows "1 \<le> vbr_table2 ! i"
proof -
  have "list_all (\<lambda>x. 1 \<le> x) vbr_table2" by (simp add: vbr_table2_def)
  then show ?thesis using assms by (simp add: list_all_length)
qed

lemma mask_add_index:
  assumes "1 \<le> ratio" "ratio < ma_max_i1"
  shows "0 \<le> c_int (FAST_LOG10_X ratio 16)" "c_int (FAST_LOG10_X ratio 16) < int (length vbr_table2)"
proof -
  have pos: "0 < ratio" using assms(1) by simp
  have l0: "0 \<le> log 10 ratio" using assms(1) by simp
  have "ratio < 10 powr (9 / 16)" using assms(2) by (simp add: ma_max_i1_def I1LIMIT_def)
  then have "log 10 ratio < 9 / 16" using pos by (simp add: less_powr_iff)
  then have u: "log 10 ratio * 16 < 9" by simp
  have nn: "0 \<le> log 10 ratio * 16" using l0 by simp
  show "0 \<le> c_int (FAST_LOG10_X ratio 16)" using nn by (simp add: c_int_def FAST_LOG10_X_def)
  have "\<lfloor>log 10 ratio * 16\<rfloor> < 9" using u by (simp add: floor_less_iff)
  then show "c_int (FAST_LOG10_X ratio 16) < int (length vbr_table2)"
    using nn by (simp add: c_int_def FAST_LOG10_X_def vbr_table2_def)
qed

text \<open>The function once the two clamps at its head are done.\<close>

lemma vbrpsy_mask_add_nonpos_left:
  assumes "m1 \<le> 0"
  shows "vbrpsy_mask_add m1 m2 b = Some (max m2 0)"
proof -
  have "(if m1 < 0 then 0 else m1) = 0" using assms by simp
  then show ?thesis unfolding vbrpsy_mask_add_def Let_def by (simp add: max_def)
qed

lemma vbrpsy_mask_add_nonpos_right:
  assumes "0 < m1" "m2 \<le> 0"
  shows "vbrpsy_mask_add m1 m2 b = Some m1"
proof -
  have c1: "(if m1 < 0 then 0 else m1) = m1" using assms by simp
  have c2: "(if m2 < 0 then 0 else m2) = 0" using assms by simp
  show ?thesis unfolding vbrpsy_mask_add_def Let_def c1 c2 using assms(1) by simp
qed

lemma vbrpsy_mask_add_pos_eq:
  assumes "0 < m1" "0 < m2"
  shows "vbrpsy_mask_add m1 m2 b =
     (let ratio = (if m2 > m1 then m2 / m1 else m1 / m2)
            in if - 2 \<le> b \<and> b \<le> 2 then
                 (if ratio \<ge> ma_max_i1 then Some (m1 + m2)
                  else
                    (let i = c_int (FAST_LOG10_X ratio 16)
                     in if 0 \<le> i \<and> i < int (length vbr_table2)
                        then Some ((m1 + m2) * vbr_table2 ! nat i) else None))
               else if ratio < ma_max_i2 then Some (m1 + m2)
               else Some (if m1 < m2 then m2 else m1))"
proof -
  have c1: "(if m1 < 0 then 0 else m1) = m1" using assms by simp
  have c2: "(if m2 < 0 then 0 else m2) = m2" using assms by simp
  have n1: "\<not> m1 \<le> 0" and n2: "\<not> m2 \<le> 0" using assms by simp_all
  show ?thesis
    unfolding vbrpsy_mask_add_def Let_def c1 c2 if_not_P[OF n1] if_not_P[OF n2] ..
qed

lemma vbrpsy_mask_add_pos:
  assumes "0 < m1" "0 < m2"
  shows "\<exists>r. vbrpsy_mask_add m1 m2 b = Some r \<and> vbrpsy_mask_add m2 m1 b = Some r
           \<and> m1 \<le> r \<and> m2 \<le> r"
proof -
  define ratio where "ratio = (if m2 > m1 then m2 / m1 else m1 / m2)"
  have ratio_sym: "(if m1 > m2 then m1 / m2 else m2 / m1) = ratio"
    using assms by (cases "m1 = m2") (simp_all add: ratio_def)
  have r1: "1 \<le> ratio" using assms by (simp add: ratio_def)
  note e1 = vbrpsy_mask_add_pos_eq[OF assms, of b, unfolded Let_def, folded ratio_def]
  note e2 = vbrpsy_mask_add_pos_eq[OF assms(2,1), of b, unfolded Let_def ratio_sym]
  show ?thesis
  proof (cases "- 2 \<le> b \<and> b \<le> 2")
    case near: True
    show ?thesis
    proof (cases "ratio \<ge> ma_max_i1")
      case True
      have "vbrpsy_mask_add m1 m2 b = Some (m1 + m2)" using e1 near True by simp
      moreover have "vbrpsy_mask_add m2 m1 b = Some (m1 + m2)"
        using e2 near True by (simp add: add.commute)
      ultimately show ?thesis using assms by simp
    next
      case False
      then have lt: "ratio < ma_max_i1" by simp
      define i where "i = c_int (FAST_LOG10_X ratio 16)"
      have i: "0 \<le> i" "i < int (length vbr_table2)"
        using mask_add_index[OF r1 lt] by (simp_all add: i_def)
      then have "nat i < length vbr_table2" by simp
      then have t: "1 \<le> vbr_table2 ! nat i" by (rule vbr_table2_ge_1)
      have s: "0 < m1 + m2" using assms by simp
      have "m1 + m2 \<le> (m1 + m2) * vbr_table2 ! nat i"
        using t s by (simp add: mult_le_cancel_left1)
      then have b1: "m1 \<le> (m1 + m2) * vbr_table2 ! nat i" "m2 \<le> (m1 + m2) * vbr_table2 ! nat i"
        using assms by linarith+
      have "vbrpsy_mask_add m1 m2 b = Some ((m1 + m2) * vbr_table2 ! nat i)"
        using e1 near lt i by (simp add: i_def)
      moreover have "vbrpsy_mask_add m2 m1 b = Some ((m1 + m2) * vbr_table2 ! nat i)"
        using e2 near lt i by (simp add: i_def add.commute)
      ultimately show ?thesis using b1 by simp
    qed
  next
    case far: False
    show ?thesis
    proof (cases "ratio < ma_max_i2")
      case True
      have "vbrpsy_mask_add m1 m2 b = Some (m1 + m2)" using e1 far True by simp
      moreover have "vbrpsy_mask_add m2 m1 b = Some (m1 + m2)"
        using e2 far True by (simp add: add.commute)
      ultimately show ?thesis using assms by simp
    next
      case False
      have "vbrpsy_mask_add m1 m2 b = Some (max m1 m2)" using e1 far False by (simp add: max_def)
      moreover have "vbrpsy_mask_add m2 m1 b = Some (max m1 m2)"
        using e2 far False by (simp add: max_def)
      ultimately show ?thesis by simp
    qed
  qed
qed

text \<open>
  Claim C10. For all real maskers \<open>m1\<close>, \<open>m2\<close> and every partition distance \<open>b\<close>,
  \<^verbatim>\<open>vbrpsy_mask_add\<close> returns a value (its table read stays inside \<^verbatim>\<open>table2\<close>), the value is
  the same with the two maskers swapped, and it is at least \<open>max(m1, m2, 0)\<close>.
\<close>

theorem vbrpsy_mask_add_symmetric_dominant:
  "\<exists>r. vbrpsy_mask_add m1 m2 b = Some r \<and> vbrpsy_mask_add m2 m1 b = Some r
       \<and> max m1 (max m2 0) \<le> r"
proof -
  consider "0 < m1" "0 < m2" | "m1 \<le> 0" "m2 \<le> 0" | "m1 \<le> 0" "0 < m2" | "0 < m1" "m2 \<le> 0"
    by linarith
  then show ?thesis
  proof cases
    case 1
    then show ?thesis using vbrpsy_mask_add_pos[of m1 m2 b] by (simp add: max_def) blast
  next
    case 2
    then show ?thesis
      using vbrpsy_mask_add_nonpos_left[of m1 m2 b] vbrpsy_mask_add_nonpos_left[of m2 m1 b]
      by (simp add: max_def)
  next
    case 3
    then show ?thesis
      using vbrpsy_mask_add_nonpos_left[of m1 m2 b] vbrpsy_mask_add_nonpos_right[of m2 m1 b]
      by (simp add: max_def)
  next
    case 4
    then show ?thesis
      using vbrpsy_mask_add_nonpos_right[of m1 m2 b] vbrpsy_mask_add_nonpos_left[of m2 m1 b]
      by (simp add: max_def)
  qed
qed

section \<open>The step-size search stays in range\<close>

lemma c_div_pos: "0 \<le> a \<Longrightarrow> 0 < b \<Longrightarrow> c_div a b = a div b"
  by (cases "a = 0") (simp_all add: c_div_def)

lemma bin_search_do_range:
  assumes "1 \<le> cs" "0 \<le> ss" "ss \<le> 255"
  shows "\<exists>nb ss' g l. bin_search_do env d x ss cs fl dir cod = Some (nb, ss', cod\<lparr>global_gain := g\<rparr>, l)
            \<and> 0 \<le> g \<and> g \<le> 255"
  using assms
proof (induction "bs_measure ss cs fl dir" arbitrary: ss cs fl dir cod rule: less_induct)
  case less
  let ?cod = "cod\<lparr>global_gain := ss\<rparr>"
  let ?nb = "fst (count_bits env x ?cod)"
  show ?case
  proof (cases "cs = 1")
    case True
    then show ?thesis using less.prems
      by (subst bin_search_do.simps) (auto simp: Let_def)
  next
    case False
    then have cs2: "2 \<le> cs" using less.prems by simp
    define cs1 where "cs1 = (if fl then c_div cs 2 else cs)"
    have cs1_eq: "cs1 = (if fl then cs div 2 else cs)"
      using cs2 by (simp add: cs1_def c_div_pos)
    have cs1_pos: "1 \<le> cs1" using cs2 by (auto simp: cs1_eq)
    consider (up) "?nb > d" | (down) "?nb < d" | (eq) "?nb = d" by linarith
    then show ?thesis
    proof cases
      case eq
      then show ?thesis using False less.prems
        by (subst bin_search_do.simps) (auto simp: Let_def)
    next
      case up
      define ov where "ov = (dir = BINSEARCH_DOWN \<and> \<not> fl)"
      define cs' where "cs' = (if ov then c_div cs1 2 else cs1)"
      have cs'_eq: "cs' = (if ov then cs div 2 else cs1)"
        using cs2 by (auto simp: cs'_def cs1_eq c_div_pos ov_def)
      have cs'_pos: "1 \<le> cs'" using cs2 cs1_pos by (auto simp: cs'_eq)
      have unf: "bin_search_do env d x ss cs fl dir cod =
          (if ss + cs' > 255 then Some (?nb, ss + cs', ?cod, snd (count_bits env x ?cod))
           else bin_search_do env d x (ss + cs') cs' (fl \<or> ov) BINSEARCH_UP ?cod)"
        using False up
        by (subst bin_search_do.simps) (simp add: Let_def cs1_def cs'_def ov_def)
      show ?thesis
      proof (cases "ss + cs' > 255")
        case True
        then show ?thesis using unf less.prems by auto
      next
        case False
        have m: "bs_measure (ss + cs') cs' (fl \<or> ov) BINSEARCH_UP < bs_measure ss cs fl dir"
          using cs2 cs'_pos False less.prems
          by (cases dir) (auto simp: bs_measure_def cs'_eq cs1_eq ov_def)
        have "\<exists>nb ss' g l. bin_search_do env d x (ss + cs') cs' (fl \<or> ov) BINSEARCH_UP ?cod
                 = Some (nb, ss', ?cod\<lparr>global_gain := g\<rparr>, l) \<and> 0 \<le> g \<and> g \<le> 255"
          by (rule less.hyps[OF m]) (use cs'_pos False less.prems in simp_all)
        then show ?thesis using unf False by simp
      qed
    next
      case down
      define ov where "ov = (dir = BINSEARCH_UP \<and> \<not> fl)"
      define cs' where "cs' = (if ov then c_div cs1 2 else cs1)"
      have cs'_eq: "cs' = (if ov then cs div 2 else cs1)"
        using cs2 by (auto simp: cs'_def cs1_eq c_div_pos ov_def)
      have cs'_pos: "1 \<le> cs'" using cs2 cs1_pos by (auto simp: cs'_eq)
      have unf: "bin_search_do env d x ss cs fl dir cod =
          (if ss - cs' < 0 then Some (?nb, ss - cs', ?cod, snd (count_bits env x ?cod))
           else bin_search_do env d x (ss - cs') cs' (fl \<or> ov) BINSEARCH_DOWN ?cod)"
        using False down
        by (subst bin_search_do.simps) (simp add: Let_def cs1_def cs'_def ov_def)
      show ?thesis
      proof (cases "ss - cs' < 0")
        case True
        then show ?thesis using unf less.prems by auto
      next
        case False
        have m: "bs_measure (ss - cs') cs' (fl \<or> ov) BINSEARCH_DOWN < bs_measure ss cs fl dir"
          using cs2 cs'_pos False less.prems
          by (cases dir) (auto simp: bs_measure_def cs'_eq cs1_eq ov_def)
        have "\<exists>nb ss' g l. bin_search_do env d x (ss - cs') cs' (fl \<or> ov) BINSEARCH_DOWN ?cod
                 = Some (nb, ss', ?cod\<lparr>global_gain := g\<rparr>, l) \<and> 0 \<le> g \<and> g \<le> 255"
          by (rule less.hyps[OF m]) (use cs'_pos False less.prems in simp_all)
        then show ?thesis using unf False by simp
      qed
    qed
  qed
qed

text \<open>
  From a start value in 0..255 and a positive step, \<^verbatim>\<open>bin_search_StepSize\<close> returns, leaves
  \<^verbatim>\<open>global_gain\<close> in 0..255 and stores 2 or 4 as the next step.
\<close>

lemma bin_search_StepSize_range:
  assumes "1 \<le> CurrentStep gfc" "0 \<le> start" "start \<le> 255"
  shows "\<exists>nBits gfc' g l3enc.
           bin_search_StepSize env gfc cod_info desired_rate start xrpow
             = Some (nBits, gfc', cod_info\<lparr>global_gain := g\<rparr>, l3enc)
           \<and> 0 \<le> g \<and> g \<le> 255
           \<and> OldValue gfc' = OldValue gfc \<and> (CurrentStep gfc' = 2 \<or> CurrentStep gfc' = 4)"
proof -
  obtain nb ss' g l where r:
      "bin_search_do env desired_rate xrpow start (CurrentStep gfc) False BINSEARCH_NONE cod_info
         = Some (nb, ss', cod_info\<lparr>global_gain := g\<rparr>, l)" "0 \<le> g" "g \<le> 255"
    using bin_search_do_range[OF assms, of env desired_rate xrpow False BINSEARCH_NONE cod_info]
    by blast
  have ne: "CurrentStep gfc \<noteq> 0" using assms(1) by simp
  show ?thesis
    using r ne by (auto simp: bin_search_StepSize_def)
qed
section \<open>The inner loop\<close>

lemma inner_loop_while_sound_aux:
  assumes "inner_loop_while env mb x bits cod l = Some r"
  shows "fst r \<le> mb \<and> global_gain cod \<le> global_gain (fst (snd r))
         \<and> fst (snd r) = cod\<lparr>global_gain := global_gain (fst (snd r))\<rparr>
         \<and> (fst r, snd (snd r)) = (if global_gain (fst (snd r)) = global_gain cod then (bits, l)
                      else count_bits env x (fst (snd r)))"
proof (rule inner_loop_while.raw_induct[where P = "\<lambda>env mb x bits cod l r.
         fst r \<le> mb \<and> global_gain cod \<le> global_gain (fst (snd r))
         \<and> fst (snd r) = cod\<lparr>global_gain := global_gain (fst (snd r))\<rparr>
         \<and> (fst r, snd (snd r)) = (if global_gain (fst (snd r)) = global_gain cod then (bits, l)
                      else count_bits env x (fst (snd r)))", OF _ assms])
  fix f :: "quant_env \<Rightarrow> int \<Rightarrow> real list \<Rightarrow> int \<Rightarrow> gr_info \<Rightarrow> int list
              \<Rightarrow> (int \<times> gr_info \<times> int list) option"
  fix env mb x bits cod l r
  assume ih: "\<And>env mb x bits cod l r. f env mb x bits cod l = Some r \<Longrightarrow>
         fst r \<le> mb \<and> global_gain cod \<le> global_gain (fst (snd r))
         \<and> fst (snd r) = cod\<lparr>global_gain := global_gain (fst (snd r))\<rparr>
         \<and> (fst r, snd (snd r)) = (if global_gain (fst (snd r)) = global_gain cod then (bits, l)
                      else count_bits env x (fst (snd r)))"
  assume body: "(if mb < bits
      then let cod' = cod\<lparr>global_gain := global_gain cod + 1\<rparr>
           in f env mb x (fst (count_bits env x cod')) cod' (snd (count_bits env x cod'))
      else Some (bits, cod, l)) = Some r"
  show "fst r \<le> mb \<and> global_gain cod \<le> global_gain (fst (snd r))
         \<and> fst (snd r) = cod\<lparr>global_gain := global_gain (fst (snd r))\<rparr>
         \<and> (fst r, snd (snd r)) = (if global_gain (fst (snd r)) = global_gain cod then (bits, l)
                      else count_bits env x (fst (snd r)))"
  proof (cases "bits > mb")
    case False
    then show ?thesis using body by auto
  next
    case True
    let ?c = "cod\<lparr>global_gain := global_gain cod + 1\<rparr>"
    have "f env mb x (fst (count_bits env x ?c)) ?c (snd (count_bits env x ?c)) = Some r"
      using body True by (simp add: Let_def)
    from ih[OF this] show ?thesis
      by (auto split: if_splits)
  qed
qed

lemma inner_loop_while_sound:
  assumes "inner_loop_while env mb x bits cod l = Some (b, cod', l')"
  shows "b \<le> mb \<and> global_gain cod \<le> global_gain cod'
         \<and> cod' = cod\<lparr>global_gain := global_gain cod'\<rparr>
         \<and> (b, l') = (if global_gain cod' = global_gain cod then (bits, l)
                      else count_bits env x cod')"
  using inner_loop_while_sound_aux[OF assms] by simp

lemma inner_loop_while_returns:
  assumes "bits \<le> mb \<or> (\<exists>k. fst (count_bits env x (cod\<lparr>global_gain := global_gain cod + 1 + int k\<rparr>)) \<le> mb \<and> k < n)"
  shows "\<exists>r. inner_loop_while env mb x bits cod l = Some r"
  using assms
proof (induction n arbitrary: bits cod l)
  case 0
  then show ?case by (subst inner_loop_while.simps) simp
next
  case (Suc n)
  show ?case
  proof (cases "bits \<le> mb")
    case True
    then show ?thesis by (subst inner_loop_while.simps) simp
  next
    case False
    let ?c = "cod\<lparr>global_gain := global_gain cod + 1\<rparr>"
    obtain k where k: "fst (count_bits env x (cod\<lparr>global_gain := global_gain cod + 1 + int k\<rparr>)) \<le> mb"
        "k < Suc n"
      using Suc.prems False by blast
    have "fst (count_bits env x ?c) \<le> mb
          \<or> (\<exists>j. fst (count_bits env x (?c\<lparr>global_gain := global_gain ?c + 1 + int j\<rparr>)) \<le> mb \<and> j < n)"
    proof (cases k)
      case 0
      then show ?thesis using k by simp
    next
      case (Suc j)
      then have "fst (count_bits env x (?c\<lparr>global_gain := global_gain ?c + 1 + int j\<rparr>)) \<le> mb \<and> j < n"
        using k by (simp add: add.commute add.left_commute)
      then show ?thesis by blast
    qed
    from Suc.IH[OF this]
    obtain r where "inner_loop_while env mb x (fst (count_bits env x ?c)) ?c (snd (count_bits env x ?c)) = Some r"
      by blast
    then have "inner_loop_while env mb x bits cod l = Some r"
      using False by (subst inner_loop_while.simps) (simp add: Let_def)
    then show ?thesis by blast
  qed
qed

text \<open>
  Whatever the bit counter: for a non-negative budget \<^verbatim>\<open>inner_loop\<close> returns exactly when the
  counter meets the budget at the starting gain or at some higher one; when it returns, the bit
  count is within the budget, the gain has not fallen and is the only field of \<^verbatim>\<open>cod_info\<close>
  that changed, and bit count and \<^verbatim>\<open>l3enc\<close> are those of the final gain.
\<close>

lemma inner_loop_returns_iff_counter_meets_budget:
  assumes "0 \<le> max_bits"
  shows "((\<exists>r. inner_loop env cod_info max_bits xrpow = Some r)
           \<longleftrightarrow> (\<exists>n. fst (count_bits env xrpow
                            (cod_info\<lparr>global_gain := global_gain cod_info + int n\<rparr>)) \<le> max_bits))
       \<and> (\<forall>bits cod' l3enc. inner_loop env cod_info max_bits xrpow = Some (bits, cod', l3enc)
             \<longrightarrow> bits \<le> max_bits \<and> global_gain cod_info \<le> global_gain cod'
                 \<and> cod' = cod_info\<lparr>global_gain := global_gain cod'\<rparr>
                 \<and> (bits, l3enc) = count_bits env xrpow cod')"
proof -
  let ?b0 = "fst (count_bits env xrpow cod_info)"
  let ?l0 = "snd (count_bits env xrpow cod_info)"
  have unf: "inner_loop env cod_info max_bits xrpow
               = inner_loop_while env max_bits xrpow ?b0 cod_info ?l0"
    using assms by (simp add: inner_loop_def)
  have sound: "bits \<le> max_bits \<and> global_gain cod_info \<le> global_gain cod'
                 \<and> cod' = cod_info\<lparr>global_gain := global_gain cod'\<rparr>
                 \<and> (bits, l3enc) = count_bits env xrpow cod'"
    if r: "inner_loop env cod_info max_bits xrpow = Some (bits, cod', l3enc)" for bits cod' l3enc
  proof -
    note s = inner_loop_while_sound[OF r[unfolded unf]]
    have "(bits, l3enc) = count_bits env xrpow cod'"
    proof (cases "global_gain cod' = global_gain cod_info")
      case True
      then have "cod' = cod_info" using s by (metis gr_info.update_convs(4) gr_info.surjective)
      then show ?thesis using s True by simp
    next
      case False
      then show ?thesis using s by simp
    qed
    then show ?thesis using s by simp
  qed
  have fwd: "\<exists>n. fst (count_bits env xrpow
                    (cod_info\<lparr>global_gain := global_gain cod_info + int n\<rparr>)) \<le> max_bits"
    if "\<exists>r. inner_loop env cod_info max_bits xrpow = Some r"
  proof -
    from that obtain bits cod' l3enc
      where r: "inner_loop env cod_info max_bits xrpow = Some (bits, cod', l3enc)"
      by (metis prod_cases3)
    note s = sound[OF r]
    define n where "n = nat (global_gain cod' - global_gain cod_info)"
    have "global_gain cod_info + int n = global_gain cod'" using s by (simp add: n_def)
    then have "cod_info\<lparr>global_gain := global_gain cod_info + int n\<rparr> = cod'" using s by simp
    moreover have "fst (count_bits env xrpow cod') \<le> max_bits" using s by (metis fst_conv)
    ultimately show ?thesis by metis
  qed
  have bwd: "\<exists>r. inner_loop env cod_info max_bits xrpow = Some r"
    if "\<exists>n. fst (count_bits env xrpow
                    (cod_info\<lparr>global_gain := global_gain cod_info + int n\<rparr>)) \<le> max_bits"
  proof -
    from that obtain n where n: "fst (count_bits env xrpow
                    (cod_info\<lparr>global_gain := global_gain cod_info + int n\<rparr>)) \<le> max_bits"
      by blast
    have "?b0 \<le> max_bits \<or> (\<exists>k. fst (count_bits env xrpow
            (cod_info\<lparr>global_gain := global_gain cod_info + 1 + int k\<rparr>)) \<le> max_bits \<and> k < n)"
    proof (cases n)
      case 0
      then show ?thesis using n by simp
    next
      case (Suc k)
      then have "fst (count_bits env xrpow
            (cod_info\<lparr>global_gain := global_gain cod_info + 1 + int k\<rparr>)) \<le> max_bits \<and> k < n"
        using n by (simp add: add.commute add.left_commute)
      then show ?thesis by blast
    qed
    from inner_loop_while_returns[OF this] show ?thesis unfolding unf .
  qed
  show ?thesis using sound fwd bwd by blast
qed
section \<open>Preparation of the quantization loop and analog silence\<close>

lemma sqrt_sqrt_powr:
  assumes "0 \<le> (t::real)"
  shows "sqrt (t * sqrt t) = t powr (3 / 4)"
proof (cases "t = 0")
  case True
  then show ?thesis by simp
next
  case False
  then have pos: "0 < t" using assms by simp
  have "t * sqrt t = t powr 1 * t powr (1 / 2)" using pos by (simp add: powr_half_sqrt)
  also have "\<dots> = t powr (1 + 1 / 2)" by (rule powr_add[symmetric])
  also have "\<dots> = t powr (3 / 2)" by simp
  finally have "sqrt (t * sqrt t) = (t powr (3 / 2)) powr (1 / 2)"
    by (simp add: powr_half_sqrt)
  also have "\<dots> = t powr (3 / 4)" by (simp add: powr_powr)
  finally show ?thesis .
qed

lemma init_outer_loop_xrpow:
  assumes "length xr = 576" "i < 576"
  shows "snd (snd (snd (init_outer_loop env cod_info xr xrpow))) ! i = \<bar>xr ! i\<bar> powr (3 / 4)"
  using assms by (simp add: init_outer_loop_def Let_def nth_append sqrt_sqrt_powr)

lemma init_outer_loop_ret:
  assumes "length xr = 576"
  shows "fst (init_outer_loop env cod_info xr xrpow)
           = (if \<forall>i<576. \<bar>xr ! i\<bar> \<le> 1 / 10 ^ 20 then 0 else 1)"
proof -
  have "(filter (\<lambda>x. \<bar>x\<bar> > 1 / 10 ^ 20) xr = []) \<longleftrightarrow> (\<forall>i<576. \<bar>xr ! i\<bar> \<le> 1 / 10 ^ 20)"
    using assms by (auto simp: filter_empty_conv all_set_conv_all_nth not_less)
  then show ?thesis using assms by (simp add: init_outer_loop_def Let_def)
qed

text \<open>
  Claim C5. For a granule of 576 coefficients, \<^verbatim>\<open>init_outer_loop\<close> stores \<open>|xr[i]|\<^sup>3\<^sup>/\<^sup>4\<close> in
  \<^verbatim>\<open>xrpow[i]\<close> for every \<open>i < 576\<close>, it returns 0 exactly when every \<open>|xr[i]|\<close> is at most
  \<open>10\<^sup>-\<^sup>2\<^sup>0\<close>, and in that case the quantization step of \<^verbatim>\<open>iteration_loop\<close> does not call
  \<^verbatim>\<open>outer_loop\<close> and leaves 576 zeros in \<^verbatim>\<open>l3_enc\<close>.
\<close>

theorem init_outer_loop_analog_silence:
  assumes "length xr = 576" "length l3_enc = 576"
  shows "(\<forall>i<576. snd (snd (snd (init_outer_loop env cod_info xr xrpow))) ! i
                    = \<bar>xr ! i\<bar> powr (3 / 4))
       \<and> (fst (init_outer_loop env cod_info xr xrpow) = 0
            \<longleftrightarrow> (\<forall>i<576. \<bar>xr ! i\<bar> \<le> 1 / 10 ^ 20))
       \<and> (fst (init_outer_loop env cod_info xr xrpow) = 0
            \<longrightarrow> (\<exists>cod' sf'. iteration_loop_quantize env gfc cod_info xr ratio xrpow l3_enc ch
                                targ_bits
                              = Some (gfc, cod', sf', replicate 576 0)))"
proof -
  have a: "\<forall>i<576. snd (snd (snd (init_outer_loop env cod_info xr xrpow))) ! i
                    = \<bar>xr ! i\<bar> powr (3 / 4)"
    using init_outer_loop_xrpow[OF assms(1)] by blast
  have b: "fst (init_outer_loop env cod_info xr xrpow) = 0
            \<longleftrightarrow> (\<forall>i<576. \<bar>xr ! i\<bar> \<le> 1 / 10 ^ 20)"
    by (simp add: init_outer_loop_ret[OF assms(1)])
  have c: "\<exists>cod' sf'. iteration_loop_quantize env gfc cod_info xr ratio xrpow l3_enc ch targ_bits
                              = Some (gfc, cod', sf', replicate 576 0)"
    if z: "fst (init_outer_loop env cod_info xr xrpow) = 0"
  proof -
    obtain i c s x where e: "init_outer_loop env cod_info xr xrpow = (i, c, s, x)"
      by (metis prod_cases4)
    then have "i = 0" using z by simp
    then show ?thesis using e assms(2) by (simp add: iteration_loop_quantize_def)
  qed
  show ?thesis using a b c by blast
qed

theorem init_outer_loop_analog_silence_witness:
  "length (replicate 576 (0::real)) = 576 \<and> length (replicate 576 (7::int)) = 576
   \<and> fst (init_outer_loop example_env gr_info_fresh (replicate 576 0)
            (replicate 576 5)) = 0
   \<and> (\<exists>cod' sf'. iteration_loop_quantize example_env quant_state_init
                     gr_info_fresh (replicate 576 0) example_ratio (replicate 576 5) (replicate 576 7)
                     0 400
                   = Some (quant_state_init, cod', sf', replicate 576 0))"
proof -
  have h1: "length (replicate 576 (0::real)) = 576" and h2: "length (replicate 576 (7::int)) = 576"
    by simp_all
  have z: "fst (init_outer_loop example_env gr_info_fresh (replicate 576 0)
            (replicate 576 5)) = 0"
    by (simp add: init_outer_loop_def Let_def)
  show ?thesis
    using h1 h2 z init_outer_loop_analog_silence[OF h1 h2, of example_env
        gr_info_fresh "replicate 576 5" quant_state_init example_ratio 0 400]
    by blast
qed

section \<open>The subblock gain can reach 8\<close>

lemma upt_0_6: "[0..<6] = [0, 1, 2, 3, 4, 5]" by (simp add: upt_rec)
lemma upt_6_12: "[6..<12] = [6, 7, 8, 9, 10, 11]" by (simp add: upt_rec)
lemma upt_0_13: "[0..<13] = [0, 1, 2, 3, 4, 5, 6, 7, 8, 9, 10, 11, 12]" by (simp add: upt_rec)

text \<open>
  Claim C6 (the code breaks it). \<^verbatim>\<open>inc_subblock_gain\<close> gives up only when a gain is above 7.
  With \<^verbatim>\<open>subblock_gain[0] = 7\<close>, \<^verbatim>\<open>scalefac_scale = 1\<close> and a scalefactor of 16 in window 0 it
  raises the gain of window 0 to 8 and reports success.
\<close>

theorem inc_subblock_gain_exceeds_7:
  "subblock_gain (fst (snd (inc_subblock_gain env
       (cod_info\<lparr>sfb_smin := 0, scalefac_scale := 1, subblock_gain := [7, 0, 0]\<rparr>)
       \<lparr>scalefac_l = replicate SBMAX_l 0, scalefac_s = [16, 0, 0] # replicate 12 [0, 0, 0]\<rparr>
       xrpow))) = [8, 0, 0]
   \<and> fst (inc_subblock_gain env
       (cod_info\<lparr>sfb_smin := 0, scalefac_scale := 1, subblock_gain := [7, 0, 0]\<rparr>)
       \<lparr>scalefac_l = replicate SBMAX_l 0, scalefac_s = [16, 0, 0] # replicate 12 [0, 0, 0]\<rparr>
       xrpow) = 0"
  by (simp add: inc_subblock_gain_def inc_subblock_gain_window_def upt_0_6 upt_6_12 upt_0_13
      SBPSY_s_def SBMAX_s_def Let_def set_s_def scale_xrpow_def numeral_eq_Suc)

section \<open>Initial values of the psychoacoustic state\<close>

text \<open>
  Claim C8, as the code has it. On its first call \<^verbatim>\<open>psymodel_init\<close> stores 1e20 in \<^verbatim>\<open>nb_l1\<close> and
  \<^verbatim>\<open>nb_l2\<close> for each of the four channels and every partition band, and in every entry of the
  saved \<^verbatim>\<open>en\<close> and \<^verbatim>\<open>thm\<close> tables (long bands, and short bands in the three windows); the
  short-block memories \<^verbatim>\<open>nb_s1\<close> and \<^verbatim>\<open>nb_s2\<close> get the value 1.0.
\<close>

theorem psymodel_init_sentinels:
  assumes "i < 4" "b < CBANDS" "sb_l < SBMAX_l" "sb_s < SBMAX_s" "w < 3"
  shows "nb_l1 (psymodel_init False psv) ! i ! b = 10 ^ 20
       \<and> nb_l2 (psymodel_init False psv) ! i ! b = 10 ^ 20
       \<and> nb_s1 (psymodel_init False psv) ! i ! b = 1
       \<and> nb_s2 (psymodel_init False psv) ! i ! b = 1
       \<and> xmin_l (psv_en (psymodel_init False psv) ! i) ! sb_l = 10 ^ 20
       \<and> xmin_l (psv_thm (psymodel_init False psv) ! i) ! sb_l = 10 ^ 20
       \<and> xmin_s (psv_en (psymodel_init False psv) ! i) ! sb_s ! w = 10 ^ 20
       \<and> xmin_s (psv_thm (psymodel_init False psv) ! i) ! sb_s ! w = 10 ^ 20"
  using assms by (simp add: psymodel_init_def)

theorem psymodel_init_sentinels_witness:
  "(0::nat) < 4 \<and> (0::nat) < CBANDS \<and> (0::nat) < SBMAX_l \<and> (0::nat) < SBMAX_s \<and> (0::nat) < 3
   \<and> nb_l1 (psymodel_init False psv_calloc) ! 0 ! 0 = 10 ^ 20
   \<and> nb_s1 (psymodel_init False psv_calloc) ! 0 ! 0 = 1
   \<and> xmin_s (psv_thm (psymodel_init False psv_calloc) ! 0) ! 0 ! 0 = 10 ^ 20"
proof -
  have h: "(0::nat) < 4" "(0::nat) < CBANDS" "(0::nat) < SBMAX_l" "(0::nat) < SBMAX_s" "(0::nat) < 3"
    by (simp_all add: CBANDS_def SBMAX_l_def SBMAX_s_def)
  show ?thesis
    using h psymodel_init_sentinels[OF h, of psv_calloc] by simp
qed

text \<open>
  Claim C8 as stated fails: after \<^verbatim>\<open>psymodel_init\<close> on a fresh state the short-block memories
  do not hold 1e20.
\<close>

theorem psymodel_init_short_memory_not_sentinel:
  "nb_s1 (psymodel_init False psv_calloc) ! 0 ! 0 \<noteq> 10 ^ 20
   \<and> nb_s2 (psymodel_init False psv_calloc) ! 0 ! 0 \<noteq> 10 ^ 20"
  by (simp add: psymodel_init_def CBANDS_def)

section \<open>Return codes of the encode calls and of close\<close>

lemma typed_entry_points:
  "lame_encode_buffer = encode_buffer_typed (\<lambda>x. x)"
  "lame_encode_buffer_float = encode_buffer_typed (\<lambda>x. x)"
  "lame_encode_buffer_long = encode_buffer_typed (\<lambda>x. x)"
  "lame_encode_buffer_int k = encode_buffer_typed (\<lambda>x. x * (1 / 2 ^ (8 * k - 16)))"
  "lame_encode_buffer_long2 k = encode_buffer_typed (\<lambda>x. x * (1 / 2 ^ (8 * k - 16)))"
  by (simp_all add: lame_encode_buffer_def lame_encode_buffer_float_def lame_encode_buffer_long_def
      lame_encode_buffer_int_def lame_encode_buffer_long2_def)

text \<open>
  On a session whose internal state exists the return codes are: -3 from every encode call and
  from \<^verbatim>\<open>lame_close\<close> with a class id other than \<^verbatim>\<open>LAME_ID\<close>, nothing changed; 0 from every
  encode call with the right class id and \<^verbatim>\<open>nsamples = 0\<close>, session and \<^verbatim>\<open>mp3buf\<close> unchanged; -2
  from the typed entry points with the right class id, \<^verbatim>\<open>nsamples\<close> not 0 and a failed
  allocation, and from \<^verbatim>\<open>lame_encode_buffer_interleaved\<close>, which allocates first, on a failed
  allocation; 0 from \<^verbatim>\<open>lame_close\<close> with the right class id.
\<close>

lemma live_session_return_codes:
  assumes "internal_flags gf = Some gfc"
  shows "(Class_ID gfc \<noteq> LAME_ID \<longrightarrow>
            encode_buffer_typed conv engine alloc_ok (Some gf) buffer_l buffer_r nsamples mp3buf mp3buf_size
              = Returns (- 3, Some gf, mp3buf)
          \<and> lame_encode_buffer_sample_t engine (Some gf) buffer_l buffer_r nsamples mp3buf mp3buf_size
              = Returns (- 3, Some gf, mp3buf)
          \<and> lame_encode_buffer_interleaved engine True (Some gf) buffer nsamples mp3buf mp3buf_size
              = Returns (- 3, Some gf, mp3buf)
          \<and> lame_close (Some gf) = Returns (- 3, Some gf))
       \<and> (Class_ID gfc = LAME_ID \<and> nsamples = 0 \<longrightarrow>
            encode_buffer_typed conv engine alloc_ok (Some gf) buffer_l buffer_r nsamples mp3buf mp3buf_size
              = Returns (0, Some gf, mp3buf)
          \<and> lame_encode_buffer_sample_t engine (Some gf) buffer_l buffer_r nsamples mp3buf mp3buf_size
              = Returns (0, Some gf, mp3buf)
          \<and> lame_encode_buffer_interleaved engine True (Some gf) buffer nsamples mp3buf mp3buf_size
              = Returns (0, Some gf, mp3buf))
       \<and> (Class_ID gfc = LAME_ID \<and> nsamples \<noteq> 0 \<longrightarrow>
            encode_buffer_typed conv engine False (Some gf) buffer_l buffer_r nsamples mp3buf mp3buf_size
              = Returns (- 2, Some gf, mp3buf))
       \<and> lame_encode_buffer_interleaved engine False (Some gf) buffer nsamples mp3buf mp3buf_size
              = Returns (- 2, Some gf, mp3buf)
       \<and> (Class_ID gfc = LAME_ID \<longrightarrow> (\<exists>h'. lame_close (Some gf) = Returns (0, h')))"
  using assms
  by (auto simp: encode_buffer_typed_def lame_encode_buffer_sample_t_def
      lame_encode_buffer_interleaved_def lame_close_def Let_def)

text \<open>
  Claim C9 (the code breaks it). \<^verbatim>\<open>lame_close\<close> stores 0 in \<^verbatim>\<open>gfc->Class_ID\<close>, which would make
  every later call return -3, but then frees \<^verbatim>\<open>gfc\<close> and stores \<^verbatim>\<open>NULL\<close> in
  \<^verbatim>\<open>gfp->internal_flags\<close> (and frees \<^verbatim>\<open>gfp\<close> itself when the library allocated it). Every entry
  point starts with \<^verbatim>\<open>gfc = gfp->internal_flags\<close> and reads \<^verbatim>\<open>gfc->Class_ID\<close> without a test
  for \<^verbatim>\<open>NULL\<close>: after a close that returned 0, a second close or an encode call on the handle
  does not return -3, it reads through the \<^verbatim>\<open>NULL\<close> or freed pointer.
\<close>

theorem call_after_close_faults:
  "lame_close (Some session_valid) = Returns (0, None)
   \<and> lame_close (handle_after (lame_close (Some session_valid))) = Fault
   \<and> lame_encode_buffer idle_engine True (handle_after (lame_close (Some session_valid)))
        [1, 2] [3, 4] 2 [] 0 = Fault
   \<and> lame_close (Some session_static) = Returns (0, Some (session_static\<lparr>internal_flags := None\<rparr>))
   \<and> lame_close (handle_after (lame_close (Some session_static))) = Fault
   \<and> lame_encode_buffer idle_engine True (handle_after (lame_close (Some session_static)))
        [1, 2] [3, 4] 2 [] 0 = Fault"
  by (simp add: lame_close_def lame_encode_buffer_def encode_buffer_typed_def session_valid_def
      session_static_def Let_def)

section \<open>Attack detection\<close>

text \<open>Invariants of loops that are written as folds.\<close>

lemma fold_invariant:
  assumes "P a" and "\<And>i a. i \<in> set xs \<Longrightarrow> P a \<Longrightarrow> P (f i a)"
  shows "P (fold f xs a)"
  using assms by (induction xs arbitrary: a) auto

lemma for_loop_upt_invariant:
  assumes "P lo v" and "lo \<le> hi"
    and "\<And>i v. lo \<le> i \<Longrightarrow> i < hi \<Longrightarrow> P i v \<Longrightarrow> \<exists>v'. body i v = Some v' \<and> P (Suc i) v'"
  shows "\<exists>v'. for_loop body [lo..<hi] v = Some v' \<and> P hi v'"
  using assms
proof (induction "hi - lo" arbitrary: lo v)
  case 0
  then show ?case by simp
next
  case (Suc n)
  then have lt: "lo < hi" by simp
  obtain v1 where v1: "body lo v = Some v1" "P (Suc lo) v1"
    using Suc.prems(3)[of lo v] Suc.prems(1) lt by auto
  have "\<exists>v'. for_loop body [Suc lo..<hi] v1 = Some v' \<and> P hi v'"
  proof (rule Suc.hyps(1))
    show "n = hi - Suc lo" using Suc.hyps(2) by simp
    show "P (Suc lo) v1" by (rule v1(2))
    show "Suc lo \<le> hi" using lt by simp
    show "\<exists>v'. body i v = Some v' \<and> P (Suc i) v'" if "Suc lo \<le> i" "i < hi" "P i v" for i v
      using Suc.prems(3)[of i v] that by simp
  qed
  then show ?case using v1(1) lt by (simp add: upt_conv_Cons)
qed

lemma length_4_list:
  assumes "length (a::'a list) = 4"
  obtains a0 a1 a2 a3 where "a = [a0, a1, a2, a3]"
proof -
  from assms obtain a0 r0 where "a = a0 # r0" "length r0 = 3" by (cases a) auto
  moreover then obtain a1 r1 where "r0 = a1 # r1" "length r1 = 2" by (cases r0) auto
  moreover then obtain a2 r2 where "r1 = a2 # r2" "length r2 = 1" by (cases r1) auto
  moreover then obtain a3 where "r2 = [a3]" by (cases r2) auto
  ultimately show ?thesis using that by simp
qed

lemma sub_short_peak_ge_1: "1 \<le> sub_short_peak pf i"
  unfolding sub_short_peak_def
  by (rule fold_invariant[where P = "\<lambda>p. 1 \<le> p"]) auto

text \<open>The energies exist and are positive when the stored energies are.\<close>

lemma attack_energies_head_inv:
  assumes "\<forall>j<9. 0 < last_en ! j"
  shows "\<exists>v. attack_energies_head last_en = Some v \<and> energies_inv 0 v"
proof -
  have p: "0 < last_en ! 4" "0 < last_en ! 5" "0 < last_en ! 6" "0 < last_en ! 7" "0 < last_en ! 8"
    using assms by simp_all
  have u3: "[0..<3] = [0, 1, 2]" by (simp add: upt_rec)
  have "attack_energies_head last_en
          = Some \<lparr>en_subshort = map (\<lambda>i. last_en ! (i + 6)) [0..<3] @ replicate 9 0,
                 attack_intensity = map (\<lambda>i. last_en ! (i + 6) / last_en ! (i + 4)) [0..<3]
                                      @ replicate 9 0,
                 en_short = [last_en ! 6 + last_en ! 7 + last_en ! 8, 0, 0, 0],
                 new_en_subshort = last_en\<rparr>"
    using p by (simp add: attack_energies_head_def u3)
  moreover have "energies_inv 0 \<lparr>en_subshort = map (\<lambda>i. last_en ! (i + 6)) [0..<3] @ replicate 9 0,
                 attack_intensity = map (\<lambda>i. last_en ! (i + 6) / last_en ! (i + 4)) [0..<3]
                                      @ replicate 9 0,
                 en_short = [last_en ! 6 + last_en ! 7 + last_en ! 8, 0, 0, 0],
                 new_en_subshort = last_en\<rparr>"
    using p by (auto simp: energies_inv_def u3 less_Suc_eq numeral_3_eq_3 nth_Cons' numeral_eq_Suc)
  ultimately show ?thesis by blast
qed

lemma attack_intensity_of_some:
  assumes "0 < q" "1 \<le> p"
  shows "\<exists>a. attack_intensity_of p q = Some a"
proof -
  have "0 < p" using assms(2) by simp
  then show ?thesis using assms(1) by (simp add: attack_intensity_of_def)
qed

lemma attack_energies_step_inv:
  assumes "i < 9" "energies_inv i v"
  shows "\<exists>v'. attack_energies_step pf i v = Some v' \<and> energies_inv (Suc i) v'"
proof -
  let ?p = "sub_short_peak pf i"
  have p1: "1 \<le> ?p" by (simp add: sub_short_peak_ge_1)
  let ?es = "(en_subshort v)[i + 3 := ?p]"
  let ?k = "1 + i div 3"
  let ?esh = "(en_short v)[?k := en_short v ! ?k + ?p]"
  have len: "length (en_subshort v) = 12" "length (en_short v) = 4" "length (attack_intensity v) = 12"
    using assms(2) by (simp_all add: energies_inv_def)
  have k4: "1 \<le> ?k" "?k < 4" using assms(1) by simp_all
  have esp: "\<forall>j < Suc i + 3. 0 < ?es ! j"
  proof (intro allI impI)
    fix j :: nat assume "j < Suc i + 3"
    then consider "j < i + 3" | "j = i + 3" by linarith
    then show "0 < ?es ! j"
    proof cases
      case 1
      then show ?thesis using assms len by (simp add: energies_inv_def)
    next
      case 2
      then show ?thesis using assms(1) len p1 by simp
    qed
  qed
  have "i + 3 - 2 < Suc i + 3" by simp
  then have qpos: "0 < ?es ! (i + 3 - 2)" using esp by blast
  have eshp: "(\<forall>k'<4. 0 \<le> ?esh ! k') \<and> 0 < ?esh ! 0
     \<and> (\<forall>k'. 1 \<le> k' \<and> k' < 4 \<and> 3 * (k' - 1) < Suc i \<longrightarrow> 0 < ?esh ! k')"
  proof (intro conjI allI impI)
    fix k' :: nat assume "k' < 4"
    then show "0 \<le> ?esh ! k'"
      using assms(2) len p1 k4 by (cases "k' = ?k") (auto simp: energies_inv_def)
  next
    show "0 < ?esh ! 0" using assms(2) k4 by (simp add: energies_inv_def)
  next
    fix k' :: nat assume a: "1 \<le> k' \<and> k' < 4 \<and> 3 * (k' - 1) < Suc i"
    show "0 < ?esh ! k'"
    proof (cases "k' = ?k")
      case True
      have "0 \<le> en_short v ! ?k" using assms(2) k4 by (simp add: energies_inv_def)
      then show ?thesis using True len k4 p1 by simp
    next
      case False
      have "3 * (k' - 1) < i"
      proof (rule ccontr)
        assume "\<not> 3 * (k' - 1) < i"
        then have "3 * (k' - 1) = i" using a by simp
        then have "i div 3 = k' - 1" by auto
        then have "k' = ?k" using a by simp
        then show False using False by simp
      qed
      then have "0 < en_short v ! k'" using assms(2) a by (simp add: energies_inv_def)
      then show ?thesis using False by simp
    qed
  qed
  obtain a where a: "attack_intensity_of ?p (?es ! (i + 3 - 2)) = Some a"
    using attack_intensity_of_some[OF qpos p1] by blast
  have "energies_inv (Suc i)
          (v\<lparr>new_en_subshort := (new_en_subshort v)[i := ?p], en_subshort := ?es,
             en_short := ?esh, attack_intensity := (attack_intensity v)[i + 3 := a]\<rparr>)"
    using esp eshp len by (simp add: energies_inv_def)
  then show ?thesis unfolding attack_energies_step_def a by simp
qed

lemma attack_energies_total:
  assumes "\<forall>j<9. 0 < last_en ! j"
  shows "\<exists>v. attack_energies last_en pf = Some v \<and> length (en_short v) = 4
            \<and> (\<forall>k<4. 0 < en_short v ! k)"
proof -
  obtain v0 where v0: "attack_energies_head last_en = Some v0" "energies_inv 0 v0"
    using attack_energies_head_inv[OF assms] by blast
  have "\<exists>v'. for_loop (attack_energies_step pf) [0..<9] v0 = Some v' \<and> energies_inv 9 v'"
    by (rule for_loop_upt_invariant[where P = energies_inv])
       (use v0 attack_energies_step_inv in auto)
  then obtain v where v: "for_loop (attack_energies_step pf) [0..<9] v0 = Some v" "energies_inv 9 v"
    by blast
  have "\<forall>k<4. 0 < en_short v ! k"
  proof (intro allI impI)
    fix k :: nat assume "k < 4"
    then show "0 < en_short v ! k" using v(2) by (cases "k = 0") (auto simp: energies_inv_def)
  qed
  then show ?thesis using v v0 by (simp add: attack_energies_def energies_inv_def)
qed

text \<open>
  A mark is set only at a position with an intensity above the threshold; each of the later
  steps only clears marks.
\<close>

lemma intensity_exceeds_iff:
  "intensity_exceeds x I k \<longleftrightarrow> (\<exists>i. 3 * k \<le> i \<and> i < 3 * k + 3 \<and> I ! i > x)"
  by (auto simp: intensity_exceeds_def list_ex_iff)

lemma attack_marks_props:
  "length (attack_marks x I [0, 0, 0, 0]) = 4
   \<and> (\<forall>k<4. attack_marks x I [0, 0, 0, 0] ! k \<noteq> 0 \<longrightarrow> intensity_exceeds x I k)"
  unfolding attack_marks_def
proof (rule fold_invariant[where P = "\<lambda>a. length a = 4 \<and> (\<forall>k<4. a ! k \<noteq> 0 \<longrightarrow> intensity_exceeds x I k)"])
  show "length [0, 0, 0, 0::int] = 4 \<and> (\<forall>k<4. [0, 0, 0, 0::int] ! k \<noteq> 0 \<longrightarrow> intensity_exceeds x I k)"
    by (auto simp: nth_Cons' )
next
  fix i :: nat and a :: "int list"
  assume i: "i \<in> set [0..<12]"
    and inv: "length a = 4 \<and> (\<forall>k<4. a ! k \<noteq> 0 \<longrightarrow> intensity_exceeds x I k)"
  have ex: "intensity_exceeds x I (i div 3)" if "I ! i > x"
    unfolding intensity_exceeds_iff using that by (intro exI[of _ i]) auto
  show "length (if a ! (i div 3) = 0 \<and> x < I ! i then a[i div 3 := int (i mod 3) + 1] else a) = 4 \<and>
         (\<forall>k<4. (if a ! (i div 3) = 0 \<and> x < I ! i then a[i div 3 := int (i mod 3) + 1] else a) ! k \<noteq> 0 \<longrightarrow>
                intensity_exceeds x I k)"
  proof (cases "a ! (i div 3) = 0 \<and> x < I ! i")
    case False
    then show ?thesis using inv by auto
  next
    case True
    have "intensity_exceeds x I k" if "k < 4" "a[i div 3 := int (i mod 3) + 1] ! k \<noteq> 0" for k
    proof (cases "k = i div 3")
      case True
      then show ?thesis using ex \<open>a ! (i div 3) = 0 \<and> x < I ! i\<close> by simp
    next
      case False
      then have "a[i div 3 := int (i mod 3) + 1] ! k = a ! k" by simp
      then show ?thesis using inv that by simp
    qed
    then show ?thesis using True inv by simp
  qed
qed

lemma ns_periodic_step_eq:
  assumes "0 < esh ! (i - 1)" "0 < esh ! i"
  shows "ns_periodic_step esh i a
           = Some (if ratio_differs esh i then a
                   else (let a1 = a[i := 0] in if i = 1 then a1[0 := 0] else a1))"
proof (cases "esh ! (i - 1) > esh ! i")
  case True
  have "(esh ! (i - 1) / esh ! i < 1.7) \<longleftrightarrow> \<not> ratio_differs esh i"
    using True assms by (auto simp: ratio_differs_def pos_divide_less_eq mult.commute)
  then show ?thesis using True assms by (simp add: ns_periodic_step_def)
next
  case False
  have "(esh ! i / esh ! (i - 1) < 1.7) \<longleftrightarrow> \<not> ratio_differs esh i"
    using False assms by (auto simp: ratio_differs_def pos_divide_less_eq mult.commute)
  then show ?thesis using False assms by (simp add: ns_periodic_step_def)
qed

lemma vbr_periodic_step_eq:
  "vbr_periodic_step esh i a
     = (if non_periodic esh i then a
        else (let a1 = (if i = 1 \<and> a ! 0 \<le> a ! i then a[0 := 0] else a) in a1[i := 0]))"
  by (auto simp: vbr_periodic_step_def non_periodic_def Let_def)

lemma upt_1_4: "[Suc 0..<4] = [Suc 0, 2, 3]" by (simp add: upt_rec)

lemma ns_periodic_loop:
  assumes "\<forall>k<4. 0 < esh ! k"
  shows "\<exists>a'. for_loop (ns_periodic_step esh) [1..<4] [m0, m1, m2, m3] = Some a' \<and> length a' = 4
           \<and> (\<forall>k<4. a' ! k = [m0, m1, m2, m3] ! k \<or> a' ! k = 0)
           \<and> (\<forall>k<4. a' ! k \<noteq> 0 \<longrightarrow> ratio_differs esh (max k 1))"
proof -
  have p: "0 < esh ! 0" "0 < esh ! 1" "0 < esh ! 2" "0 < esh ! 3" using assms by simp_all
  have s1: "ns_periodic_step esh (Suc 0) a = Some (if ratio_differs esh (Suc 0) then a else a[Suc 0 := 0, 0 := 0])" for a
    using ns_periodic_step_eq[of esh 1 a] p by (simp add: Let_def)
  have s2: "ns_periodic_step esh 2 a = Some (if ratio_differs esh 2 then a else a[2 := 0])" for a
    using ns_periodic_step_eq[of esh 2 a] p by (simp add: Let_def)
  have s3: "ns_periodic_step esh 3 a = Some (if ratio_differs esh 3 then a else a[3 := 0])" for a
    using ns_periodic_step_eq[of esh 3 a] p by (simp add: Let_def)
  have all4: "(\<forall>k<4. Q k) \<longleftrightarrow> Q 0 \<and> Q 1 \<and> Q 2 \<and> Q (3::nat)" for Q
    by (auto simp: less_Suc_eq numeral_eq_Suc)
  have two: "Suc (Suc 0) = 2" by simp
  show ?thesis
    by (cases "ratio_differs esh (Suc 0)"; cases "ratio_differs esh 2"; cases "ratio_differs esh 3")
       (simp_all add: upt_1_4 s1 s2 s3 all4 two)
qed

lemma vbr_periodic_loop:
  "length (fold (vbr_periodic_step esh) [1..<4] [m0, m1, m2, m3]) = 4
   \<and> (\<forall>k<4. fold (vbr_periodic_step esh) [1..<4] [m0, m1, m2, m3] ! k = [m0, m1, m2, m3] ! k
             \<or> fold (vbr_periodic_step esh) [1..<4] [m0, m1, m2, m3] ! k = 0)
   \<and> (\<forall>k<4. fold (vbr_periodic_step esh) [1..<4] [m0, m1, m2, m3] ! k \<noteq> 0 \<longrightarrow>
          (if k = 0 then non_periodic esh 1 \<or> m0 > m1 else non_periodic esh k))"
proof -
  have all4: "(\<forall>k<4. Q k) \<longleftrightarrow> Q 0 \<and> Q 1 \<and> Q 2 \<and> Q (3::nat)" for Q
    by (auto simp: less_Suc_eq numeral_eq_Suc)
  show ?thesis
    by (cases "non_periodic esh (Suc 0)"; cases "non_periodic esh 2"; cases "non_periodic esh 3";
        cases "m0 \<le> m1")
       (simp_all add: upt_1_4 vbr_periodic_step_eq all4 Let_def)
qed

lemma attack_decide_clears:
  "length (fst (attack_decide la [b0, b1, b2, b3])) = 4
   \<and> (\<forall>k<4. fst (attack_decide la [b0, b1, b2, b3]) ! k = [b0, b1, b2, b3] ! k
             \<or> fst (attack_decide la [b0, b1, b2, b3]) ! k = 0)"
proof -
  have all4: "(\<forall>k<4. Q k) \<longleftrightarrow> Q 0 \<and> Q 1 \<and> Q 2 \<and> Q (3::nat)" for Q
    by (auto simp: less_Suc_eq numeral_eq_Suc)
  show ?thesis
    by (cases "b0 = 0"; cases "b1 = 0"; cases "b2 = 0"; cases "b3 = 0") 
       (simp_all add: attack_decide_def all4 Let_def)
qed

lemma marks_cleared_refl: "length a = 4 \<Longrightarrow> marks_cleared a a"
  by (simp add: marks_cleared_def)

lemma marks_cleared_trans: "marks_cleared a b \<Longrightarrow> marks_cleared b c \<Longrightarrow> marks_cleared a c"
  unfolding marks_cleared_def by metis

lemma marks_cleared_nonzero: "marks_cleared a b \<Longrightarrow> k < 4 \<Longrightarrow> a ! k \<noteq> 0 \<Longrightarrow> b ! k = a ! k"
  unfolding marks_cleared_def by metis

lemma marks_cleared_update: "length a = 4 \<Longrightarrow> marks_cleared (a[i := 0]) a"
  by (cases "i < length a") (auto simp: marks_cleared_def nth_list_update)

lemma attack_decide_cleared:
  assumes "length a = 4"
  shows "marks_cleared (fst (attack_decide la a)) a"
proof -
  obtain b0 b1 b2 b3 where a: "a = [b0, b1, b2, b3]" using length_4_list[OF assms] by blast
  show ?thesis unfolding a marks_cleared_def using attack_decide_clears[of la b0 b1 b2 b3] by simp
qed

lemma ns_periodic_loop_cleared:
  assumes "\<forall>k<4. 0 < esh ! k" "length M = 4"
  shows "\<exists>a'. for_loop (ns_periodic_step esh) [1..<4] M = Some a' \<and> marks_cleared a' M
           \<and> (\<forall>k<4. a' ! k \<noteq> 0 \<longrightarrow> ratio_differs esh (max k 1))"
proof -
  obtain m0 m1 m2 m3 where M: "M = [m0, m1, m2, m3]" using length_4_list[OF assms(2)] by blast
  show ?thesis unfolding M marks_cleared_def
    using ns_periodic_loop[OF assms(1), of m0 m1 m2 m3] by auto
qed

lemma vbr_periodic_loop_cleared:
  assumes "length M = 4"
  shows "marks_cleared (fold (vbr_periodic_step esh) [1..<4] M) M
           \<and> (\<forall>k<4. fold (vbr_periodic_step esh) [1..<4] M ! k \<noteq> 0 \<longrightarrow>
                  (if k = 0 then non_periodic esh 1 \<or> M ! 0 > M ! 1 else non_periodic esh k))"
proof -
  obtain m0 m1 m2 m3 where M: "M = [m0, m1, m2, m3]" using length_4_list[OF assms] by blast
  have all4: "(\<forall>k<4. Q k) \<longleftrightarrow> Q 0 \<and> Q 1 \<and> Q 2 \<and> Q (3::nat)" for Q
    by (auto simp: less_Suc_eq numeral_eq_Suc)
  show ?thesis unfolding M marks_cleared_def
    using vbr_periodic_loop[of esh m0 m1 m2 m3] by (simp add: all4)
qed

text \<open>The two examples, step by step.\<close>

lemma fold_peak_const:
  assumes "xs \<noteq> []" "\<forall>k\<in>set xs. \<bar>(pf :: real list) ! k\<bar> = c"
  shows "fold (\<lambda>k p. if p < \<bar>pf ! k\<bar> then \<bar>pf ! k\<bar> else p) xs p0 = max p0 c"
  using assms
proof (induction xs arbitrary: p0)
  case Nil
  then show ?case by simp
next
  case (Cons y ys)
  show ?case
  proof (cases "ys = []")
    case True
    then show ?thesis using Cons.prems by (auto simp: max_def)
  next
    case False
    then have "fold (\<lambda>k p. if p < \<bar>pf ! k\<bar> then \<bar>pf ! k\<bar> else p) ys (max p0 c) = max (max p0 c) c"
      using Cons by simp
    then show ?thesis using Cons.prems by (auto simp: max_def)
  qed
qed

lemma sub_short_peak_block_signal:
  assumes "i < 9" "1 \<le> peaks ! i"
  shows "sub_short_peak (block_signal peaks) i = peaks ! i"
proof -
  have "\<bar>block_signal peaks ! k\<bar> = peaks ! i" if "k \<in> set [64 * i..<64 * i + 64]" for k
  proof -
    have k: "64 * i \<le> k" "k < 64 * i + 64" using that by simp_all
    then have "k < 576" using assms(1) by simp
    moreover have "k div 64 = i" using k by (simp add: div_nat_eqI mult.commute)
    ultimately show ?thesis using assms(2) by (simp add: block_signal_def)
  qed
  then have "sub_short_peak (block_signal peaks) i = max 1 (peaks ! i)"
    unfolding sub_short_peak_def by (intro fold_peak_const) auto
  then show ?thesis using assms(2) by simp
qed

lemma periodic_peaks_values:
  "sub_short_peak (block_signal periodic_peaks) 0 = 1"
  "sub_short_peak (block_signal periodic_peaks) (Suc 0) = 100"
  "sub_short_peak (block_signal periodic_peaks) 2 = 1"
  "sub_short_peak (block_signal periodic_peaks) 3 = 100"
  "sub_short_peak (block_signal periodic_peaks) 4 = 1"
  "sub_short_peak (block_signal periodic_peaks) 5 = 100"
  "sub_short_peak (block_signal periodic_peaks) 6 = 1"
  "sub_short_peak (block_signal periodic_peaks) 7 = 100"
  "sub_short_peak (block_signal periodic_peaks) 8 = 1"
  by (simp_all add: sub_short_peak_block_signal periodic_peaks_def)

lemma upt_0_9: "[0..<9] = [0, 1, 2, 3, 4, 5, 6, 7, 8]"
  by (simp add: upt_rec)

lemma upt_0_12: "[0..<12] = [0, 1, 2, 3, 4, 5, 6, 7, 8, 9, 10, 11]"
  by (simp add: upt_rec)

lemma upt_0_3: "[0..<3] = [0, 1, 2]"
  by (simp add: upt_rec)

lemma replicate_9: "replicate 9 x = [x, x, x, x, x, x, x, x, x]"
  by (simp add: numeral_eq_Suc)

lemma periodic_energies:
  "attack_energies periodic_last_en (block_signal periodic_peaks)
     = Some \<lparr>en_subshort = [1, 1, 100, 1, 100, 1, 100, 1, 100, 1, 100, 1],
             attack_intensity = [1, 1, 100, 0, 0, 0, 0, 0, 0, 0, 0, 0],
             en_short = [102, 102, 201, 102],
             new_en_subshort = periodic_peaks\<rparr>"
proof -
  have "attack_energies_head periodic_last_en
     = Some \<lparr>en_subshort = [1, 1, 100, 0, 0, 0, 0, 0, 0, 0, 0, 0],
             attack_intensity = [1, 1, 100, 0, 0, 0, 0, 0, 0, 0, 0, 0],
             en_short = [102, 0, 0, 0],
             new_en_subshort = periodic_last_en\<rparr>"
    by (simp add: attack_energies_head_def upt_0_3 periodic_last_en_def replicate_9)
  then have "attack_energies periodic_last_en (block_signal periodic_peaks)
     = Some \<lparr>en_subshort = [1, 1, 100, 1, 100, 1, 100, 1, 100, 1, 100, 1],
             attack_intensity = [1, 1, 100, 0, 0, 0, 0, 0, 0, 0, 0, 0],
             en_short = [102, 102, 201, 102],
             new_en_subshort = [1, 100, 1, 100, 1, 100, 1, 100, 1]\<rparr>"
    unfolding attack_energies_def upt_0_9
    by (simp add: attack_energies_step_def attack_intensity_of_def periodic_peaks_values
        periodic_last_en_def)
  then show ?thesis by (simp add: periodic_peaks_def)
qed

lemma periodic_marks:
  "attack_marks example_threshold [1, 1, 100, 0, 0, 0, 0, 0, 0, 0, 0, 0] [0, 0, 0, 0] = [3, 0, 0, 0]"
  unfolding attack_marks_def upt_0_12 by (simp add: example_threshold_def)

lemma periodic_vbr_loop:
  "fold (vbr_periodic_step [102, 102, 201, 102]) [1..<4] [3, 0, 0, 0] = [3, 0, 0, 0]"
  by (simp add: upt_1_4 vbr_periodic_step_def Let_def)

lemma periodic_ns_loop:
  "for_loop (ns_periodic_step [102, 102, 201, 102]) [1..<4] [3, 0, 0, 0] = Some [0, 0, 0, 0]"
  by (simp add: upt_1_4 ns_periodic_step_def Let_def)

lemma onset_peaks_values:
  "sub_short_peak (block_signal onset_peaks) 0 = 1"
  "sub_short_peak (block_signal onset_peaks) (Suc 0) = 1"
  "sub_short_peak (block_signal onset_peaks) 2 = 1"
  "sub_short_peak (block_signal onset_peaks) 3 = 1"
  "sub_short_peak (block_signal onset_peaks) 4 = 1"
  "sub_short_peak (block_signal onset_peaks) 5 = 1"
  "sub_short_peak (block_signal onset_peaks) 6 = 100"
  "sub_short_peak (block_signal onset_peaks) 7 = 100"
  "sub_short_peak (block_signal onset_peaks) 8 = 100"
  by (simp_all add: sub_short_peak_block_signal onset_peaks_def)

lemma onset_energies:
  "attack_energies quiet_last_en (block_signal onset_peaks)
     = Some \<lparr>en_subshort = [1, 1, 1, 1, 1, 1, 1, 1, 1, 100, 100, 100],
             attack_intensity = [1, 1, 1, 0, 0, 0, 0, 0, 0, 100, 100, 0],
             en_short = [3, 3, 3, 300],
             new_en_subshort = onset_peaks\<rparr>"
proof -
  have "attack_energies_head quiet_last_en
     = Some \<lparr>en_subshort = [1, 1, 1, 0, 0, 0, 0, 0, 0, 0, 0, 0],
             attack_intensity = [1, 1, 1, 0, 0, 0, 0, 0, 0, 0, 0, 0],
             en_short = [3, 0, 0, 0],
             new_en_subshort = quiet_last_en\<rparr>"
    by (simp add: attack_energies_head_def upt_0_3 quiet_last_en_def replicate_9)
  then have "attack_energies quiet_last_en (block_signal onset_peaks)
     = Some \<lparr>en_subshort = [1, 1, 1, 1, 1, 1, 1, 1, 1, 100, 100, 100],
             attack_intensity = [1, 1, 1, 0, 0, 0, 0, 0, 0, 100, 100, 0],
             en_short = [3, 3, 3, 300],
             new_en_subshort = [1, 1, 1, 1, 1, 1, 100, 100, 100]\<rparr>"
    unfolding attack_energies_def upt_0_9
    by (simp add: attack_energies_step_def attack_intensity_of_def onset_peaks_values
        quiet_last_en_def)
  then show ?thesis by (simp add: onset_peaks_def)
qed

lemma onset_marks:
  "attack_marks example_threshold [1, 1, 1, 0, 0, 0, 0, 0, 0, 100, 100, 0] [0, 0, 0, 0]
     = [0, 0, 0, 1]"
  unfolding attack_marks_def upt_0_12 by (simp add: example_threshold_def)

lemma onset_ns:
  "ns_attack_detection example_threshold 0 quiet_last_en (block_signal onset_peaks)
     = Some ([0, 0, 0, 1], 0, onset_peaks)"
proof -
  have "for_loop (ns_periodic_step [3, 3, 3, 300]) [Suc 0..<4] [0, 0, 0, 1] = Some [0, 0, 0, 1]"
    by (simp add: upt_1_4 ns_periodic_step_def Let_def)
  then show ?thesis
    by (simp add: ns_attack_detection_def onset_energies onset_marks attack_decide_def Let_def)
qed

lemma onset_vbr:
  "vbrpsy_attack_detection example_threshold 0 quiet_last_en (block_signal onset_peaks)
       [0, 0, 0, 0]
     = Some ([0, 0, 0, 1], 0, onset_peaks)"
proof -
  have "fold (vbr_periodic_step [3, 3, 3, 300]) [Suc 0..<4] [0, 0, 0, 1] = [0, 0, 0, 1]"
    by (simp add: upt_1_4 vbr_periodic_step_def Let_def)
  then show ?thesis
    by (simp add: vbrpsy_attack_detection_def onset_energies onset_marks attack_decide_def
        Let_def)
qed

text \<open>
  Claim C7, as the code has it. With positive stored energies both detections return. In
  \<^verbatim>\<open>L3psycho_anal_ns\<close> a mark that is left at position \<open>k\<close> had an attack intensity above the
  threshold in one of the three sub-short blocks of the position, and the energies of the short
  blocks \<open>max k 1 - 1\<close> and \<open>max k 1\<close> differ by a factor of 1.7 at least (the size of the
  energies plays no part). In \<^verbatim>\<open>vbrpsy_attack_detection\<close> a mark left at position 1, 2 or 3 had
  an intensity above the threshold, and the energies of the short blocks \<open>k - 1\<close> and \<open>k\<close>
  differ by a factor of 1.7 or the larger one is 40000 at least; a mark left at position 0 had
  an intensity above the threshold, and the same holds of the short blocks 0 and 1 unless the
  mark at position 0 was greater than the mark at position 1.
\<close>

theorem attack_marks_survive_only_if:
  assumes "\<forall>j<9. 0 < last_en ! j"
  shows "\<exists>v. attack_energies last_en pf = Some v
     \<and> (\<exists>a u. ns_attack_detection x last_att last_en pf = Some (a, u, new_en_subshort v)
          \<and> (\<forall>k<4. a ! k \<noteq> 0 \<longrightarrow>
                intensity_exceeds x (attack_intensity v) k \<and> ratio_differs (en_short v) (max k 1)))
     \<and> (\<exists>a u. vbrpsy_attack_detection x last_att last_en pf [0, 0, 0, 0]
                 = Some (a, u, new_en_subshort v)
          \<and> (\<forall>k<4. a ! k \<noteq> 0 \<longrightarrow>
                intensity_exceeds x (attack_intensity v) k
                \<and> (if k = 0
                   then non_periodic (en_short v) 1
                      \<or> attack_marks x (attack_intensity v) [0, 0, 0, 0] ! 0
                          > attack_marks x (attack_intensity v) [0, 0, 0, 0] ! 1
                   else non_periodic (en_short v) k)))"
proof -
  obtain v where v: "attack_energies last_en pf = Some v" "length (en_short v) = 4"
      "\<forall>k<4. 0 < en_short v ! k"
    using attack_energies_total[OF assms] by blast
  let ?M = "attack_marks x (attack_intensity v) [0, 0, 0, 0]"
  have M: "length ?M = 4" "\<forall>k<4. ?M ! k \<noteq> 0 \<longrightarrow> intensity_exceeds x (attack_intensity v) k"
    using attack_marks_props[of x "attack_intensity v"] by simp_all
  \<comment> \<open>the constant-bitrate analyzer\<close>
  obtain a' where a': "for_loop (ns_periodic_step (en_short v)) [1..<4] ?M = Some a'"
      "marks_cleared a' ?M" "\<forall>k<4. a' ! k \<noteq> 0 \<longrightarrow> ratio_differs (en_short v) (max k 1)"
    using ns_periodic_loop_cleared[OF v(3) M(1)] by blast
  let ?a1 = "if a' ! 0 \<noteq> 0 \<and> last_att \<noteq> 0 then a'[0 := 0] else a'"
  have la': "length a' = 4" using a'(2) by (simp add: marks_cleared_def)
  have c1: "marks_cleared ?a1 a'"
    using la' by (simp add: marks_cleared_update marks_cleared_refl)
  have l1: "length ?a1 = 4" using la' by simp
  let ?r = "fst (attack_decide last_att ?a1)"
  have "marks_cleared ?r ?a1" by (rule attack_decide_cleared[OF l1])
  then have cr: "marks_cleared ?r a'" using c1 by (rule marks_cleared_trans)
  have ns_eq: "ns_attack_detection x last_att last_en pf
                 = Some (?r, snd (attack_decide last_att ?a1), new_en_subshort v)"
  proof -
    have "for_loop (ns_periodic_step (en_short v)) [Suc 0..<4] ?M = Some a'"
      using a'(1) by simp
    then show ?thesis by (simp add: ns_attack_detection_def v(1) Let_def)
  qed
  have ns_prop: "\<forall>k<4. ?r ! k \<noteq> 0 \<longrightarrow>
       intensity_exceeds x (attack_intensity v) k \<and> ratio_differs (en_short v) (max k 1)"
  proof (intro allI impI)
    fix k :: nat assume k: "k < 4" and nz: "?r ! k \<noteq> 0"
    have e1: "a' ! k = ?r ! k" by (rule marks_cleared_nonzero[OF cr k nz])
    then have nz1: "a' ! k \<noteq> 0" using nz by simp
    have "?M ! k = a' ! k" by (rule marks_cleared_nonzero[OF a'(2) k nz1])
    then have "?M ! k \<noteq> 0" using nz1 by simp
    then show "intensity_exceeds x (attack_intensity v) k \<and> ratio_differs (en_short v) (max k 1)"
      using M(2) a'(3) k nz1 by blast
  qed
  \<comment> \<open>the variable-bitrate analyzer\<close>
  let ?b = "fold (vbr_periodic_step (en_short v)) [1..<4] ?M"
  have b: "marks_cleared ?b ?M"
      "\<forall>k<4. ?b ! k \<noteq> 0 \<longrightarrow>
          (if k = 0 then non_periodic (en_short v) 1 \<or> ?M ! 0 > ?M ! 1
           else non_periodic (en_short v) k)"
    using vbr_periodic_loop_cleared[OF M(1), of "en_short v"] by blast+
  have lb: "length ?b = 4" using b(1) by (simp add: marks_cleared_def)
  let ?b1 = "if ?b ! 0 \<le> last_att then ?b[0 := 0] else ?b"
  have d1: "marks_cleared ?b1 ?b"
    using lb by (simp add: marks_cleared_update marks_cleared_refl)
  have lb1: "length ?b1 = 4" using lb by simp
  let ?s = "fst (attack_decide last_att ?b1)"
  have "marks_cleared ?s ?b1" by (rule attack_decide_cleared[OF lb1])
  then have cs: "marks_cleared ?s ?b" using d1 by (rule marks_cleared_trans)
  have vbr_eq: "vbrpsy_attack_detection x last_att last_en pf [0, 0, 0, 0]
                 = Some (?s, snd (attack_decide last_att ?b1), new_en_subshort v)"
    by (simp add: vbrpsy_attack_detection_def v(1) Let_def)
  have vbr_prop: "\<forall>k<4. ?s ! k \<noteq> 0 \<longrightarrow>
       intensity_exceeds x (attack_intensity v) k
       \<and> (if k = 0 then non_periodic (en_short v) 1 \<or> ?M ! 0 > ?M ! 1
          else non_periodic (en_short v) k)"
  proof (intro allI impI)
    fix k :: nat assume k: "k < 4" and nz: "?s ! k \<noteq> 0"
    have e1: "?b ! k = ?s ! k" by (rule marks_cleared_nonzero[OF cs k nz])
    then have nz1: "?b ! k \<noteq> 0" using nz by simp
    have "?M ! k = ?b ! k" by (rule marks_cleared_nonzero[OF b(1) k nz1])
    then have "?M ! k \<noteq> 0" using nz1 by simp
    then show "intensity_exceeds x (attack_intensity v) k
       \<and> (if k = 0 then non_periodic (en_short v) 1 \<or> ?M ! 0 > ?M ! 1
          else non_periodic (en_short v) k)"
      using M(2) b(2) k nz1 by blast
  qed
  show ?thesis using v(1) ns_eq ns_prop vbr_eq vbr_prop by blast
qed

text \<open>An onset in the last short block: both detections leave the mark at position 3.\<close>

theorem attack_marks_survive_only_if_witness:
  "list_all (\<lambda>e. 0 < e) quiet_last_en
   \<and> ns_attack_detection example_threshold 0 quiet_last_en (block_signal onset_peaks)
       = Some ([0, 0, 0, 1], 0, onset_peaks)
   \<and> vbrpsy_attack_detection example_threshold 0 quiet_last_en (block_signal onset_peaks)
         [0, 0, 0, 0]
       = Some ([0, 0, 0, 1], 0, onset_peaks)
   \<and> intensity_exceeds example_threshold [1, 1, 1, 0, 0, 0, 0, 0, 0, 100, 100, 0] 3
   \<and> ratio_differs [3, 3, 3, 300] 3
   \<and> non_periodic [3, 3, 3, 300] 3"
proof -
  have h: "\<forall>j<9. 0 < quiet_last_en ! j"
    by (simp add: quiet_last_en_def less_Suc_eq numeral_eq_Suc nth_Cons')
  obtain v a u b w where
    v: "attack_energies quiet_last_en (block_signal onset_peaks) = Some v"
    and a: "ns_attack_detection example_threshold 0 quiet_last_en (block_signal onset_peaks)
              = Some (a, u, new_en_subshort v)"
       "\<forall>k<4. a ! k \<noteq> 0 \<longrightarrow> intensity_exceeds example_threshold (attack_intensity v) k
                  \<and> ratio_differs (en_short v) (max k 1)"
    and b: "vbrpsy_attack_detection example_threshold 0 quiet_last_en (block_signal onset_peaks)
              [0, 0, 0, 0] = Some (b, w, new_en_subshort v)"
       "\<forall>k<4. b ! k \<noteq> 0 \<longrightarrow> intensity_exceeds example_threshold (attack_intensity v) k
          \<and> (if k = 0
             then non_periodic (en_short v) 1
                \<or> attack_marks example_threshold (attack_intensity v) [0, 0, 0, 0] ! 0
                    > attack_marks example_threshold (attack_intensity v) [0, 0, 0, 0] ! 1
             else non_periodic (en_short v) k)"
    using attack_marks_survive_only_if[OF h, of "block_signal onset_peaks" example_threshold 0]
    by blast
  have ve: "attack_intensity v = [1, 1, 1, 0, 0, 0, 0, 0, 0, 100, 100, 0]"
      "en_short v = [3, 3, 3, 300]"
    using v onset_energies by auto
  have "a = [0, 0, 0, 1]" using a(1) onset_ns by simp
  then have "a ! 3 \<noteq> 0" by simp
  moreover have "(3::nat) < 4" by simp
  ultimately have "intensity_exceeds example_threshold (attack_intensity v) 3
      \<and> ratio_differs (en_short v) (max 3 1)"
    using a(2) by blast
  then have 1: "intensity_exceeds example_threshold (attack_intensity v) 3
      \<and> ratio_differs (en_short v) 3" by simp
  have "b = [0, 0, 0, 1]" using b(1) onset_vbr by simp
  then have "b ! 3 \<noteq> 0" by simp
  moreover have "(3::nat) < 4" by simp
  ultimately have "intensity_exceeds example_threshold (attack_intensity v) 3
          \<and> (if (3::nat) = 0
             then non_periodic (en_short v) 1
                \<or> attack_marks example_threshold (attack_intensity v) [0, 0, 0, 0] ! 0
                    > attack_marks example_threshold (attack_intensity v) [0, 0, 0, 0] ! 1
             else non_periodic (en_short v) 3)"
    using b(2) by blast
  then have 2: "non_periodic (en_short v) 3" by simp
  have "list_all (\<lambda>e. 0 < e) quiet_last_en" by (simp add: quiet_last_en_def)
  then show ?thesis using 1 2 onset_ns onset_vbr by (simp add: ve)
qed

text \<open>
  Claim C7 as stated fails in \<^verbatim>\<open>vbrpsy_attack_detection\<close>: here the energies of the short
  blocks 0 and 1 are equal and below 40000, and the mark at position 0 is left, since the mark
  at position 1 is not greater. \<^verbatim>\<open>L3psycho_anal_ns\<close> clears it on the same input.
\<close>

theorem vbr_keeps_mark_on_periodic_energies:
  "vbrpsy_attack_detection example_threshold 0 periodic_last_en (block_signal periodic_peaks) [0, 0, 0, 0]
     = Some ([3, 0, 0, 0], 0, periodic_peaks)
   \<and> attack_energies periodic_last_en (block_signal periodic_peaks)
       = Some \<lparr>en_subshort = [1, 1, 100, 1, 100, 1, 100, 1, 100, 1, 100, 1],
             attack_intensity = [1, 1, 100, 0, 0, 0, 0, 0, 0, 0, 0, 0],
             en_short = [102, 102, 201, 102],
             new_en_subshort = periodic_peaks\<rparr>
   \<and> \<not> non_periodic [102, 102, 201, 102] 1
   \<and> ns_attack_detection example_threshold 0 periodic_last_en (block_signal periodic_peaks)
       = Some ([0, 0, 0, 0], 1, periodic_peaks)"
proof -
  have l1: "fold (vbr_periodic_step [102, 102, 201, 102]) [Suc 0..<4] [3, 0, 0, 0] = [3, 0, 0, 0]"
    using periodic_vbr_loop by simp
  have l2: "for_loop (ns_periodic_step [102, 102, 201, 102]) [Suc 0..<4] [3, 0, 0, 0] = Some [0, 0, 0, 0]"
    using periodic_ns_loop by simp
  have "vbrpsy_attack_detection example_threshold 0 periodic_last_en (block_signal periodic_peaks) [0, 0, 0, 0]
     = Some ([3, 0, 0, 0], 0, periodic_peaks)"
    by (simp add: vbrpsy_attack_detection_def periodic_energies periodic_marks l1
        attack_decide_def Let_def)
  moreover have "ns_attack_detection example_threshold 0 periodic_last_en (block_signal periodic_peaks)
       = Some ([0, 0, 0, 0], 1, periodic_peaks)"
    by (simp add: ns_attack_detection_def periodic_energies periodic_marks l2
        attack_decide_def Let_def)
  moreover have "\<not> non_periodic [102, 102, 201, 102] 1"
    by (simp add: non_periodic_def)
  ultimately show ?thesis using periodic_energies by simp
qed
section \<open>Masking thresholds\<close>

text \<open>
  The energy of a partition is the sum of its lines and is at most the number of lines times
  the largest line; so the average is at most the maximum when \<^verbatim>\<open>rnumlines\<close> is the reciprocal
  of the number of lines.
\<close>

lemma fold_energy_props:
  "fold (\<lambda>el (ebb, m). (ebb + el, if m < el then el else m)) els (e0 :: real, m0 :: real) = (e, m)
   \<Longrightarrow> e = e0 + sum_list els \<and> m0 \<le> m \<and> (\<forall>el\<in>set els. el \<le> m)"
proof (induction els arbitrary: e0 m0)
  case Nil
  then show ?case by auto
next
  case (Cons a els)
  from Cons.prems have
    "fold (\<lambda>el (ebb, m). (ebb + el, if m < el then el else m)) els
       (e0 + a, if m0 < a then a else m0) = (e, m)"
    by simp
  from Cons.IH[OF this] show ?case by (auto split: if_splits)
qed

lemma sum_list_le_length_times:
  fixes els :: "real list"
  assumes "\<forall>el\<in>set els. el \<le> m"
  shows "sum_list els \<le> real (length els) * m"
  using assms by (induction els) (auto simp: algebra_simps)

lemma energy_of_lines_some:
  assumes "list_all (\<lambda>e. 0 \<le> e) els"
  shows "\<exists>ebb m. energy_of_lines els = Some (ebb, m) \<and> 0 \<le> ebb \<and> 0 \<le> m
           \<and> ebb \<le> real (length els) * m"
proof -
  obtain e m where em: "fold (\<lambda>el (ebb, m). (ebb + el, if m < el then el else m)) els (0, 0) = (e, m)"
    by (cases "fold (\<lambda>el (ebb, m). (ebb + el, if m < el then el else m)) els (0::real, 0::real)") auto
  from fold_energy_props[OF em] have p: "e = sum_list els" "0 \<le> m" "\<forall>el\<in>set els. el \<le> m"
    by simp_all
  have "0 \<le> sum_list els" using assms by (simp add: list_all_iff sum_list_nonneg)
  moreover have "sum_list els \<le> real (length els) * m" by (rule sum_list_le_length_times[OF p(3)])
  moreover have "\<not> list_ex (\<lambda>el. \<not> 0 \<le> el) els" using assms by (simp add: list_all_iff list_ex_iff)
  ultimately show ?thesis using em p by (simp add: energy_of_lines_def)
qed

lemma calc_energy_loop_some:
  assumes "list_all (\<lambda>e. 0 \<le> e) fft"
    and "\<forall>b\<in>set bs. b < length (numlines l) \<and> b < length (rnumlines l)
            \<and> 0 < numlines l ! b \<and> 0 \<le> rnumlines l ! b
            \<and> rnumlines l ! b * real_of_int (numlines l ! b) \<le> 1"
    and "j + sum_list (map (\<lambda>b. nat (numlines l ! b)) bs) \<le> length fft"
  shows "\<exists>eb' mx' av'. calc_energy_loop l fft bs j (eb, mx, av) = Some (eb @ eb', mx @ mx', av @ av')
           \<and> length eb' = length bs \<and> length mx' = length bs \<and> length av' = length bs
           \<and> (\<forall>i<length bs. 0 \<le> eb' ! i \<and> 0 \<le> av' ! i \<and> av' ! i \<le> mx' ! i)"
  using assms(2,3)
proof (induction bs arbitrary: j eb mx av)
  case Nil
  then show ?case by simp
next
  case (Cons b bs)
  let ?n = "nat (numlines l ! b)"
  have hb: "b < length (numlines l)" "b < length (rnumlines l)" "0 < numlines l ! b"
      "0 \<le> rnumlines l ! b" "rnumlines l ! b * real_of_int (numlines l ! b) \<le> 1"
    using Cons.prems(1) by simp_all
  have jn: "j + ?n \<le> length fft" using Cons.prems(2) by simp
  have "list_all (\<lambda>e. 0 \<le> e) (take ?n (drop j fft))"
    using assms(1) by (auto simp: list_all_iff dest: in_set_takeD in_set_dropD)
  from energy_of_lines_some[OF this] obtain ebb m where
    em: "energy_of_lines (take ?n (drop j fft)) = Some (ebb, m)" "0 \<le> ebb" "0 \<le> m"
      "ebb \<le> real (length (take ?n (drop j fft))) * m"
    by blast
  have len: "length (take ?n (drop j fft)) = ?n" using jn by simp
  have rn: "real ?n = real_of_int (numlines l ! b)" using hb(3) by simp
  have "ebb * rnumlines l ! b \<le> (real ?n * m) * rnumlines l ! b"
    using em(4) hb(4) len by (simp add: mult_right_mono)
  also have "\<dots> = m * (rnumlines l ! b * real_of_int (numlines l ! b))" using rn by simp
  also have "\<dots> \<le> m * 1" using hb(5) em(3) by (rule mult_left_mono)
  finally have avm: "ebb * rnumlines l ! b \<le> m" by simp
  have av0: "0 \<le> ebb * rnumlines l ! b" using em(2) hb(4) by simp
  have "\<exists>eb' mx' av'. calc_energy_loop l fft bs (j + ?n)
            (eb @ [ebb], mx @ [m], av @ [ebb * rnumlines l ! b])
          = Some ((eb @ [ebb]) @ eb', (mx @ [m]) @ mx', (av @ [ebb * rnumlines l ! b]) @ av')
      \<and> length eb' = length bs \<and> length mx' = length bs \<and> length av' = length bs
      \<and> (\<forall>i<length bs. 0 \<le> eb' ! i \<and> 0 \<le> av' ! i \<and> av' ! i \<le> mx' ! i)"
  proof (rule Cons.IH)
    show "\<forall>b\<in>set bs. b < length (numlines l) \<and> b < length (rnumlines l)
            \<and> 0 < numlines l ! b \<and> 0 \<le> rnumlines l ! b
            \<and> rnumlines l ! b * real_of_int (numlines l ! b) \<le> 1"
      using Cons.prems(1) by simp
    show "j + ?n + sum_list (map (\<lambda>b. nat (numlines l ! b)) bs) \<le> length fft"
      using Cons.prems(2) by simp
  qed
  then obtain eb' mx' av' where r:
    "calc_energy_loop l fft bs (j + ?n) (eb @ [ebb], mx @ [m], av @ [ebb * rnumlines l ! b])
          = Some ((eb @ [ebb]) @ eb', (mx @ [m]) @ mx', (av @ [ebb * rnumlines l ! b]) @ av')"
    "length eb' = length bs" "length mx' = length bs" "length av' = length bs"
    "\<forall>i<length bs. 0 \<le> eb' ! i \<and> 0 \<le> av' ! i \<and> av' ! i \<le> mx' ! i"
    by blast
  have step: "calc_energy_loop l fft (b # bs) j (eb, mx, av)
      = Some (eb @ (ebb # eb'), mx @ (m # mx'), av @ (ebb * rnumlines l ! b # av'))"
    using hb jn em(1,2,3) av0 r(1) by simp
  have "\<forall>i<length (b # bs). 0 \<le> (ebb # eb') ! i \<and> 0 \<le> (ebb * rnumlines l ! b # av') ! i
          \<and> (ebb * rnumlines l ! b # av') ! i \<le> (m # mx') ! i"
  proof (intro allI impI)
    fix i assume "i < length (b # bs)"
    then show "0 \<le> (ebb # eb') ! i \<and> 0 \<le> (ebb * rnumlines l ! b # av') ! i
          \<and> (ebb * rnumlines l ! b # av') ! i \<le> (m # mx') ! i"
      using em(2) av0 avm r(5) by (cases i) auto
  qed
  then show ?case using step r(2,3,4) by (intro exI[of _ "ebb # eb'"] exI[of _ "m # mx'"] exI[of _ "ebb * rnumlines l ! b # av'"]) simp
qed

lemma psy_tables_okD:
  assumes "psy_tables_ok l nsb"
  shows "2 \<le> npart l" "npart l \<le> CBANDS"
    "npart l \<le> length (numlines l)" "npart l \<le> length (rnumlines l)"
    "npart l \<le> length (s3ind l)" "npart l \<le> length (minval l)"
    "npart l \<le> length (masking_lower l)"
    "nsb \<le> length (bo l)" "nsb \<le> length (bo_weight l)"
    "\<And>b. b < npart l \<Longrightarrow> 0 < numlines l ! b \<and> 0 \<le> rnumlines l ! b
                     \<and> rnumlines l ! b * real_of_int (numlines l ! b) \<le> 1
                     \<and> fst (s3ind l ! b) < npart l \<and> snd (s3ind l ! b) < npart l
                     \<and> 0 \<le> minval l ! b \<and> 0 \<le> masking_lower l ! b"
    "list_all (\<lambda>x. 0 \<le> x) (s3 l)"
    "s3_used l (npart l) \<le> length (s3 l)"
    "\<And>sb. sb < nsb \<Longrightarrow> 0 \<le> bo_weight l ! sb \<and> bo_weight l ! sb \<le> 1"
    "npart l \<le> length (mld_cb l)"
  using assms unfolding psy_tables_ok_def list_all_iff by auto

lemma calc_energy_some:
  assumes "psy_tables_ok l nsb" "lines_used l \<le> length fft" "list_all (\<lambda>e. 0 \<le> e) fft"
  shows "\<exists>eb mx av. calc_energy l fft = Some (eb, mx, av)
           \<and> length eb = npart l \<and> length mx = npart l \<and> length av = npart l
           \<and> (\<forall>i<npart l. 0 \<le> eb ! i \<and> 0 \<le> av ! i \<and> av ! i \<le> mx ! i)"
proof -
  have "\<exists>eb' mx' av'. calc_energy_loop l fft [0..<npart l] 0 ([], [], [])
           = Some ([] @ eb', [] @ mx', [] @ av')
           \<and> length eb' = length [0..<npart l] \<and> length mx' = length [0..<npart l]
           \<and> length av' = length [0..<npart l]
           \<and> (\<forall>i<length [0..<npart l]. 0 \<le> eb' ! i \<and> 0 \<le> av' ! i \<and> av' ! i \<le> mx' ! i)"
  proof (rule calc_energy_loop_some[OF assms(3)])
    show "\<forall>b\<in>set [0..<npart l]. b < length (numlines l) \<and> b < length (rnumlines l)
            \<and> 0 < numlines l ! b \<and> 0 \<le> rnumlines l ! b
            \<and> rnumlines l ! b * real_of_int (numlines l ! b) \<le> 1"
      using psy_tables_okD(3,4,10)[OF assms(1)] by auto
    show "0 + sum_list (map (\<lambda>b. nat (numlines l ! b)) [0..<npart l]) \<le> length fft"
      using assms(2) by (simp add: lines_used_def)
  qed
  then show ?thesis by (simp add: calc_energy_def)
qed

text \<open>
  The masking index stays inside \<^verbatim>\<open>tab\<close>: the sum of the averages is at most the number of
  partitions times the largest maximum, so the value that is cut to an integer is not negative.
\<close>

lemma c_int_nonneg: "0 \<le> x \<Longrightarrow> 0 \<le> c_int x"
  by (simp add: c_int_def)

lemma mask_index_of_some:
  assumes "0 \<le> a" "a > 0 \<Longrightarrow> 0 < n - 1 \<and> a \<le> m * c"
  shows "\<exists>k. mask_index_of a m c n = Some k \<and> k < length tab"
proof (cases "a > 0")
  case False
  then show ?thesis using assms(1) by (simp add: mask_index_of_def tab_def)
next
  case True
  then have n: "0 < n - 1" and am: "a \<le> m * c" using assms(2) by simp_all
  let ?k = "c_int (20 * (m * c - a) / (a * real_of_int (n - 1)))"
  have "0 \<le> 20 * (m * c - a) / (a * real_of_int (n - 1))"
    using True n am by simp
  then have k0: "0 \<le> ?k" by (rule c_int_nonneg)
  let ?k' = "if ?k > last_tab_entry then last_tab_entry else ?k"
  have k': "0 \<le> ?k'" "?k' \<le> 8" using k0 by (simp_all add: last_tab_entry_def tab_def)
  then have "?k' mod 256 = ?k'" by simp
  then have "nat (?k' mod 256) < length tab" using k' by (simp add: tab_def)
  moreover have "mask_index_of a m c n = Some (nat (?k' mod 256))"
    using True n by (simp add: mask_index_of_def Let_def)
  ultimately show ?thesis by blast
qed

lemma those_map_some:
  assumes "\<forall>x\<in>set xs. \<exists>k. f x = Some k \<and> P k"
  shows "\<exists>ys. those (map f xs) = Some ys \<and> length ys = length xs \<and> list_all P ys"
  using assms
proof (induction xs)
  case Nil
  then show ?case by simp
next
  case (Cons x xs)
  then obtain k where k: "f x = Some k" "P k" by auto
  from Cons obtain ys where ys: "those (map f xs) = Some ys" "length ys = length xs" "list_all P ys"
    by auto
  show ?case using k ys by simp
qed

lemma calc_mask_index_l_some:
  assumes "psy_tables_ok l nsb" "npart l \<le> length mx" "npart l \<le> length av"
    and "\<forall>i<npart l. 0 \<le> av ! i \<and> av ! i \<le> mx ! i"
  shows "\<exists>idx. calc_mask_index_l l mx av = Some idx \<and> length idx = npart l
           \<and> list_all (\<lambda>k. k < length tab) idx"
proof -
  note ok = psy_tables_okD[OF assms(1)]
  have np: "2 \<le> npart l" by (rule ok(1))
  have nl: "\<And>b. b < npart l \<Longrightarrow> 0 < numlines l ! b" using ok(10) by blast
  have avp: "\<And>i. i < npart l \<Longrightarrow> 0 \<le> av ! i" "\<And>i. i < npart l \<Longrightarrow> av ! i \<le> mx ! i"
    using assms(4) by blast+
  have two: "\<exists>k. mask_index_of (av ! i + av ! j) (if mx ! i < mx ! j then mx ! j else mx ! i) 2
                   (numlines l ! i + numlines l ! j) = Some k \<and> k < length tab"
    if "i < npart l" "j < npart l" for i j
  proof (rule mask_index_of_some)
    show "0 \<le> av ! i + av ! j" using avp(1)[OF that(1)] avp(1)[OF that(2)] by simp
    show "0 < numlines l ! i + numlines l ! j - 1
          \<and> av ! i + av ! j \<le> (if mx ! i < mx ! j then mx ! j else mx ! i) * 2"
      using nl[OF that(1)] nl[OF that(2)] avp(2)[OF that(1)] avp(2)[OF that(2)] by auto
  qed
  have mid: "\<exists>k. mask_index_mid l mx av b = Some k \<and> k < length tab"
    if "b \<in> set [1..<npart l - 1]" for b
  proof -
    have b: "b - 1 < npart l" "b < npart l" "b + 1 < npart l" using that by auto
    show ?thesis unfolding mask_index_mid_def
    proof (rule mask_index_of_some)
      show "0 \<le> av ! (b - 1) + av ! b + av ! (b + 1)"
        using avp(1)[OF b(1)] avp(1)[OF b(2)] avp(1)[OF b(3)] by simp
      show "0 < numlines l ! (b - 1) + numlines l ! b + numlines l ! (b + 1) - 1
          \<and> av ! (b - 1) + av ! b + av ! (b + 1)
             \<le> (let m = mx ! (b - 1); m1 = (if m < mx ! b then mx ! b else m)
                 in if m1 < mx ! (b + 1) then mx ! (b + 1) else m1) * 3"
        using nl[OF b(1)] nl[OF b(2)] nl[OF b(3)] avp(2)[OF b(1)] avp(2)[OF b(2)] avp(2)[OF b(3)]
        by (auto simp: Let_def)
    qed
  qed
  obtain k0 where k0: "mask_index_of (av ! 0 + av ! 1) (if mx ! 0 < mx ! 1 then mx ! 1 else mx ! 0) 2
                   (numlines l ! 0 + numlines l ! 1) = Some k0" "k0 < length tab"
    using two[of 0 1] np by auto
  obtain kl where kl: "mask_index_of (av ! (npart l - 2) + av ! (npart l - 1))
                          (if mx ! (npart l - 2) < mx ! (npart l - 1)
                           then mx ! (npart l - 1) else mx ! (npart l - 2))
                          2 (numlines l ! (npart l - 2) + numlines l ! (npart l - 1)) = Some kl"
      "kl < length tab"
    using two[of "npart l - 2" "npart l - 1"] np by auto
  obtain ks where ks: "those (map (mask_index_mid l mx av) [1..<npart l - 1]) = Some ks"
      "length ks = length [1..<npart l - 1]" "list_all (\<lambda>k. k < length tab) ks"
    using those_map_some[of "[1..<npart l - 1]" "mask_index_mid l mx av" "\<lambda>k. k < length tab"] mid
    by blast
  have "calc_mask_index_l l mx av = Some (k0 # ks @ [kl])"
    using np assms(2,3) ok(3) k0(1) ks(1) kl(1) by (simp add: calc_mask_index_l_def)
  moreover have "length (k0 # ks @ [kl]) = npart l" using ks(2) np by simp
  moreover have "list_all (\<lambda>k. k < length tab) (k0 # ks @ [kl])" using k0(2) ks(3) kl(2) by simp
  ultimately show ?thesis by blast
qed

text \<open>
  The convolution of \<^verbatim>\<open>vbrpsy_compute_masking_l\<close> returns a value that is not negative, an
  averaged masking index inside \<^verbatim>\<open>tab\<close>, and has read one entry of \<^verbatim>\<open>s3\<close> for each partition
  of the range.
\<close>

lemma vbrpsy_mask_add_nonneg:
  "\<exists>r. vbrpsy_mask_add m1 m2 b = Some r \<and> 0 \<le> r"
proof -
  consider "m1 \<le> 0" | "0 < m1" "m2 \<le> 0" | "0 < m1" "0 < m2" by linarith
  then show ?thesis
  proof cases
    case 1
    then show ?thesis using vbrpsy_mask_add_nonpos_left[of m1 m2 b] by simp
  next
    case 2
    then show ?thesis using vbrpsy_mask_add_nonpos_right[of m1 m2 b] by simp
  next
    case 3
    from vbrpsy_mask_add_pos[OF 3, of b] obtain r where
      "vbrpsy_mask_add m1 m2 b = Some r" "m1 \<le> r" by blast
    then show ?thesis using 3 by (intro exI[of _ r]) simp
  qed
qed

lemma tab_nonneg: "i < length tab \<Longrightarrow> 0 \<le> tab ! i"
proof -
  have "list_all (\<lambda>x. 0 \<le> x) tab" by (simp add: tab_def)
  then show "i < length tab \<Longrightarrow> 0 \<le> tab ! i" by (simp add: list_all_length)
qed

lemma vbr_spread_step_some:
  assumes "kk < length eb" "kk < length idx" "k < length (s3 l)" "idx ! kk < length tab"
  shows "\<exists>t. vbr_spread_step l eb idx b kk (ecb, dd, dd_n, k)
               = Some (t, dd + idx ! kk, dd_n + 1, k + 1) \<and> 0 \<le> t"
proof -
  obtain t where "vbrpsy_mask_add ecb (s3 l ! k * eb ! kk * tab ! (idx ! kk)) (int kk - int b) = Some t"
      "0 \<le> t"
    using vbrpsy_mask_add_nonneg by blast
  then show ?thesis using assms by (simp add: vbr_spread_step_def)
qed

lemma vbr_spread_some:
  assumes "b < length (s3ind l)" "fst (s3ind l ! b) < n" "snd (s3ind l ! b) < n"
    and "length eb = n" "length idx = n" "list_all (\<lambda>k. k < length tab) idx"
    and "\<forall>i<n. 0 \<le> eb ! i" "list_all (\<lambda>x. 0 \<le> x) (s3 l)"
    and "k + 1 + (snd (s3ind l ! b) - fst (s3ind l ! b)) \<le> length (s3 l)"
  shows "\<exists>ecb dd dd_n. vbr_spread l eb idx b k
            = Some (ecb, dd, dd_n, k + 1 + (snd (s3ind l ! b) - fst (s3ind l ! b)))
          \<and> 0 \<le> ecb \<and> (1 + 2 * dd) div (2 * dd_n) < length tab"
proof -
  let ?lo = "fst (s3ind l ! b)" and ?hi = "snd (s3ind l ! b)"
  have idx: "\<And>i. i < n \<Longrightarrow> idx ! i < length tab"
    using assms(5,6) by (simp add: list_all_length)
  have s3p: "\<And>i. i < length (s3 l) \<Longrightarrow> 0 \<le> s3 l ! i"
    using assms(8) by (simp add: list_all_length)
  let ?st0 = "(s3 l ! k * eb ! ?lo * tab ! (idx ! ?lo), idx ! ?lo, 1::nat, k + 1)"
  have k0: "k < length (s3 l)" using assms(9) by simp
  have "0 \<le> s3 l ! k * eb ! ?lo * tab ! (idx ! ?lo)"
    using s3p[OF k0] assms(2,7) tab_nonneg[OF idx[OF assms(2)]] by simp
  moreover have "idx ! ?lo \<le> 8 * 1" using idx[OF assms(2)] by (simp add: tab_def)
  ultimately have inv0: "spread_inv k ?lo (?lo + 1) ?st0" by (simp add: spread_inv_def)
  have "\<exists>st. for_loop (vbr_spread_step l eb idx b) [?lo + 1..<?hi + 1] ?st0 = Some st
           \<and> spread_inv k ?lo (max (?lo + 1) (?hi + 1)) st"
  proof (cases "?lo \<le> ?hi")
    case False
    then show ?thesis using inv0 by (simp add: max_def)
  next
    case True
    have "\<exists>st. for_loop (vbr_spread_step l eb idx b) [?lo + 1..<?hi + 1] ?st0 = Some st
           \<and> spread_inv k ?lo (?hi + 1) st"
    proof (rule for_loop_upt_invariant[where P = "spread_inv k ?lo"])
      show "spread_inv k ?lo (?lo + 1) ?st0" by (rule inv0)
      show "?lo + 1 \<le> ?hi + 1" using True by simp
    next
      fix i st assume i: "?lo + 1 \<le> i" "i < ?hi + 1" and inv: "spread_inv k ?lo i st"
      obtain ecb dd dd_n k' where st: "st = (ecb, dd, dd_n, k')" by (cases st) auto
      have p: "0 \<le> ecb" "dd \<le> 8 * dd_n" "1 \<le> dd_n" "k' = k + (i - ?lo)"
        using inv unfolding st spread_inv_def by simp_all
      have i_n: "i < n" using i(2) assms(3) by simp
      have k'_lt: "k' < length (s3 l)" using p(4) i assms(9) by simp
      obtain t where t: "vbr_spread_step l eb idx b i (ecb, dd, dd_n, k')
               = Some (t, dd + idx ! i, dd_n + 1, k' + 1)" "0 \<le> t"
      proof -
        have "i < length eb" "i < length idx" using i_n assms(4,5) by simp_all
        from vbr_spread_step_some[OF this k'_lt idx[OF i_n], of b ecb dd dd_n] that
        show ?thesis by blast
      qed
      have "dd + idx ! i \<le> 8 * (dd_n + 1)"
        using p(2) idx[OF i_n] by (simp add: tab_def)
      then have "spread_inv k ?lo (Suc i) (t, dd + idx ! i, dd_n + 1, k' + 1)"
        using t(2) p(3,4) i(1) by (simp add: spread_inv_def)
      then show "\<exists>v'. vbr_spread_step l eb idx b i st = Some v' \<and> spread_inv k ?lo (Suc i) v'"
        using t(1) st by simp
    qed
    then show ?thesis using True by (simp add: max_def)
  qed
  then obtain st where st: "for_loop (vbr_spread_step l eb idx b) [?lo + 1..<?hi + 1] ?st0 = Some st"
      "spread_inv k ?lo (max (?lo + 1) (?hi + 1)) st"
    by blast
  obtain ecb dd dd_n k' where sv: "st = (ecb, dd, dd_n, k')" by (cases st) auto
  have p: "0 \<le> ecb" "dd \<le> 8 * dd_n" "1 \<le> dd_n" "k' = k + (max (?lo + 1) (?hi + 1) - ?lo)"
    using st(2) unfolding sv spread_inv_def by simp_all
  have "max (?lo + 1) (?hi + 1) - ?lo = 1 + (?hi - ?lo)" by (cases "?lo \<le> ?hi") auto
  then have k': "k' = k + 1 + (?hi - ?lo)" using p(4) by simp
  have "1 + 2 * dd < length tab * (2 * dd_n)" using p(2,3) by (simp add: tab_def)
  then have dd: "(1 + 2 * dd) div (2 * dd_n) < length tab"
    using p(3) by (simp add: div_less_iff_less_mult)
  have "vbr_spread l eb idx b k = Some (ecb, dd, dd_n, k')"
    using assms(1,2,4,5) k0 idx[OF assms(2)] st(1) sv by (simp add: vbr_spread_def Let_def)
  then show ?thesis using p(1) dd k' by blast
qed

text \<open>
  The limits of one partition: the pre-echo control keeps the threshold at 0 or above, the
  limit by the energy brings it to the energy or below.
\<close>

lemma Min_c_nonneg: "0 \<le> a \<Longrightarrow> 0 \<le> b \<Longrightarrow> 0 \<le> Min_c a b"
  by (simp add: Min_c_def)

lemma vbr_pre_echo_nonneg:
  assumes "0 \<le> ecb" "0 \<le> eb_b" "0 \<le> NS_PREECHO_ATT2 h"
  shows "0 \<le> vbr_pre_echo h bt_old ecb eb_b nb1 nb2"
proof (cases "bt_old = SHORT_TYPE")
  case True
  have "0 \<le> Min_c ecb (rpelev h * nb1)" if "rpelev h * nb1 > 0"
    using that assms(1) by (simp add: Min_c_nonneg)
  moreover have "0 \<le> Min_c ecb (eb_b * NS_PREECHO_ATT2 h)"
    using assms by (simp add: Min_c_nonneg)
  ultimately show ?thesis using True by (simp add: vbr_pre_echo_def Let_def)
next
  case False
  let ?l2 = "if rpelev2 h * nb2 \<le> 0 then ecb else rpelev2 h * nb2"
  let ?l1 = "if rpelev h * nb1 \<le> 0 then ecb else rpelev h * nb1"
  have l: "0 \<le> ?l1" "0 \<le> ?l2" using assms(1) by auto
  have "0 \<le> Min_c ecb (if bt_old = NORM_TYPE then Min_c ?l1 ?l2 else ?l1)"
    using l assms(1) by (simp add: Min_c_nonneg)
  then show ?thesis using False by (simp add: vbr_pre_echo_def Let_def)
qed

lemma vbr_limit_thr_some:
  assumes "0 \<le> thr0" "0 \<le> x" "0 \<le> ml" "0 \<le> eb_b"
  shows "\<exists>t. vbr_limit_thr thr0 x ml eb_b = Some t \<and> 0 \<le> t \<and> t \<le> eb_b"
proof -
  define t1 where "t1 = (if thr0 > x then x else thr0)"
  define t2 where "t2 = (if ml > 1 then t1 * ml else t1)"
  define t3 where "t3 = (if t2 > eb_b then eb_b else t2)"
  define t4 where "t4 = (if ml < 1 then t3 * ml else t3)"
  have t1: "0 \<le> t1" using assms(1,2) by (simp add: t1_def)
  have t2: "0 \<le> t2" using t1 assms(3) by (simp add: t2_def)
  have t3: "0 \<le> t3" "t3 \<le> eb_b" using t2 assms(4) by (simp_all add: t3_def)
  have t4: "0 \<le> t4" using t3(1) assms(3) by (simp add: t4_def)
  have "t3 * ml \<le> t3 * 1" if "ml < 1" using that t3(1) by (intro mult_left_mono) simp_all
  then have t4': "t4 \<le> eb_b" using t3(2) by (cases "ml < 1") (simp_all add: t4_def)
  have "vbr_limit_thr thr0 x ml eb_b = (if 0 \<le> t4 then Some t4 else None)"
    unfolding vbr_limit_thr_def Let_def t4_def t3_def t2_def t1_def by (rule refl)
  then show ?thesis using t4 t4' by simp
qed

lemma s3_used_Suc:
  "s3_used l (Suc b) = s3_used l b + 1 + (snd (s3ind l ! b) - fst (s3ind l ! b))"
  by (simp add: s3_used_def)

lemma s3_used_mono: "b \<le> n \<Longrightarrow> s3_used l b \<le> s3_used l n"
proof (induction n)
  case 0
  then show ?case by simp
next
  case (Suc n)
  show ?case
  proof (cases "b = Suc n")
    case True
    then show ?thesis by simp
  next
    case False
    then have "s3_used l b \<le> s3_used l n" using Suc by simp
    then show ?thesis by (simp add: s3_used_Suc)
  qed
qed

lemma vbr_masking_step_inv:
  assumes ok: "psy_tables_ok l nsb" and ml: "0 \<le> ml"
    and pre: "\<forall>ecb e a a'. 0 \<le> ecb \<longrightarrow> 0 \<le> e \<longrightarrow> 0 \<le> pre ecb e a a'"
    and eb: "length eb = npart l" "\<forall>i<npart l. 0 \<le> eb ! i"
    and mx: "length mx = npart l" "\<forall>i<npart l. 0 \<le> mx ! i"
    and idx: "length idx = npart l" "list_all (\<lambda>k. k < length tab) idx"
    and n12: "npart l \<le> n1" "npart l \<le> n2"
    and b: "b < npart l" and inv: "masking_inv l eb n1 n2 b st"
  shows "\<exists>st'. vbr_masking_step pre l ml eb mx idx b st = Some st'
           \<and> masking_inv l eb n1 n2 (Suc b) st'"
proof -
  note t = psy_tables_okD[OF ok]
  obtain k thr nb1 nb2 where st: "st = (k, thr, nb1, nb2)" by (cases st) auto
  have p: "k = s3_used l b" "length thr = b" "length nb1 = n1" "length nb2 = n2"
      "\<forall>i<b. 0 \<le> thr ! i \<and> thr ! i \<le> eb ! i"
    using inv unfolding st masking_inv_def by simp_all
  have tb: "fst (s3ind l ! b) < npart l" "snd (s3ind l ! b) < npart l" "0 \<le> minval l ! b"
      "0 \<le> masking_lower l ! b"
    using t(10)[OF b] by simp_all
  have "s3_used l (Suc b) \<le> s3_used l (npart l)" using b by (intro s3_used_mono) simp
  then have kb: "k + 1 + (snd (s3ind l ! b) - fst (s3ind l ! b)) \<le> length (s3 l)"
    using t(12) p(1) by (simp add: s3_used_Suc)
  have bl: "b < length (s3ind l)" using b t(5) by simp
  obtain ecb0 dd dd_n where sp:
    "vbr_spread l eb idx b k
       = Some (ecb0, dd, dd_n, k + 1 + (snd (s3ind l ! b) - fst (s3ind l ! b)))"
    "0 \<le> ecb0" "(1 + 2 * dd) div (2 * dd_n) < length tab"
    using vbr_spread_some[OF bl tb(1,2) eb(1) idx(1,2) eb(2) t(11) kb] by blast
  let ?am = "tab ! ((1 + 2 * dd) div (2 * dd_n)) * 0.5"
  let ?ecb = "ecb0 * ?am"
  have am: "0 \<le> ?am" using tab_nonneg[OF sp(3)] by simp
  have ecb: "0 \<le> ?ecb" using sp(2) am by simp
  have ebb: "0 \<le> eb ! b" using eb(2) b by simp
  have mxb: "0 \<le> mx ! b" using mx(2) b by simp
  have pe: "0 \<le> pre ?ecb (eb ! b) (nb1 ! b) (nb2 ! b)"
    using pre ecb ebb by blast
  have x: "0 \<le> mx ! b * minval l ! b * ?am" using mxb tb(3) am by simp
  have mlb: "0 \<le> masking_lower l ! b * ml" using tb(4) ml by simp
  obtain tt where tt: "vbr_limit_thr (pre ?ecb (eb ! b) (nb1 ! b) (nb2 ! b))
                      (mx ! b * minval l ! b * ?am) (masking_lower l ! b * ml) (eb ! b) = Some tt"
      "0 \<le> tt" "tt \<le> eb ! b"
    using vbr_limit_thr_some[OF pe x mlb ebb] by blast
  let ?st' = "(k + 1 + (snd (s3ind l ! b) - fst (s3ind l ! b)), thr @ [tt], nb1[b := ?ecb],
               nb2[b := nb1 ! b])"
  have lens: "b < length eb" "b < length mx" "b < length nb1" "b < length nb2"
      "b < length (minval l)" "b < length (masking_lower l)"
    using b eb(1) mx(1) p(3,4) n12 t(6,7) by simp_all
  have step: "vbr_masking_step pre l ml eb mx idx b st = Some ?st'"
    unfolding st vbr_masking_step_def using lens sp(1,3) tt(1) by (simp add: Let_def)
  have "\<forall>i<Suc b. 0 \<le> (thr @ [tt]) ! i \<and> (thr @ [tt]) ! i \<le> eb ! i"
  proof (intro allI impI)
    fix i assume "i < Suc b"
    then show "0 \<le> (thr @ [tt]) ! i \<and> (thr @ [tt]) ! i \<le> eb ! i"
      using p(2,5) tt(2,3) by (cases "i = b") (auto simp: nth_append)
  qed
  then have "masking_inv l eb n1 n2 (Suc b) ?st'"
    using p(1,2,3,4) by (simp add: masking_inv_def s3_used_Suc)
  then show ?thesis using step by blast
qed

lemma vbr_masking_loop_some:
  assumes ok: "psy_tables_ok l nsb" and ml: "0 \<le> ml"
    and pre: "\<forall>ecb e a a'. 0 \<le> ecb \<longrightarrow> 0 \<le> e \<longrightarrow> 0 \<le> pre ecb e a a'"
    and eb: "length eb = npart l" "\<forall>i<npart l. 0 \<le> eb ! i"
    and mx: "length mx = npart l" "\<forall>i<npart l. 0 \<le> mx ! i"
    and idx: "length idx = npart l" "list_all (\<lambda>k. k < length tab) idx"
    and n12: "npart l \<le> length nb1" "npart l \<le> length nb2"
  shows "\<exists>k thr nb1' nb2'.
           for_loop (vbr_masking_step pre l ml eb mx idx) [0..<npart l] (0, [], nb1, nb2)
             = Some (k, thr, nb1', nb2')
           \<and> length thr = npart l \<and> length nb1' = length nb1 \<and> length nb2' = length nb2
           \<and> (\<forall>i<npart l. 0 \<le> thr ! i \<and> thr ! i \<le> eb ! i)"
proof -
  have "\<exists>st. for_loop (vbr_masking_step pre l ml eb mx idx) [0..<npart l] (0, [], nb1, nb2)
              = Some st
           \<and> masking_inv l eb (length nb1) (length nb2) (npart l) st"
  proof (rule for_loop_upt_invariant[where P = "masking_inv l eb (length nb1) (length nb2)"])
    show "masking_inv l eb (length nb1) (length nb2) 0 (0, [], nb1, nb2)"
      by (simp add: masking_inv_def s3_used_def)
    show "0 \<le> npart l" by simp
  next
    fix b st assume "0 \<le> b" "b < npart l" "masking_inv l eb (length nb1) (length nb2) b st"
    then show "\<exists>v'. vbr_masking_step pre l ml eb mx idx b st = Some v'
                 \<and> masking_inv l eb (length nb1) (length nb2) (Suc b) v'"
      using vbr_masking_step_inv[OF ok ml pre eb mx idx n12] by blast
  qed
  then obtain st where st: "for_loop (vbr_masking_step pre l ml eb mx idx) [0..<npart l]
        (0, [], nb1, nb2) = Some st" "masking_inv l eb (length nb1) (length nb2) (npart l) st"
    by blast
  obtain k thr nb1' nb2' where sv: "st = (k, thr, nb1', nb2')" by (cases st) auto
  have "length thr = npart l" "length nb1' = length nb1" "length nb2' = length nb2"
      "\<forall>i<npart l. 0 \<le> thr ! i \<and> thr ! i \<le> eb ! i"
    using st(2) unfolding sv masking_inv_def by simp_all
  then show ?thesis using st(1) sv by blast
qed

lemma bands_between_padded:
  assumes "length eb = n" "length thr = n" "n \<le> CBANDS"
    and "\<forall>i<n. 0 \<le> thr ! i \<and> thr ! i \<le> eb ! i"
  shows "bands_between (eb @ replicate (CBANDS - n) 0) (thr @ replicate (CBANDS - n) 0)"
proof -
  have "\<forall>i<CBANDS. 0 \<le> (thr @ replicate (CBANDS - n) 0) ! i
          \<and> (thr @ replicate (CBANDS - n) 0) ! i \<le> (eb @ replicate (CBANDS - n) 0) ! i"
  proof (intro allI impI)
    fix i assume "i < CBANDS"
    then show "0 \<le> (thr @ replicate (CBANDS - n) 0) ! i
          \<and> (thr @ replicate (CBANDS - n) 0) ! i \<le> (eb @ replicate (CBANDS - n) 0) ! i"
      using assms by (cases "i < n") (simp_all add: nth_append)
  qed
  then show ?thesis using assms(1,2,3) by (simp add: bands_between_def)
qed

lemma vbrpsy_compute_masking_l_some:
  assumes ok: "psy_tables_ok l nsb" and fft: "lines_used l \<le> length fft" "list_all (\<lambda>e. 0 \<le> e) fft"
    and ml: "0 \<le> ml" and att: "0 \<le> NS_PREECHO_ATT2 h"
    and n12: "npart l \<le> length nb1" "npart l \<le> length nb2"
  shows "\<exists>eb thr nb1' nb2'. vbrpsy_compute_masking_l h l ml bt_old fft nb1 nb2
              = Some (eb, thr, nb1', nb2')
           \<and> bands_between eb thr \<and> length nb1' = length nb1 \<and> length nb2' = length nb2"
proof -
  note t = psy_tables_okD[OF ok]
  obtain eb mx av where e: "calc_energy l fft = Some (eb, mx, av)"
      "length eb = npart l" "length mx = npart l" "length av = npart l"
      "\<forall>i<npart l. 0 \<le> eb ! i \<and> 0 \<le> av ! i \<and> av ! i \<le> mx ! i"
    using calc_energy_some[OF ok fft] by blast
  have ebp: "\<forall>i<npart l. 0 \<le> eb ! i" using e(5) by blast
  have mxp: "\<forall>i<npart l. 0 \<le> mx ! i" using e(5) by fastforce
  have avp: "\<forall>i<npart l. 0 \<le> av ! i \<and> av ! i \<le> mx ! i" using e(5) by blast
  obtain idx where i: "calc_mask_index_l l mx av = Some idx" "length idx = npart l"
      "list_all (\<lambda>k. k < length tab) idx"
    using calc_mask_index_l_some[OF ok eq_refl[OF e(3)[symmetric]] eq_refl[OF e(4)[symmetric]] avp]
    by blast
  have pre: "\<forall>ecb e a a'. 0 \<le> ecb \<longrightarrow> 0 \<le> e \<longrightarrow> 0 \<le> vbr_pre_echo h bt_old ecb e a a'"
    using att by (simp add: vbr_pre_echo_nonneg)
  obtain k thr nb1' nb2' where st:
    "for_loop (vbr_masking_step (vbr_pre_echo h bt_old) l ml eb mx idx) [0..<npart l]
        (0, [], nb1, nb2) = Some (k, thr, nb1', nb2')"
    "length thr = npart l" "length nb1' = length nb1" "length nb2' = length nb2"
    "\<forall>i<npart l. 0 \<le> thr ! i \<and> thr ! i \<le> eb ! i"
    using vbr_masking_loop_some[OF ok ml pre e(2) ebp e(3) mxp i(2,3) n12] by blast
  have r: "vbrpsy_compute_masking_l h l ml bt_old fft nb1 nb2
             = Some (eb @ replicate (CBANDS - npart l) 0, thr @ replicate (CBANDS - npart l) 0,
                     nb1', nb2')"
    using t(2) e(1) i(1) st(1) by (simp add: vbrpsy_compute_masking_l_def)
  show ?thesis using r bands_between_padded[OF e(2) st(2) t(2) st(5)] st(3,4) by blast
qed

text \<open>
  \<^verbatim>\<open>convert_partition2scalefac_l\<close> adds thresholds and energies of the same partitions with the
  same weights, so a threshold that is below the energy in every partition is below it in
  every scalefactor band.
\<close>

lemma fold_sums_le:
  fixes t e :: real
  assumes "0 \<le> t" "t \<le> e" "\<forall>b'\<in>set bs. 0 \<le> thr ! b' \<and> thr ! b' \<le> eb ! b'"
  shows "0 \<le> fold (\<lambda>b' t. t + thr ! b') bs t
       \<and> fold (\<lambda>b' t. t + thr ! b') bs t \<le> fold (\<lambda>b' e. e + eb ! b') bs e"
  using assms
proof (induction bs arbitrary: t e)
  case Nil
  then show ?case by simp
next
  case (Cons a bs)
  have "0 \<le> t + thr ! a" "t + thr ! a \<le> e + eb ! a" using Cons.prems by auto
  from Cons.IH[OF this] Cons.prems(3) show ?case by simp
qed

lemma convert_loop_some:
  assumes bounds: "\<forall>b<npart l. 0 \<le> thr ! b \<and> thr ! b \<le> eb ! b"
    and len: "npart l \<le> length eb" "npart l \<le> length thr"
    and sbs: "\<forall>sb\<in>set sbs. sb < length (bo l) \<and> sb < length (bo_weight l)
                 \<and> 0 \<le> bo_weight l ! sb \<and> bo_weight l ! sb \<le> 1"
    and acc: "0 \<le> thmm" "thmm \<le> enn" "list_all2 (\<lambda>t e. 0 \<le> t \<and> t \<le> e) thl en"
  shows "\<exists>en' thl'. convert_loop l eb thr sbs b enn thmm (en, thl) = Some (en', thl')
           \<and> length en' = length en + length sbs
           \<and> list_all2 (\<lambda>t e. 0 \<le> t \<and> t \<le> e) thl' en'"
  using sbs acc
proof (induction sbs arbitrary: b enn thmm en thl)
  case Nil
  then show ?case by simp
next
  case (Cons sb sbs)
  define b_lim where "b_lim = (if bo l ! sb < npart l then bo l ! sb else npart l)"
  define b1 where "b1 = (if b < b_lim then b_lim else b)"
  define enn1 where "enn1 = fold (\<lambda>b' e. e + eb ! b') [b..<b_lim] enn"
  define thmm1 where "thmm1 = fold (\<lambda>b' t. t + thr ! b') [b..<b_lim] thmm"
  define w where "w = bo_weight l ! sb"
  have hsb: "sb < length (bo l)" "sb < length (bo_weight l)" "0 \<le> w" "w \<le> 1"
    using Cons.prems(1) by (simp_all add: w_def)
  have blim: "b_lim \<le> npart l" by (simp add: b_lim_def)
  have inr: "\<forall>b'\<in>set [b..<b_lim]. 0 \<le> thr ! b' \<and> thr ! b' \<le> eb ! b'"
    using bounds blim by auto
  have noex: "\<not> list_ex (\<lambda>b'. \<not> (b' < length eb \<and> b' < length thr
                                   \<and> 0 \<le> eb ! b' \<and> 0 \<le> thr ! b')) [b..<b_lim]"
  proof -
    have "b' < length eb \<and> b' < length thr \<and> 0 \<le> eb ! b' \<and> 0 \<le> thr ! b'"
      if "b' \<in> set [b..<b_lim]" for b'
    proof -
      have "b' < npart l" using that blim by simp
      then show ?thesis using bounds len by fastforce
    qed
    then show ?thesis by (simp add: list_ex_iff)
  qed
  have s1: "0 \<le> thmm1" "thmm1 \<le> enn1"
    using fold_sums_le[OF Cons.prems(2,3) inr] by (simp_all add: thmm1_def enn1_def)
  have unfold: "convert_loop l eb thr (sb # sbs) b enn thmm (en, thl) =
     (if b1 \<ge> npart l
      then Some (en @ [enn1] @ replicate (length sbs) 0, thl @ [thmm1] @ replicate (length sbs) 0)
      else if \<not> (b1 < length eb \<and> b1 < length thr \<and> 0 \<le> eb ! b1 \<and> 0 \<le> thr ! b1)
      then None
      else convert_loop l eb thr sbs (b1 + 1) ((1 - w) * eb ! b1) ((1 - w) * thr ! b1)
             (en @ [enn1 + w * eb ! b1], thl @ [thmm1 + w * thr ! b1]))"
    using hsb(1,2) noex
    unfolding b1_def b_lim_def enn1_def thmm1_def w_def by (simp add: Let_def)
  show ?case
  proof (cases "b1 \<ge> npart l")
    case True
    have "list_all2 (\<lambda>t e. 0 \<le> t \<and> t \<le> e) (thl @ [thmm1] @ replicate (length sbs) 0)
            (en @ [enn1] @ replicate (length sbs) 0)"
      using Cons.prems(4) s1 by (intro list_all2_appendI) (simp_all add: list_all2_conv_all_nth)
    then show ?thesis using True unfold by simp
  next
    case False
    then have b1n: "b1 < npart l" by simp
    have vb: "0 \<le> thr ! b1" "thr ! b1 \<le> eb ! b1" using bounds b1n by simp_all
    have ok1: "b1 < length eb \<and> b1 < length thr \<and> 0 \<le> eb ! b1 \<and> 0 \<le> thr ! b1"
      using b1n len vb by simp
    have w1: "0 \<le> 1 - w" using hsb(4) by simp
    have n1: "0 \<le> (1 - w) * thr ! b1" using w1 vb(1) by simp
    have n2: "(1 - w) * thr ! b1 \<le> (1 - w) * eb ! b1" using w1 vb(2) by (rule mult_left_mono[rotated])
    have "w * thr ! b1 \<le> w * eb ! b1" using hsb(3) vb(2) by (rule mult_left_mono[rotated])
    moreover have "0 \<le> w * thr ! b1" using hsb(3) vb(1) by simp
    ultimately have e1: "0 \<le> thmm1 + w * thr ! b1" "thmm1 + w * thr ! b1 \<le> enn1 + w * eb ! b1"
      using s1 by simp_all
    have l2: "list_all2 (\<lambda>t e. 0 \<le> t \<and> t \<le> e) (thl @ [thmm1 + w * thr ! b1])
               (en @ [enn1 + w * eb ! b1])"
      using Cons.prems(4) e1 by (intro list_all2_appendI) simp_all
    have "\<exists>en' thl'. convert_loop l eb thr sbs (b1 + 1) ((1 - w) * eb ! b1) ((1 - w) * thr ! b1)
             (en @ [enn1 + w * eb ! b1], thl @ [thmm1 + w * thr ! b1]) = Some (en', thl')
           \<and> length en' = length (en @ [enn1 + w * eb ! b1]) + length sbs
           \<and> list_all2 (\<lambda>t e. 0 \<le> t \<and> t \<le> e) thl' en'"
    proof (rule Cons.IH)
      show "\<forall>sb\<in>set sbs. sb < length (bo l) \<and> sb < length (bo_weight l)
                 \<and> 0 \<le> bo_weight l ! sb \<and> bo_weight l ! sb \<le> 1"
        using Cons.prems(1) by simp
    qed (rule n1, rule n2, rule l2)
    then show ?thesis using False ok1 unfold by simp
  qed
qed

text \<open>
  The short blocks: the energies of the partitions have the same bounds, and the loop over
  the partitions is the one of the long blocks without its pre-echo control.
\<close>

lemma short_energy_loop_some:
  assumes "list_all (\<lambda>e. 0 \<le> e) fft"
    and "\<forall>b\<in>set bs. b < length (numlines s) \<and> b < length (rnumlines s)
            \<and> 0 < numlines s ! b \<and> 0 \<le> rnumlines s ! b
            \<and> rnumlines s ! b * real_of_int (numlines s ! b) \<le> 1"
    and "j + sum_list (map (\<lambda>b. nat (numlines s ! b)) bs) \<le> length fft"
  shows "\<exists>eb' mx' av'. short_energy_loop s fft bs j (eb, mx, av)
             = Some (j + sum_list (map (\<lambda>b. nat (numlines s ! b)) bs),
                     eb @ eb', mx @ mx', av @ av')
           \<and> length eb' = length bs \<and> length mx' = length bs \<and> length av' = length bs
           \<and> (\<forall>i<length bs. 0 \<le> eb' ! i \<and> 0 \<le> av' ! i \<and> av' ! i \<le> mx' ! i)"
  using assms(2,3)
proof (induction bs arbitrary: j eb mx av)
  case Nil
  then show ?case by simp
next
  case (Cons b bs)
  let ?n = "nat (numlines s ! b)"
  let ?rest = "sum_list (map (\<lambda>b. nat (numlines s ! b)) bs)"
  have hb: "b < length (numlines s)" "b < length (rnumlines s)" "0 < numlines s ! b"
      "0 \<le> rnumlines s ! b" "rnumlines s ! b * real_of_int (numlines s ! b) \<le> 1"
    using Cons.prems(1) by simp_all
  have jn: "j + ?n \<le> length fft" using Cons.prems(2) by simp
  have "list_all (\<lambda>e. 0 \<le> e) (take ?n (drop j fft))"
    using assms(1) by (auto simp: list_all_iff dest: in_set_takeD in_set_dropD)
  from energy_of_lines_some[OF this] obtain ebb m where
    em: "energy_of_lines (take ?n (drop j fft)) = Some (ebb, m)" "0 \<le> ebb" "0 \<le> m"
      "ebb \<le> real (length (take ?n (drop j fft))) * m"
    by blast
  have fo: "fold (\<lambda>el (ebb, m). (ebb + el, if m < el then el else m)) (take ?n (drop j fft)) (0, 0)
              = (ebb, m)"
    using em(1) by (simp add: energy_of_lines_def split: if_splits)
  have len: "length (take ?n (drop j fft)) = ?n" using jn by simp
  have rn: "real ?n = real_of_int (numlines s ! b)" using hb(3) by simp
  have "ebb * rnumlines s ! b \<le> (real ?n * m) * rnumlines s ! b"
    using em(4) hb(4) len by (simp add: mult_right_mono)
  also have "\<dots> = m * (rnumlines s ! b * real_of_int (numlines s ! b))" using rn by simp
  also have "\<dots> \<le> m * 1" using hb(5) em(3) by (rule mult_left_mono)
  finally have avm: "ebb * rnumlines s ! b \<le> m" by simp
  have av0: "0 \<le> ebb * rnumlines s ! b" using em(2) hb(4) by simp
  have "\<exists>eb' mx' av'. short_energy_loop s fft bs (j + ?n)
            (eb @ [ebb], mx @ [m], av @ [ebb * rnumlines s ! b])
          = Some (j + ?n + ?rest,
                  (eb @ [ebb]) @ eb', (mx @ [m]) @ mx', (av @ [ebb * rnumlines s ! b]) @ av')
      \<and> length eb' = length bs \<and> length mx' = length bs \<and> length av' = length bs
      \<and> (\<forall>i<length bs. 0 \<le> eb' ! i \<and> 0 \<le> av' ! i \<and> av' ! i \<le> mx' ! i)"
  proof (rule Cons.IH)
    show "\<forall>b\<in>set bs. b < length (numlines s) \<and> b < length (rnumlines s)
            \<and> 0 < numlines s ! b \<and> 0 \<le> rnumlines s ! b
            \<and> rnumlines s ! b * real_of_int (numlines s ! b) \<le> 1"
      using Cons.prems(1) by simp
    show "j + ?n + ?rest \<le> length fft"
      using Cons.prems(2) by simp
  qed
  then obtain eb' mx' av' where r:
    "short_energy_loop s fft bs (j + ?n) (eb @ [ebb], mx @ [m], av @ [ebb * rnumlines s ! b])
          = Some (j + ?n + ?rest,
                  (eb @ [ebb]) @ eb', (mx @ [m]) @ mx', (av @ [ebb * rnumlines s ! b]) @ av')"
    "length eb' = length bs" "length mx' = length bs" "length av' = length bs"
    "\<forall>i<length bs. 0 \<le> eb' ! i \<and> 0 \<le> av' ! i \<and> av' ! i \<le> mx' ! i"
    by blast
  have step: "short_energy_loop s fft (b # bs) j (eb, mx, av)
      = Some (j + sum_list (map (\<lambda>b. nat (numlines s ! b)) (b # bs)),
              eb @ (ebb # eb'), mx @ (m # mx'), av @ (ebb * rnumlines s ! b # av'))"
    using hb jn fo em(2) av0 r(1) by (simp add: add.assoc)
  have "\<forall>i<length (b # bs). 0 \<le> (ebb # eb') ! i \<and> 0 \<le> (ebb * rnumlines s ! b # av') ! i
          \<and> (ebb * rnumlines s ! b # av') ! i \<le> (m # mx') ! i"
  proof (intro allI impI)
    fix i assume "i < length (b # bs)"
    then show "0 \<le> (ebb # eb') ! i \<and> 0 \<le> (ebb * rnumlines s ! b # av') ! i
          \<and> (ebb * rnumlines s ! b # av') ! i \<le> (m # mx') ! i"
      using em(2) av0 avm r(5) by (cases i) auto
  qed
  then show ?case using step r(2,3,4)
    by (intro exI[of _ "ebb # eb'"] exI[of _ "m # mx'"] exI[of _ "ebb * rnumlines s ! b # av'"])
       simp
qed

lemma vbrpsy_compute_masking_s_some:
  assumes ok: "psy_tables_ok s nsb" and fft: "lines_used s = HBLKSIZE_s" "length fft = HBLKSIZE_s"
      "list_all (\<lambda>e. 0 \<le> e) fft"
    and ml: "0 \<le> ml"
    and n12: "npart s \<le> length nb1" "npart s \<le> length nb2"
  shows "\<exists>eb thr nb1' nb2'. vbrpsy_compute_masking_s s ml fft nb1 nb2
              = Some (eb, thr, nb1', nb2')
           \<and> bands_between eb thr \<and> length nb1' = length nb1 \<and> length nb2' = length nb2"
proof -
  note t = psy_tables_okD[OF ok]
  have "\<exists>eb' mx' av'. short_energy_loop s fft [0..<npart s] 0 ([], [], [])
           = Some (0 + sum_list (map (\<lambda>b. nat (numlines s ! b)) [0..<npart s]),
                   [] @ eb', [] @ mx', [] @ av')
           \<and> length eb' = length [0..<npart s] \<and> length mx' = length [0..<npart s]
           \<and> length av' = length [0..<npart s]
           \<and> (\<forall>i<length [0..<npart s]. 0 \<le> eb' ! i \<and> 0 \<le> av' ! i \<and> av' ! i \<le> mx' ! i)"
  proof (rule short_energy_loop_some[OF fft(3)])
    show "\<forall>b\<in>set [0..<npart s]. b < length (numlines s) \<and> b < length (rnumlines s)
            \<and> 0 < numlines s ! b \<and> 0 \<le> rnumlines s ! b
            \<and> rnumlines s ! b * real_of_int (numlines s ! b) \<le> 1"
      using t(3,4,10) by auto
    show "0 + sum_list (map (\<lambda>b. nat (numlines s ! b)) [0..<npart s]) \<le> length fft"
      using fft(1,2) by (simp add: lines_used_def)
  qed
  then obtain eb mx av where e:
      "short_energy_loop s fft [0..<npart s] 0 ([], [], []) = Some (129, eb, mx, av)"
      "length eb = npart s" "length mx = npart s" "length av = npart s"
      "\<forall>i<npart s. 0 \<le> eb ! i \<and> 0 \<le> av ! i \<and> av ! i \<le> mx ! i"
    using fft(1) by (auto simp: lines_used_def HBLKSIZE_s_def)
  let ?mx = "mx @ replicate (CBANDS - npart s) 0" and ?av = "av @ replicate (CBANDS - npart s) 0"
  have ebp: "\<forall>i<npart s. 0 \<le> eb ! i" using e(5) by blast
  have mxp: "\<forall>i<npart s. 0 \<le> mx ! i" using e(5) by fastforce
  have avp: "\<forall>i<npart s. 0 \<le> ?av ! i \<and> ?av ! i \<le> ?mx ! i"
    using e(3,4,5) by (simp add: nth_append)
  have le: "npart s \<le> length ?mx" "npart s \<le> length ?av" using e(3,4) by simp_all
  obtain idx where i: "calc_mask_index_l s ?mx ?av = Some idx" "length idx = npart s"
      "list_all (\<lambda>k. k < length tab) idx"
    using calc_mask_index_l_some[OF ok le avp] by blast
  have pre: "\<forall>ecb e a a'. 0 \<le> ecb \<longrightarrow> 0 \<le> e \<longrightarrow> 0 \<le> (\<lambda>ecb (eb_b::real) (nb1_b::real) (nb2_b::real). ecb) ecb e a a'"
    by simp
  obtain k thr nb1' nb2' where st:
    "for_loop (vbr_masking_step (\<lambda>ecb eb_b nb1_b nb2_b. ecb) s ml eb mx idx) [0..<npart s]
        (0, [], nb1, nb2) = Some (k, thr, nb1', nb2')"
    "length thr = npart s" "length nb1' = length nb1" "length nb2' = length nb2"
    "\<forall>i<npart s. 0 \<le> thr ! i \<and> thr ! i \<le> eb ! i"
    using vbr_masking_loop_some[OF ok ml pre e(2) ebp e(3) mxp i(2,3) n12] by blast
  have r: "vbrpsy_compute_masking_s s ml fft nb1 nb2
             = Some (eb @ replicate (CBANDS - npart s) 0, thr @ replicate (CBANDS - npart s) 0,
                     nb1', nb2')"
    using t(2) e(1) i(1) st(1)
    by (simp add: vbrpsy_compute_masking_s_def psyvbr_calc_mask_index_s_def)
  show ?thesis using r bands_between_padded[OF e(2) st(2) t(2) st(5)] st(3,4) by blast
qed

text \<open>
  Mid and side: whatever the thresholds of left and right, the absolute threshold and the
  stereo demasking are, the new thresholds are not negative when the old ones are not, and
  the last two statements of the loop limit them by the energies.
\<close>

lemma Max_c_ge: "a \<le> Max_c a b" "b \<le> Max_c a b"
  by (simp_all add: Max_c_def)

lemma case_if_pair:
  "(case (if c then (a, b) else (d, e)) of (x, y) \<Rightarrow> g x y)
     = g (if c then a else d) (if c then b else e)"
  by simp

lemma ms_thresholds_b_between:
  assumes "0 \<le> ebM" "0 \<le> ebS" "0 \<le> thmL" "0 \<le> thmR" "0 \<le> thmM" "0 \<le> thmS"
  shows "0 \<le> fst (ms_thresholds_b msfix athlower mld ath_b ebM ebS thmL thmR thmM thmS)
       \<and> fst (ms_thresholds_b msfix athlower mld ath_b ebM ebS thmL thmR thmM thmS) \<le> ebM
       \<and> 0 \<le> snd (ms_thresholds_b msfix athlower mld ath_b ebM ebS thmL thmR thmM thmS)
       \<and> snd (ms_thresholds_b msfix athlower mld ath_b ebM ebS thmL thmR thmM thmS) \<le> ebS"
proof -
  define rmid where "rmid = (if thmL \<le> 1.58 * thmR \<and> thmR \<le> 1.58 * thmL
                             then Max_c thmM (Min_c thmS (mld * ebS)) else thmM)"
  define rside where "rside = (if thmL \<le> 1.58 * thmR \<and> thmR \<le> 1.58 * thmL
                               then Max_c thmS (Min_c thmM (mld * ebM)) else thmS)"
  define ath where "ath = ath_b * athlower"
  define thmLR where "thmLR = Min_c (Max_c thmL ath) (Max_c thmR ath)"
  define thmM1 where "thmM1 = Max_c rmid ath"
  define thmS1 where "thmS1 = Max_c rside ath"
  define f where "f = thmLR * (msfix * 2) / (thmM1 + thmS1)"
  define scale where "scale \<longleftrightarrow> thmM1 + thmS1 > 0 \<and> thmLR * (msfix * 2) < thmM1 + thmS1"
  define rmid1 where "rmid1 = (if msfix > 0 then Min_c (if scale then thmM1 * f else thmM1) rmid
                               else rmid)"
  define rside1 where "rside1 = (if msfix > 0 then Min_c (if scale then thmS1 * f else thmS1) rside
                                 else rside)"
  have eq: "ms_thresholds_b msfix athlower mld ath_b ebM ebS thmL thmR thmM thmS
              = (if rmid1 > ebM then ebM else rmid1, if rside1 > ebS then ebS else rside1)"
    unfolding ms_thresholds_b_def Let_def case_if_pair rmid1_def rside1_def scale_def f_def
      thmM1_def thmS1_def thmLR_def ath_def rmid_def rside_def
    by (rule refl)
  have r0: "0 \<le> rmid" "0 \<le> rside"
    using assms(5,6) Max_c_ge(1)[of thmM "Min_c thmS (mld * ebS)"]
      Max_c_ge(1)[of thmS "Min_c thmM (mld * ebM)"]
    by (auto simp: rmid_def rside_def)
  have m1: "0 \<le> thmM1" "0 \<le> thmS1"
    using r0 Max_c_ge(1)[of rmid ath] Max_c_ge(1)[of rside ath]
    by (auto simp: thmM1_def thmS1_def)
  have lr: "0 \<le> thmLR"
    unfolding thmLR_def
    using assms(3,4) Max_c_ge(1)[of thmL ath] Max_c_ge(1)[of thmR ath]
    by (intro Min_c_nonneg) auto
  have f0: "0 \<le> f" if "msfix > 0" "scale"
    using that lr unfolding f_def scale_def by simp
  have "0 \<le> rmid1"
    unfolding rmid1_def using r0(1) m1(1) f0 by (auto intro!: Min_c_nonneg)
  moreover have "0 \<le> rside1"
    unfolding rside1_def using r0(2) m1(2) f0 by (auto intro!: Min_c_nonneg)
  ultimately show ?thesis using assms(1,2) unfolding eq by auto
qed

lemma bands_betweenD:
  assumes "bands_between eb thr"
  shows "length eb = CBANDS" "length thr = CBANDS"
    "\<And>i. i < CBANDS \<Longrightarrow> 0 \<le> thr ! i" "\<And>i. i < CBANDS \<Longrightarrow> thr ! i \<le> eb ! i"
    "\<And>i. i < CBANDS \<Longrightarrow> 0 \<le> eb ! i"
proof -
  show "length eb = CBANDS" "length thr = CBANDS" using assms by (simp_all add: bands_between_def)
  show a: "\<And>i. i < CBANDS \<Longrightarrow> 0 \<le> thr ! i" using assms by (simp add: bands_between_def)
  show b: "\<And>i. i < CBANDS \<Longrightarrow> thr ! i \<le> eb ! i" using assms by (simp add: bands_between_def)
  show "\<And>i. i < CBANDS \<Longrightarrow> 0 \<le> eb ! i" using a b by force
qed

lemma vbrpsy_compute_MS_thresholds_some:
  assumes len: "length ebs = 4" "length thrs = 4"
    and bb: "\<forall>chn<4. bands_between (ebs ! chn) (thrs ! chn)"
    and n: "n \<le> CBANDS" "n \<le> length cb_mld" "n \<le> length ath_cb"
  shows "\<exists>thrs'. vbrpsy_compute_MS_thresholds ebs thrs cb_mld ath_cb athlower msfix n = Some thrs'
           \<and> length thrs' = 4 \<and> (\<forall>chn<4. bands_between (ebs ! chn) (thrs' ! chn))"
proof -
  have b: "bands_between (ebs ! 0) (thrs ! 0)" "bands_between (ebs ! 1) (thrs ! 1)"
      "bands_between (ebs ! 2) (thrs ! 2)" "bands_between (ebs ! 3) (thrs ! 3)"
    using bb by simp_all
  define r where "r = map (\<lambda>b. ms_thresholds_b msfix athlower (cb_mld ! b) (ath_cb ! b)
                             (ebs ! 2 ! b) (ebs ! 3 ! b)
                             (thrs ! 0 ! b) (thrs ! 1 ! b) (thrs ! 2 ! b) (thrs ! 3 ! b)) [0..<n]"
  define tm where "tm = map fst r @ drop n (thrs ! 2)"
  define ts where "ts = map snd r @ drop n (thrs ! 3)"
  have lr: "length r = n" by (simp add: r_def)
  have ri: "0 \<le> fst (r ! i) \<and> fst (r ! i) \<le> ebs ! 2 ! i
          \<and> 0 \<le> snd (r ! i) \<and> snd (r ! i) \<le> ebs ! 3 ! i" if "i < n" for i
  proof -
    have i: "i < CBANDS" using that n(1) by simp
    have "r ! i = ms_thresholds_b msfix athlower (cb_mld ! i) (ath_cb ! i)
                             (ebs ! 2 ! i) (ebs ! 3 ! i)
                             (thrs ! 0 ! i) (thrs ! 1 ! i) (thrs ! 2 ! i) (thrs ! 3 ! i)"
      using that by (simp add: r_def)
    then show ?thesis
      using ms_thresholds_b_between[OF bands_betweenD(5)[OF b(3) i] bands_betweenD(5)[OF b(4) i]
          bands_betweenD(3)[OF b(1) i] bands_betweenD(3)[OF b(2) i]
          bands_betweenD(3)[OF b(3) i] bands_betweenD(3)[OF b(4) i]]
      by simp
  qed
  have ltm: "length tm = CBANDS" "length ts = CBANDS"
    using lr n(1) bands_betweenD(2)[OF b(3)] bands_betweenD(2)[OF b(4)]
    by (simp_all add: tm_def ts_def)
  have tmi: "0 \<le> tm ! i \<and> tm ! i \<le> ebs ! 2 ! i" if "i < CBANDS" for i
  proof (cases "i < n")
    case True
    then show ?thesis using ri[OF True] lr by (simp add: tm_def nth_append)
  next
    case False
    then have "tm ! i = thrs ! 2 ! i"
      using lr that bands_betweenD(2)[OF b(3)] by (simp add: tm_def nth_append)
    then show ?thesis using bands_betweenD(3,4)[OF b(3) that] by simp
  qed
  have tsi: "0 \<le> ts ! i \<and> ts ! i \<le> ebs ! 3 ! i" if "i < CBANDS" for i
  proof (cases "i < n")
    case True
    then show ?thesis using ri[OF True] lr by (simp add: ts_def nth_append)
  next
    case False
    then have "ts ! i = thrs ! 3 ! i"
      using lr that bands_betweenD(2)[OF b(4)] by (simp add: ts_def nth_append)
    then show ?thesis using bands_betweenD(3,4)[OF b(4) that] by simp
  qed
  have bm: "bands_between (ebs ! 2) tm" "bands_between (ebs ! 3) ts"
    using ltm tmi tsi bands_betweenD(1)[OF b(3)] bands_betweenD(1)[OF b(4)]
    by (simp_all add: bands_between_def)
  have "\<forall>t\<in>set thrs. n \<le> length t"
  proof
    fix t assume "t \<in> set thrs"
    then obtain chn where "chn < 4" "t = thrs ! chn" using len(2) by (auto simp: in_set_conv_nth)
    then show "n \<le> length t" using bb n(1) by (auto simp: bands_between_def)
  qed
  then have g: "list_all (\<lambda>t. n \<le> length t) thrs" by (simp add: list_all_iff)
  have e: "n \<le> length (ebs ! 2)" "n \<le> length (ebs ! 3)"
    using n(1) bands_betweenD(1)[OF b(3)] bands_betweenD(1)[OF b(4)] by simp_all
  have res: "vbrpsy_compute_MS_thresholds ebs thrs cb_mld ath_cb athlower msfix n
               = Some (thrs[2 := tm, 3 := ts])"
    using len n(2,3) e g by (simp add: vbrpsy_compute_MS_thresholds_def Let_def r_def tm_def ts_def)
  have "\<forall>chn<4. bands_between (ebs ! chn) (thrs[2 := tm, 3 := ts] ! chn)"
  proof (intro allI impI)
    fix chn :: nat assume c: "chn < 4"
    consider "chn = 2" | "chn = 3" | "chn \<noteq> 2" "chn \<noteq> 3" by blast
    then show "bands_between (ebs ! chn) (thrs[2 := tm, 3 := ts] ! chn)"
    proof cases
      case 1
      then show ?thesis using bm(1) len(2) by simp
    next
      case 2
      then show ?thesis using bm(2) len(2) by simp
    next
      case 3
      then show ?thesis using bb c by simp
    qed
  qed
  then show ?thesis using res len(2) by simp
qed

text \<open>The shape of the state and the property of its thresholds under the updates.\<close>

lemma psv_shapeD:
  assumes "psv_shape psv"
  shows "length (nb_l1 psv) = 4" "length (nb_l2 psv) = 4"
    "length (nb_s1 psv) = 4" "length (nb_s2 psv) = 4"
    "\<And>chn. chn < 4 \<Longrightarrow> length (nb_l1 psv ! chn) = CBANDS"
    "\<And>chn. chn < 4 \<Longrightarrow> length (nb_l2 psv ! chn) = CBANDS"
    "\<And>chn. chn < 4 \<Longrightarrow> length (nb_s1 psv ! chn) = CBANDS"
    "\<And>chn. chn < 4 \<Longrightarrow> length (nb_s2 psv ! chn) = CBANDS"
    "length (psv_en psv) = 4" "length (psv_thm psv) = 4"
    "\<And>chn. chn < 4 \<Longrightarrow> xmin_shape (psv_en psv ! chn)"
    "\<And>chn. chn < 4 \<Longrightarrow> xmin_shape (psv_thm psv ! chn)"
    "length (psv_blocktype_old psv) = 2" "length (last_attacks psv) = 4"
  using assms unfolding psv_shape_def list_all_length by simp_all

lemma list_all_update:
  assumes "list_all P xs" "P x"
  shows "list_all P (xs[i := x])"
proof (cases "i < length xs")
  case True
  then show ?thesis using assms unfolding list_all_length by (auto simp: nth_list_update)
next
  case False
  then have "xs[i := x] = xs" by (intro list_update_beyond) simp
  then show ?thesis using assms(1) by (simp only:)
qed

lemma psv_shape_nb_l:
  assumes "psv_shape psv" "length a = CBANDS" "length b = CBANDS"
  shows "psv_shape (psv\<lparr>nb_l1 := (nb_l1 psv)[chn := a], nb_l2 := (nb_l2 psv)[chn := b]\<rparr>)"
  using assms unfolding psv_shape_def by (simp add: list_all_update)

lemma psv_shape_nb_s:
  assumes "psv_shape psv" "length a = CBANDS" "length b = CBANDS"
  shows "psv_shape (psv\<lparr>nb_s1 := (nb_s1 psv)[chn := a], nb_s2 := (nb_s2 psv)[chn := b]\<rparr>)"
  using assms unfolding psv_shape_def by (simp add: list_all_update)

lemma psv_shape_nb_s2:
  assumes "psv_shape psv" "length b = CBANDS"
  shows "psv_shape (psv\<lparr>nb_s2 := (nb_s2 psv)[chn := b]\<rparr>)"
  using assms unfolding psv_shape_def by (simp add: list_all_update)

lemma psv_shape_xmin:
  assumes "psv_shape psv" "xmin_shape e" "xmin_shape t"
  shows "psv_shape (psv\<lparr>psv_en := (psv_en psv)[chn := e], psv_thm := (psv_thm psv)[chn := t]\<rparr>)"
  using assms unfolding psv_shape_def by (simp add: list_all_update)

lemma psv_shape_thm:
  assumes "psv_shape psv" "xmin_shape t"
  shows "psv_shape (psv\<lparr>psv_thm := (psv_thm psv)[chn := t]\<rparr>)"
  using assms unfolding psv_shape_def by (simp add: list_all_update)

lemma thresholds_betweenD:
  "thresholds_between n psv \<Longrightarrow> chn < n \<Longrightarrow> xmin_between (psv_thm psv ! chn) (psv_en psv ! chn)"
  by (simp add: thresholds_between_def list_all_iff)

lemma thresholds_between_update:
  assumes "thresholds_between n psv" "xmin_between t e"
    and "chn < length (psv_en psv)" "chn < length (psv_thm psv)"
  shows "thresholds_between n
           (psv\<lparr>psv_en := (psv_en psv)[chn := e], psv_thm := (psv_thm psv)[chn := t]\<rparr>)"
  using assms unfolding thresholds_between_def list_all_iff by (simp add: nth_list_update)

lemma thresholds_between_update_thm:
  assumes "thresholds_between n psv" "xmin_between t (psv_en psv ! chn)"
    and "chn < length (psv_thm psv)"
  shows "thresholds_between n (psv\<lparr>psv_thm := (psv_thm psv)[chn := t]\<rparr>)"
  using assms unfolding thresholds_between_def list_all_iff by (simp add: nth_list_update)

lemma xmin_betweenD:
  assumes "xmin_between t e"
  shows "\<And>sb. sb < SBMAX_l \<Longrightarrow> 0 \<le> xmin_l t ! sb \<and> xmin_l t ! sb \<le> xmin_l e ! sb"
    "\<And>sb k. sb < SBMAX_s \<Longrightarrow> k < 3
        \<Longrightarrow> 0 \<le> xmin_s t ! sb ! k \<and> xmin_s t ! sb ! k \<le> xmin_s e ! sb ! k"
  using assms unfolding xmin_between_def list_all_iff by simp_all

lemma xmin_betweenI:
  assumes "\<And>sb. sb < SBMAX_l \<Longrightarrow> 0 \<le> xmin_l t ! sb \<and> xmin_l t ! sb \<le> xmin_l e ! sb"
    "\<And>sb k. sb < SBMAX_s \<Longrightarrow> k < 3
        \<Longrightarrow> 0 \<le> xmin_s t ! sb ! k \<and> xmin_s t ! sb ! k \<le> xmin_s e ! sb ! k"
  shows "xmin_between t e"
  using assms unfolding xmin_between_def list_all_iff by simp

lemma vbr_state_invD:
  assumes "vbr_state_inv n b (ebs, thrs, psv)"
  shows "length ebs = 4" "length thrs = 4"
    "\<And>chn. chn < b \<Longrightarrow> bands_between (ebs ! chn) (thrs ! chn)"
    "psv_shape psv" "thresholds_between n psv"
  using assms unfolding vbr_state_inv_def by simp_all

lemma convert_bands_some:
  assumes ok: "psy_tables_ok l nsb" and bb: "bands_between eb thr"
  shows "\<exists>en thl. convert_loop l eb thr [0..<nsb] 0 0 0 ([], []) = Some (en, thl)
           \<and> length en = nsb \<and> length thl = nsb
           \<and> (\<forall>sb<nsb. 0 \<le> thl ! sb \<and> thl ! sb \<le> en ! sb)"
proof -
  note t = psy_tables_okD[OF ok]
  have "\<exists>en' thl'. convert_loop l eb thr [0..<nsb] 0 0 0 ([], []) = Some (en', thl')
           \<and> length en' = length ([]::real list) + length [0..<nsb]
           \<and> list_all2 (\<lambda>t e. 0 \<le> t \<and> t \<le> e) thl' en'"
  proof (rule convert_loop_some)
    show "\<forall>b<npart l. 0 \<le> thr ! b \<and> thr ! b \<le> eb ! b"
      using bands_betweenD(3,4)[OF bb] t(2) by simp
    show "npart l \<le> length eb" "npart l \<le> length thr"
      using bands_betweenD(1,2)[OF bb] t(2) by simp_all
    show "\<forall>sb\<in>set [0..<nsb]. sb < length (bo l) \<and> sb < length (bo_weight l)
                 \<and> 0 \<le> bo_weight l ! sb \<and> bo_weight l ! sb \<le> 1"
      using t(8,9,13) by auto
  qed simp_all
  then obtain en thl where c: "convert_loop l eb thr [0..<nsb] 0 0 0 ([], []) = Some (en, thl)"
      "length en = nsb" "list_all2 (\<lambda>t e. 0 \<le> t \<and> t \<le> e) thl en"
    by auto
  have "length thl = nsb" using c(2,3) by (simp add: list_all2_lengthD)
  moreover have "\<forall>sb<nsb. 0 \<le> thl ! sb \<and> thl ! sb \<le> en ! sb"
    using c(2,3) by (simp add: list_all2_conv_all_nth)
  ultimately show ?thesis using c(1,2) by blast
qed

lemma vbr_call_okD:
  assumes "vbr_call_ok h c uselong ns_attacks en_sub fftenergy fftenergy_s"
  shows "psy_tables_ok (cd_psy_l c) SBMAX_l" "psy_tables_ok (cd_psy_s c) SBMAX_s"
    "lines_used (cd_psy_l c) = HBLKSIZE" "lines_used (cd_psy_s c) = HBLKSIZE_s"
    "npart (cd_psy_l c) \<le> length (cb_l (gfc_ATH c))"
    "npart (cd_psy_s c) \<le> length (cb_s (gfc_ATH c))"
    "0 \<le> sv_qnt_masking_lower c"
    "0 \<le> NS_PREECHO_ATT0 h" "NS_PREECHO_ATT0 h \<le> 1" "0 \<le> NS_PREECHO_ATT2 h"
    "n_chn_psy c \<le> 4" "length uselong = 2"
    "length ns_attacks = 4" "\<And>chn. chn < 4 \<Longrightarrow> length (ns_attacks ! chn) = 4"
    "length en_sub = 4"
    "n_chn_psy c \<le> length fftenergy" "n_chn_psy c \<le> length fftenergy_s"
    "\<And>chn. chn < n_chn_psy c \<Longrightarrow> length (fftenergy ! chn) = HBLKSIZE
                      \<and> list_all (\<lambda>e. 0 \<le> e) (fftenergy ! chn)"
    "\<And>chn. chn < n_chn_psy c \<Longrightarrow> length (fftenergy_s ! chn) = 3"
    "\<And>chn k. chn < n_chn_psy c \<Longrightarrow> k < 3 \<Longrightarrow> length (fftenergy_s ! chn ! k) = HBLKSIZE_s
                      \<and> list_all (\<lambda>e. 0 \<le> e) (fftenergy_s ! chn ! k)"
  using assms unfolding vbr_call_ok_def list_all_length by simp_all

text \<open>The long blocks: each of the three steps keeps the invariant.\<close>

lemma vbr_long_chn_inv:
  assumes ok: "vbr_call_ok h c uselong ns_attacks en_sub fftenergy fftenergy_s"
    and chn: "chn < n_chn_psy c" and inv: "vbr_state_inv n chn st"
  shows "\<exists>st'. vbr_long_chn h c fftenergy chn st = Some st' \<and> vbr_state_inv n (Suc chn) st'"
proof -
  note k = vbr_call_okD[OF ok]
  note t = psy_tables_okD[OF k(1)]
  obtain ebs thrs psv where st: "st = (ebs, thrs, psv)" by (cases st) auto
  note i = vbr_state_invD[OF inv[unfolded st]]
  note s = psv_shapeD[OF i(4)]
  have c4: "chn < 4" using chn k(11) by simp
  have fl: "lines_used (cd_psy_l c) \<le> length (fftenergy ! chn)"
    using k(3) k(18)[OF chn] by simp
  have fp: "list_all (\<lambda>e. 0 \<le> e) (fftenergy ! chn)" using k(18)[OF chn] by simp
  have n1: "npart (cd_psy_l c) \<le> length (nb_l1 psv ! chn)"
       "npart (cd_psy_l c) \<le> length (nb_l2 psv ! chn)"
    using t(2) s(5,6)[OF c4] by simp_all
  obtain eb thr nb1 nb2 where m:
    "vbrpsy_compute_masking_l h (cd_psy_l c) (sv_qnt_masking_lower c)
        (psv_blocktype_old psv ! (chn mod 2)) (fftenergy ! chn) (nb_l1 psv ! chn) (nb_l2 psv ! chn)
       = Some (eb, thr, nb1, nb2)"
    "bands_between eb thr" "length nb1 = length (nb_l1 psv ! chn)"
    "length nb2 = length (nb_l2 psv ! chn)"
    using vbrpsy_compute_masking_l_some[OF k(1) fl fp k(7) k(10) n1] by blast
  let ?psv = "psv\<lparr>nb_l1 := (nb_l1 psv)[chn := nb1], nb_l2 := (nb_l2 psv)[chn := nb2]\<rparr>"
  have g: "chn < length fftenergy" "chn < length ebs" "chn < length thrs"
      "chn < length (nb_l1 psv)" "chn < length (nb_l2 psv)"
      "chn mod 2 < length (psv_blocktype_old psv)"
    using chn k(16) c4 i(1,2) s(1,2,13) by simp_all
  have r: "vbr_long_chn h c fftenergy chn st = Some (ebs[chn := eb], thrs[chn := thr], ?psv)"
    unfolding st vbr_long_chn_def using g m(1) by simp
  have sh: "psv_shape ?psv"
    using m(3,4) s(5,6)[OF c4] by (intro psv_shape_nb_l[OF i(4)]) simp_all
  have th: "thresholds_between n ?psv" using i(5) by (simp add: thresholds_between_def)
  have "\<forall>c'<Suc chn. bands_between (ebs[chn := eb] ! c') (thrs[chn := thr] ! c')"
  proof (intro allI impI)
    fix c' assume "c' < Suc chn"
    then show "bands_between (ebs[chn := eb] ! c') (thrs[chn := thr] ! c')"
      using m(2) i(3)[of c'] g(2,3) by (cases "c' = chn") simp_all
  qed
  then have "vbr_state_inv n (Suc chn) (ebs[chn := eb], thrs[chn := thr], ?psv)"
    using i(1,2) sh th by (simp add: vbr_state_inv_def)
  then show ?thesis using r by blast
qed

lemma vbr_ms_case_inv:
  assumes inv: "vbr_state_inv n n st" and j: "cfg_mode c = JOINT_STEREO \<longrightarrow> n = 4"
    and tab: "npart tables \<le> CBANDS" "npart tables \<le> length (mld_cb tables)"
      "npart tables \<le> length ath_cb"
  shows "\<exists>st'. vbr_ms_case c uselong both tables ath_cb st = Some st' \<and> vbr_state_inv n n st'"
proof -
  obtain ebs thrs psv where st: "st = (ebs, thrs, psv)" by (cases st) auto
  note i = vbr_state_invD[OF inv[unfolded st]]
  show ?thesis
  proof (cases "uselong ! 0 + uselong ! 1 = both \<and> cfg_mode c = JOINT_STEREO")
    case False
    then have "vbr_ms_case c uselong both tables ath_cb st = Some st"
      unfolding st vbr_ms_case_def by auto
    then show ?thesis using inv by blast
  next
    case True
    then have n4: "n = 4" using j by simp
    have bb: "\<forall>chn<4. bands_between (ebs ! chn) (thrs ! chn)" using i(3) n4 by simp
    obtain thrs' where m:
      "vbrpsy_compute_MS_thresholds ebs thrs (mld_cb tables) ath_cb (ath_factor c) (cfg_msfix c)
          (npart tables) = Some thrs'"
      "length thrs' = 4" "\<forall>chn<4. bands_between (ebs ! chn) (thrs' ! chn)"
      using vbrpsy_compute_MS_thresholds_some[OF i(1,2) bb tab] by blast
    have "vbr_ms_case c uselong both tables ath_cb st = Some (ebs, thrs', psv)"
      unfolding st vbr_ms_case_def using True m(1) by simp
    moreover have "vbr_state_inv n n (ebs, thrs', psv)"
      using i(1,4,5) m(2,3) n4 by (simp add: vbr_state_inv_def)
    ultimately show ?thesis by blast
  qed
qed

lemma xmin_between_long:
  assumes "xmin_between t e" "\<forall>sb<SBMAX_l. 0 \<le> thl ! sb \<and> thl ! sb \<le> en ! sb"
  shows "xmin_between (t\<lparr>xmin_l := thl\<rparr>) (e\<lparr>xmin_l := en\<rparr>)"
  using assms unfolding xmin_between_def list_all_iff by simp

lemma vbr_convert_l_chn_inv:
  assumes okl: "psy_tables_ok (cd_psy_l c) SBMAX_l" and chn: "chn < n" "n \<le> 4"
    and inv: "vbr_state_inv n n st"
  shows "\<exists>st'. vbr_convert_l_chn c uselong chn st = Some st' \<and> vbr_state_inv n n st'"
proof -
  obtain ebs thrs psv where st: "st = (ebs, thrs, psv)" by (cases st) auto
  note i = vbr_state_invD[OF inv[unfolded st]]
  note s = psv_shapeD[OF i(4)]
  have c4: "chn < 4" using chn by simp
  show ?thesis
  proof (cases "uselong ! (chn mod 2) \<noteq> 0")
    case False
    then have "vbr_convert_l_chn c uselong chn st = Some st"
      unfolding st vbr_convert_l_chn_def by simp
    then show ?thesis using inv by blast
  next
    case True
    obtain en thl where cv:
      "convert_loop (cd_psy_l c) (ebs ! chn) (thrs ! chn) [0..<SBMAX_l] 0 0 0 ([], [])
         = Some (en, thl)"
      "length en = SBMAX_l" "length thl = SBMAX_l"
      "\<forall>sb<SBMAX_l. 0 \<le> thl ! sb \<and> thl ! sb \<le> en ! sb"
      using convert_bands_some[OF okl i(3)[OF chn(1)]] by blast
    let ?e = "(psv_en psv ! chn)\<lparr>xmin_l := en\<rparr>" and ?t = "(psv_thm psv ! chn)\<lparr>xmin_l := thl\<rparr>"
    let ?psv = "psv\<lparr>psv_en := (psv_en psv)[chn := ?e], psv_thm := (psv_thm psv)[chn := ?t]\<rparr>"
    have g: "chn < length ebs" "chn < length thrs" "chn < length (psv_en psv)"
        "chn < length (psv_thm psv)"
      using c4 i(1,2) s(9,10) by simp_all
    have r: "vbr_convert_l_chn c uselong chn st = Some (ebs, thrs, ?psv)"
      unfolding st vbr_convert_l_chn_def using True g cv(1)
      by (simp add: convert_partition2scalefac_l_def)
    have she: "xmin_shape ?e" using s(11)[OF c4] cv(2) by (simp add: xmin_shape_def)
    have sht: "xmin_shape ?t" using s(12)[OF c4] cv(3) by (simp add: xmin_shape_def)
    have sh: "psv_shape ?psv" by (rule psv_shape_xmin[OF i(4) she sht])
    have xb: "xmin_between ?t ?e"
      by (rule xmin_between_long[OF thresholds_betweenD[OF i(5) chn(1)] cv(4)])
    have th: "thresholds_between n ?psv" by (rule thresholds_between_update[OF i(5) xb g(3,4)])
    have "vbr_state_inv n n (ebs, thrs, ?psv)"
      using i(1,2,3) sh th by (simp add: vbr_state_inv_def)
    then show ?thesis using r by blast
  qed
qed

text \<open>The short blocks.\<close>

lemma for_loop_invariant:
  assumes "P v" and "\<And>i v. i < hi \<Longrightarrow> P v \<Longrightarrow> \<exists>v'. body i v = Some v' \<and> P v'"
  shows "\<exists>v'. for_loop body [0..<hi] v = Some v' \<and> P v'"
  using for_loop_upt_invariant[where P = "\<lambda>i. P" and lo = 0 and hi = hi and v = v and body = body]
    assms
  by simp

lemma vbr_short_chn_inv:
  assumes ok: "vbr_call_ok h c uselong ns_attacks en_sub fftenergy fftenergy_s"
    and chn: "chn < n_chn_psy c" and sb: "sblock < 3" and inv: "vbr_state_inv n n st"
  shows "\<exists>st'. vbr_short_chn c uselong fftenergy_s sblock chn st = Some st'
           \<and> vbr_state_inv n n st'"
proof -
  note k = vbr_call_okD[OF ok]
  note t = psy_tables_okD[OF k(2)]
  obtain ebs thrs psv where st: "st = (ebs, thrs, psv)" by (cases st) auto
  note i = vbr_state_invD[OF inv[unfolded st]]
  note s = psv_shapeD[OF i(4)]
  have c4: "chn < 4" using chn k(11) by simp
  have n1: "npart (cd_psy_s c) \<le> length (nb_s1 psv ! chn)"
       "npart (cd_psy_s c) \<le> length (nb_s2 psv ! chn)"
    using t(2) s(7,8)[OF c4] by simp_all
  have g: "chn < length fftenergy_s" "sblock < length (fftenergy_s ! chn)"
      "chn < length ebs" "chn < length thrs" "chn < length (nb_s1 psv)" "chn < length (nb_s2 psv)"
    using chn k(17) k(19)[OF chn] sb c4 i(1,2) s(3,4) by simp_all
  show ?thesis
  proof (cases "uselong ! (chn mod 2) \<noteq> 0")
    case True
    show ?thesis
    proof (cases "sblock = 0")
      case False
      then have "vbr_short_chn c uselong fftenergy_s sblock chn st = Some st"
        unfolding st vbr_short_chn_def vbrpsy_skip_masking_s_def using True by simp
      then show ?thesis using inv by blast
    next
      case z: True
      let ?row = "take (npart (cd_psy_s c)) (nb_s1 psv ! chn)
                    @ drop (npart (cd_psy_s c)) (nb_s2 psv ! chn)"
      let ?psv = "psv\<lparr>nb_s2 := (nb_s2 psv)[chn := ?row]\<rparr>"
      have r: "vbr_short_chn c uselong fftenergy_s sblock chn st = Some (ebs, thrs, ?psv)"
        unfolding st vbr_short_chn_def vbrpsy_skip_masking_s_def using True z g(5,6) n1 by simp
      have "length ?row = CBANDS" using n1 s(7,8)[OF c4] by simp
      then have sh: "psv_shape ?psv" by (rule psv_shape_nb_s2[OF i(4)])
      have th: "thresholds_between n ?psv" using i(5) by (simp add: thresholds_between_def)
      have "vbr_state_inv n n (ebs, thrs, ?psv)"
        using i(1,2,3) sh th by (simp add: vbr_state_inv_def)
      then show ?thesis using r by blast
    qed
  next
    case False
    have fl: "length (fftenergy_s ! chn ! sblock) = HBLKSIZE_s"
      and fp: "list_all (\<lambda>e. 0 \<le> e) (fftenergy_s ! chn ! sblock)"
      using k(20)[OF chn sb] by simp_all
    obtain eb thr nb1 nb2 where m:
      "vbrpsy_compute_masking_s (cd_psy_s c) (sv_qnt_masking_lower c)
          (fftenergy_s ! chn ! sblock) (nb_s1 psv ! chn) (nb_s2 psv ! chn)
         = Some (eb, thr, nb1, nb2)"
      "bands_between eb thr" "length nb1 = length (nb_s1 psv ! chn)"
      "length nb2 = length (nb_s2 psv ! chn)"
      using vbrpsy_compute_masking_s_some[OF k(2) k(4) fl fp k(7) n1] by blast
    let ?psv = "psv\<lparr>nb_s1 := (nb_s1 psv)[chn := nb1], nb_s2 := (nb_s2 psv)[chn := nb2]\<rparr>"
    have r: "vbr_short_chn c uselong fftenergy_s sblock chn st
               = Some (ebs[chn := eb], thrs[chn := thr], ?psv)"
      unfolding st vbr_short_chn_def using False g m(1) by simp
    have sh: "psv_shape ?psv"
      using m(3,4) s(7,8)[OF c4] by (intro psv_shape_nb_s[OF i(4)]) simp_all
    have th: "thresholds_between n ?psv" using i(5) by (simp add: thresholds_between_def)
    have "\<forall>c'<n. bands_between (ebs[chn := eb] ! c') (thrs[chn := thr] ! c')"
    proof (intro allI impI)
      fix c' assume "c' < n"
      then show "bands_between (ebs[chn := eb] ! c') (thrs[chn := thr] ! c')"
        using m(2) i(3)[of c'] g(3,4) by (cases "c' = chn") simp_all
    qed
    then have "vbr_state_inv n n (ebs[chn := eb], thrs[chn := thr], ?psv)"
      using i(1,2) sh th by (simp add: vbr_state_inv_def)
    then show ?thesis using r by blast
  qed
qed

lemma xmin_shapeD:
  assumes "xmin_shape x"
  shows "length (xmin_l x) = SBMAX_l" "length (xmin_s x) = SBMAX_s"
    "\<And>sb. sb < SBMAX_s \<Longrightarrow> length (xmin_s x ! sb) = 3"
  using assms unfolding xmin_shape_def list_all_length by simp_all

lemma store_short_nth:
  assumes "sb < SBMAX_s" "k < length (rows ! sb)"
  shows "store_short rows sblock vals ! sb ! k = (if k = sblock then vals ! sb else rows ! sb ! k)"
  using assms by (simp add: store_short_def nth_list_update)

lemma xmin_shape_store:
  assumes "xmin_shape x"
  shows "xmin_shape (x\<lparr>xmin_s := store_short (xmin_s x) sblock vals\<rparr>)"
  using xmin_shapeD[OF assms] unfolding xmin_shape_def list_all_length
  by (simp add: store_short_def)

lemma xmin_between_short:
  assumes b: "xmin_between t e" and sh: "xmin_shape t" "xmin_shape e"
    and v: "\<forall>sb<SBMAX_s. 0 \<le> ths ! sb \<and> ths ! sb \<le> en ! sb"
  shows "xmin_between (t\<lparr>xmin_s := store_short (xmin_s t) sblock ths\<rparr>)
           (e\<lparr>xmin_s := store_short (xmin_s e) sblock en\<rparr>)"
proof (rule xmin_betweenI)
  fix sb assume "sb < SBMAX_l"
  then show "0 \<le> xmin_l (t\<lparr>xmin_s := store_short (xmin_s t) sblock ths\<rparr>) ! sb
      \<and> xmin_l (t\<lparr>xmin_s := store_short (xmin_s t) sblock ths\<rparr>) ! sb
          \<le> xmin_l (e\<lparr>xmin_s := store_short (xmin_s e) sblock en\<rparr>) ! sb"
    using xmin_betweenD(1)[OF b] by simp
next
  fix sb k :: nat assume a: "sb < SBMAX_s" "k < 3"
  have l: "k < length (xmin_s t ! sb)" "k < length (xmin_s e ! sb)"
    using xmin_shapeD(3)[OF sh(1) a(1)] xmin_shapeD(3)[OF sh(2) a(1)] a(2) by simp_all
  show "0 \<le> xmin_s (t\<lparr>xmin_s := store_short (xmin_s t) sblock ths\<rparr>) ! sb ! k
      \<and> xmin_s (t\<lparr>xmin_s := store_short (xmin_s t) sblock ths\<rparr>) ! sb ! k
          \<le> xmin_s (e\<lparr>xmin_s := store_short (xmin_s e) sblock en\<rparr>) ! sb ! k"
    using xmin_betweenD(2)[OF b a] v a(1)
    by (simp add: store_short_nth[OF a(1) l(1)] store_short_nth[OF a(1) l(2)])
qed

lemma vbr_convert_s_chn_inv:
  assumes oks: "psy_tables_ok (cd_psy_s c) SBMAX_s" and chn: "chn < n" "n \<le> 4"
    and sb: "sblock < 3" and inv: "vbr_state_inv n n st"
  shows "\<exists>st'. vbr_convert_s_chn c uselong sblock chn st = Some st' \<and> vbr_state_inv n n st'"
proof -
  obtain ebs thrs psv where st: "st = (ebs, thrs, psv)" by (cases st) auto
  note i = vbr_state_invD[OF inv[unfolded st]]
  note s = psv_shapeD[OF i(4)]
  have c4: "chn < 4" using chn by simp
  show ?thesis
  proof (cases "uselong ! (chn mod 2) = 0")
    case False
    then have "vbr_convert_s_chn c uselong sblock chn st = Some st"
      unfolding st vbr_convert_s_chn_def by simp
    then show ?thesis using inv by blast
  next
    case True
    obtain en ths where cv:
      "convert_loop (cd_psy_s c) (ebs ! chn) (thrs ! chn) [0..<SBMAX_s] 0 0 0 ([], [])
         = Some (en, ths)"
      "length en = SBMAX_s" "length ths = SBMAX_s"
      "\<forall>sb<SBMAX_s. 0 \<le> ths ! sb \<and> ths ! sb \<le> en ! sb"
      using convert_bands_some[OF oks i(3)[OF chn(1)]] by blast
    let ?e = "(psv_en psv ! chn)\<lparr>xmin_s := store_short (xmin_s (psv_en psv ! chn)) sblock en\<rparr>"
    let ?t = "(psv_thm psv ! chn)\<lparr>xmin_s := store_short (xmin_s (psv_thm psv ! chn)) sblock ths\<rparr>"
    let ?psv = "psv\<lparr>psv_en := (psv_en psv)[chn := ?e], psv_thm := (psv_thm psv)[chn := ?t]\<rparr>"
    note se = xmin_shapeD[OF s(11)[OF c4]] and sm = xmin_shapeD[OF s(12)[OF c4]]
    have g: "chn < length ebs" "chn < length thrs" "chn < length (psv_en psv)"
        "chn < length (psv_thm psv)"
        "SBMAX_s \<le> length (xmin_s (psv_en psv ! chn))"
        "SBMAX_s \<le> length (xmin_s (psv_thm psv ! chn))"
      using c4 i(1,2) s(9,10) se(2) sm(2) by simp_all
    have g2: "list_all (\<lambda>row. sblock < length row) (xmin_s (psv_en psv ! chn))"
        "list_all (\<lambda>row. sblock < length row) (xmin_s (psv_thm psv ! chn))"
      using se(2,3) sm(2,3) sb unfolding list_all_length by simp_all
    have r: "vbr_convert_s_chn c uselong sblock chn st = Some (ebs, thrs, ?psv)"
      unfolding st vbr_convert_s_chn_def using True g g2 cv(1)
      by (simp add: convert_partition2scalefac_s_def)
    have sh: "psv_shape ?psv"
      by (rule psv_shape_xmin[OF i(4) xmin_shape_store[OF s(11)[OF c4]]
            xmin_shape_store[OF s(12)[OF c4]]])
    have xb: "xmin_between ?t ?e"
      by (rule xmin_between_short[OF thresholds_betweenD[OF i(5) chn(1)] s(12)[OF c4]
            s(11)[OF c4] cv(4)])
    have th: "thresholds_between n ?psv" by (rule thresholds_between_update[OF i(5) xb g(3,4)])
    have "vbr_state_inv n n (ebs, thrs, ?psv)"
      using i(1,2,3) sh th by (simp add: vbr_state_inv_def)
    then show ?thesis using r by blast
  qed
qed

lemma vbr_short_sblock_inv:
  assumes ok: "vbr_call_ok h c uselong ns_attacks en_sub fftenergy fftenergy_s"
    and sb: "sblock < 3" and inv: "vbr_state_inv (n_chn_psy c) (n_chn_psy c) st"
  shows "\<exists>st'. vbr_short_sblock c uselong fftenergy_s sblock st = Some st'
           \<and> vbr_state_inv (n_chn_psy c) (n_chn_psy c) st'"
proof -
  note k = vbr_call_okD[OF ok]
  note t = psy_tables_okD[OF k(2)]
  obtain st1 where s1:
    "for_loop (vbr_short_chn c uselong fftenergy_s sblock) [0..<n_chn_psy c] st = Some st1"
    "vbr_state_inv (n_chn_psy c) (n_chn_psy c) st1"
    using for_loop_invariant[where P = "vbr_state_inv (n_chn_psy c) (n_chn_psy c)"
        and body = "vbr_short_chn c uselong fftenergy_s sblock", OF inv]
      vbr_short_chn_inv[OF ok _ sb]
    by blast
  have j: "cfg_mode c = JOINT_STEREO \<longrightarrow> n_chn_psy c = 4" by (simp add: n_chn_psy_def)
  obtain st2 where s2:
    "vbr_ms_case c uselong 0 (cd_psy_s c) (cb_s (gfc_ATH c)) st1 = Some st2"
    "vbr_state_inv (n_chn_psy c) (n_chn_psy c) st2"
    using vbr_ms_case_inv[OF s1(2) j t(2) t(14) k(6)] by blast
  obtain st3 where s3:
    "for_loop (vbr_convert_s_chn c uselong sblock) [0..<n_chn_psy c] st2 = Some st3"
    "vbr_state_inv (n_chn_psy c) (n_chn_psy c) st3"
    using for_loop_invariant[where P = "vbr_state_inv (n_chn_psy c) (n_chn_psy c)"
        and body = "vbr_convert_s_chn c uselong sblock", OF s2(2)]
      vbr_convert_s_chn_inv[OF k(2) _ k(11) sb]
    by blast
  show ?thesis using s1(1) s2(1) s3 by (simp add: vbr_short_sblock_def)
qed

text \<open>
  The pre-echo control of the short blocks lowers a threshold or leaves it: the factor
  \<^verbatim>\<open>NS_PREECHO_ATT0\<close> is at most 1, the interpolated value enters through a minimum, and the
  factor for pulse-like signals is 1, a half or a quarter.
\<close>

lemma NS_INTERP_nonneg: "0 \<le> x \<Longrightarrow> 0 \<le> y \<Longrightarrow> 0 \<le> NS_INTERP x y r"
  by (simp add: NS_INTERP_def)

lemma Min_c_le: "Min_c a b \<le> a"
  by (simp add: Min_c_def)

lemma sub_short_factor_of_between:
  "0 \<le> sub_short_factor_of es i \<and> sub_short_factor_of es i \<le> 1"
  by (simp add: sub_short_factor_of_def Let_def)

lemma vbr_pre_echo_s_between:
  assumes row: "\<forall>k<3. 0 \<le> row ! k" and sb: "sblock < 3"
    and att: "0 \<le> NS_PREECHO_ATT0 h" "NS_PREECHO_ATT0 h \<le> 1"
    and f: "0 \<le> factors ! sblock" "factors ! sblock \<le> 1"
  shows "0 \<le> vbr_pre_echo_s h ns_att last_att factors row sblock
       \<and> vbr_pre_echo_s h ns_att last_att factors row sblock \<le> row ! sblock"
proof -
  define thmm where "thmm = row ! sblock * NS_PREECHO_ATT0 h"
  define p1 where "p1 = NS_INTERP (row ! (if sblock \<noteq> 0 then sblock - 1 else 2)) thmm
                                (NS_PREECHO_ATT1 h * 0.6)"
  define p2 where "p2 = NS_INTERP (row ! (if sblock \<noteq> 0 then sblock - 1 else 2)) thmm
                                (NS_PREECHO_ATT2 h * 0.6)"
  define p3 where "p3 = NS_INTERP (row ! (if sblock \<noteq> 2 then sblock + 1 else 0)) thmm
                                (NS_PREECHO_ATT2 h * 0.6)"
  define thmm1 where "thmm1 =
            (if ns_att ! sblock \<ge> 2 \<or> ns_att ! (sblock + 1) = 1 then Min_c thmm p1
             else if ns_att ! sblock = 1 then Min_c thmm p2
             else if (sblock \<noteq> 0 \<and> ns_att ! (sblock - 1) = 3) \<or> (sblock = 0 \<and> last_att = 3)
             then Min_c thmm p3 else thmm)"
  have eq: "vbr_pre_echo_s h ns_att last_att factors row sblock = thmm1 * factors ! sblock"
    unfolding vbr_pre_echo_s_def Let_def thmm1_def p1_def p2_def p3_def thmm_def by (rule refl)
  have r: "0 \<le> row ! sblock" using row sb by simp
  have t0: "0 \<le> thmm" using r att(1) by (simp add: thmm_def)
  have t1: "thmm \<le> row ! sblock"
    using mult_left_mono[OF att(2) r] by (simp add: thmm_def)
  have i1: "(if sblock \<noteq> 0 then sblock - 1 else 2) < 3" using sb by auto
  have i2: "(if sblock \<noteq> 2 then sblock + 1 else 0) < 3" using sb by auto
  have r1: "0 \<le> row ! (if sblock \<noteq> 0 then sblock - 1 else 2)" using row i1 by blast
  have r2: "0 \<le> row ! (if sblock \<noteq> 2 then sblock + 1 else 0)" using row i2 by blast
  have p: "0 \<le> p1" "0 \<le> p2" "0 \<le> p3"
    unfolding p1_def p2_def p3_def
    using NS_INTERP_nonneg[OF r1 t0] NS_INTERP_nonneg[OF r2 t0] by simp_all
  have m0: "0 \<le> thmm1"
    unfolding thmm1_def using t0 p by (simp add: Min_c_nonneg)
  have m1: "thmm1 \<le> thmm"
    unfolding thmm1_def by (simp add: Min_c_le)
  have "thmm1 * factors ! sblock \<le> thmm1 * 1" using f(2) m0 by (rule mult_left_mono)
  then have "thmm1 * factors ! sblock \<le> row ! sblock" using m1 t1 by simp
  moreover have "0 \<le> thmm1 * factors ! sblock" using m0 f(1) by simp
  ultimately show ?thesis unfolding eq by simp
qed

lemma vbr_pre_echo_chn_inv:
  assumes ok: "vbr_call_ok h c uselong ns_attacks en_sub fftenergy fftenergy_s"
    and chn: "chn < n_chn_psy c"
    and inv: "psv_shape psv \<and> thresholds_between (n_chn_psy c) psv"
  shows "\<exists>psv'. vbr_pre_echo_chn h uselong ns_attacks
                   (map (\<lambda>es. map (sub_short_factor_of es) [0..<3]) en_sub) chn psv = Some psv'
           \<and> (psv_shape psv' \<and> thresholds_between (n_chn_psy c) psv')"
proof (cases "uselong ! (chn mod 2) \<noteq> 0")
  case True
  then show ?thesis using inv by (simp add: vbr_pre_echo_chn_def)
next
  case False
  note k = vbr_call_okD[OF ok]
  have sh: "psv_shape psv" and th: "thresholds_between (n_chn_psy c) psv" using inv by simp_all
  note s = psv_shapeD[OF sh]
  have c4: "chn < 4" using chn k(11) by simp
  note sm = xmin_shapeD[OF s(12)[OF c4]]
  let ?ssf = "map (\<lambda>es. map (sub_short_factor_of es) [0..<3]) en_sub"
  let ?T = "psv_thm psv ! chn"
  let ?rows = "map (\<lambda>sb. map (vbr_pre_echo_s h (ns_attacks ! chn) (last_attacks psv ! chn)
                                (?ssf ! chn) (xmin_s ?T ! sb)) [0..<3]) [0..<SBMAX_s]"
  let ?t = "?T\<lparr>xmin_s := ?rows\<rparr>"
  let ?psv = "psv\<lparr>psv_thm := (psv_thm psv)[chn := ?t]\<rparr>"
  have fk: "?ssf ! chn ! k = sub_short_factor_of (en_sub ! chn) k" if "k < 3" for k
    using that c4 k(15) by simp
  have g: "chn < length ns_attacks" "length (ns_attacks ! chn) = 4" "chn < length ?ssf"
      "length (?ssf ! chn) = 3" "chn < length (last_attacks psv)" "chn < length (psv_thm psv)"
      "SBMAX_s \<le> length (xmin_s ?T)"
    using c4 k(13,15) k(14)[OF c4] s(10,14) sm(2) by simp_all
  have g2: "list_all (\<lambda>row. length row = 3) (xmin_s ?T)"
    using sm(2,3) unfolding list_all_length by simp
  have r: "vbr_pre_echo_chn h uselong ns_attacks ?ssf chn psv = Some ?psv"
    unfolding vbr_pre_echo_chn_def using False g g2 by simp
  have sht: "xmin_shape ?t"
    using sm(1) unfolding xmin_shape_def list_all_length by simp
  have shp: "psv_shape ?psv" by (rule psv_shape_thm[OF sh sht])
  note b = xmin_betweenD[OF thresholds_betweenD[OF th chn]]
  have xb: "xmin_between ?t (psv_en psv ! chn)"
  proof (rule xmin_betweenI)
    fix sb assume "sb < SBMAX_l"
    then show "0 \<le> xmin_l ?t ! sb \<and> xmin_l ?t ! sb \<le> xmin_l (psv_en psv ! chn) ! sb"
      using b(1) by simp
  next
    fix sb kk :: nat assume a: "sb < SBMAX_s" "kk < 3"
    have row: "\<forall>j<3. 0 \<le> xmin_s ?T ! sb ! j" using b(2)[OF a(1)] by blast
    have f: "0 \<le> ?ssf ! chn ! kk" "?ssf ! chn ! kk \<le> 1"
      using sub_short_factor_of_between[of "en_sub ! chn" kk] fk[OF a(2)] by simp_all
    have v: "xmin_s ?t ! sb ! kk
               = vbr_pre_echo_s h (ns_attacks ! chn) (last_attacks psv ! chn) (?ssf ! chn)
                   (xmin_s ?T ! sb) kk"
      using a by simp
    have "0 \<le> xmin_s ?t ! sb ! kk \<and> xmin_s ?t ! sb ! kk \<le> xmin_s ?T ! sb ! kk"
      unfolding v by (rule vbr_pre_echo_s_between[OF row a(2) k(8,9) f])
    then show "0 \<le> xmin_s ?t ! sb ! kk
        \<and> xmin_s ?t ! sb ! kk \<le> xmin_s (psv_en psv ! chn) ! sb ! kk"
      using b(2)[OF a] by linarith
  qed
  have "thresholds_between (n_chn_psy c) ?psv"
    by (rule thresholds_between_update_thm[OF th xb g(6)])
  then show ?thesis using r shp by blast
qed

text \<open>The example, step by step: energies and masking indices of the long block.\<close>

lemma fold_energy_zeros:
  "0 \<le> m \<Longrightarrow> fold (\<lambda>el (ebb, m). (ebb + el, if m < el then el else m)) (replicate n 0)
                 (e :: real, m :: real) = (e, m)"
  by (induction n) simp_all

lemma energy_of_lines_tail:
  assumes "0 \<le> x"
  shows "energy_of_lines (x # replicate n 0) = Some (x, x)"
proof -
  have "\<not> list_ex (\<lambda>el. \<not> 0 \<le> el) (x # replicate n (0::real))"
    using assms by (simp add: list_ex_iff)
  then show ?thesis using assms
    by (simp add: energy_of_lines_def fold_energy_zeros del: fold_replicate)
qed

lemma energy_of_lines_single:
  "0 \<le> x \<Longrightarrow> energy_of_lines [x] = Some (x, x)"
  using energy_of_lines_tail[of x 0] by simp

lemma example_lines:
  "take (Suc 0) example_fftenergy = 1000 # replicate 0 0"
  "take 512 (drop (Suc 0) example_fftenergy) = 1 # replicate 511 0"
  by (simp_all add: example_fftenergy_def)

lemma example_energy:
  "calc_energy example_tables example_fftenergy = Some ([1000, 1], [1000, 1], [1000, 1 / 512])"
proof -
  have t: "npart example_tables = 2" "numlines example_tables = [1, 512]"
      "rnumlines example_tables = [1, 1 / 512]"
    by (simp_all add: example_tables_def)
  have l: "length example_fftenergy = 513" by (simp add: example_fftenergy_def)
  show ?thesis
    unfolding calc_energy_def t(1)
    by (simp add: upt_rec t(2,3) l example_lines energy_of_lines_tail energy_of_lines_single)
qed

lemma example_mask_index:
  "calc_mask_index_l example_tables [1000, 1] [1000, 1 / 512] = Some [0, 0]"
  by (simp add: calc_mask_index_l_def example_tables_def mask_index_of_def c_int_def
      last_tab_entry_def tab_def Let_def)

lemma replicate_20:
  "replicate 20 x = [x, x, x, x, x, x, x, x, x, x, x, x, x, x, x, x, x, x, x, x]"
  by (simp add: numeral_eq_Suc)

text \<open>
  The same long-block energies in the variable-bitrate analyzer: the threshold of the second
  scalefactor band is 0.25.
\<close>

lemma ma_max_i1_le: "ma_max_i1 \<le> 10"
proof -
  have "(10::real) powr (9 / 16) \<le> 10 powr 1" by (rule powr_mono) simp_all
  then show ?thesis by (simp add: ma_max_i1_def I1LIMIT_def)
qed

lemma example_vbr_mask_add:
  assumes "- 2 \<le> b" "b \<le> 2"
  shows "vbrpsy_mask_add 1000 1 b = Some 1001"
proof -
  have "ma_max_i1 \<le> 1000 / 1" using ma_max_i1_le by simp
  then show ?thesis using assms by (simp add: vbrpsy_mask_add_def Let_def)
qed

lemma example_vbr_spread:
  "vbr_spread example_tables [1000, 1] [0, 0] 0 0 = Some (1001, 0, 2, 2)"
  "vbr_spread example_tables [1000, 1] [0, 0] (Suc 0) 2 = Some (1001, 0, 2, 4)"
  by (simp_all add: vbr_spread_def vbr_spread_step_def example_tables_def tab_def upt_rec
      example_vbr_mask_add)

lemma example_vbr_steps:
  "for_loop (vbr_masking_step (vbr_pre_echo example_header NORM_TYPE) example_tables 1
       [1000, 1] [1000, 1] [0, 0]) [0..<2] (0, [], example_nb, example_nb)
   = Some (4, [500, 1 / 2], (example_nb[0 := 1001 / 2])[1 := 1001 / 2],
           (example_nb[0 := 10 ^ 20])[1 := 10 ^ 20])"
proof -
  have f: "minval example_tables = [1, 1]" "masking_lower example_tables = [1, 1]"
    by (simp_all add: example_tables_def)
  show ?thesis
    by (simp add: upt_rec vbr_masking_step_def example_vbr_spread example_header_def
        example_nb_def vbr_pre_echo_def vbr_limit_thr_def Min_c_def Let_def tab_def f)
qed

lemma example_vbr_long:
  "vbrpsy_compute_masking_l example_header example_tables 1 NORM_TYPE example_fftenergy
       example_nb example_nb
     = Some ([1000, 1] @ replicate 62 0, [500, 1 / 2] @ replicate 62 0,
             (example_nb[0 := 1001 / 2])[1 := 1001 / 2], (example_nb[0 := 10 ^ 20])[1 := 10 ^ 20])"
  "convert_partition2scalefac_l example_tables ([1000, 1] @ replicate 62 0)
       ([500, 1 / 2] @ replicate 62 0)
     = Some ([2001 / 2, 1 / 2] @ replicate 20 0, [2001 / 4, 1 / 4] @ replicate 20 0)"
proof -
  have n: "npart example_tables = 2" by (simp add: example_tables_def)
  show "vbrpsy_compute_masking_l example_header example_tables 1 NORM_TYPE example_fftenergy
       example_nb example_nb
     = Some ([1000, 1] @ replicate 62 0, [500, 1 / 2] @ replicate 62 0,
             (example_nb[0 := 1001 / 2])[1 := 1001 / 2], (example_nb[0 := 10 ^ 20])[1 := 10 ^ 20])"
    unfolding vbrpsy_compute_masking_l_def n
    using example_energy example_mask_index example_vbr_steps
    by (simp add: CBANDS_def)
  show "convert_partition2scalefac_l example_tables ([1000, 1] @ replicate 62 0)
       ([500, 1 / 2] @ replicate 62 0)
     = Some ([2001 / 2, 1 / 2] @ replicate 20 0, [2001 / 4, 1 / 4] @ replicate 20 0)"
    by (simp add: convert_partition2scalefac_l_def SBMAX_l_def upt_rec
        example_tables_def Let_def replicate_20)
qed

text \<open>The same energies in the constant-bitrate analyzer.\<close>

lemma ma_max_i2_le: "ma_max_i2 \<le> 100"
proof -
  have "(10::real) powr (24 / 16) \<le> 10 powr 2" by (rule powr_mono) simp_all
  then show ?thesis by (simp add: ma_max_i2_def I2LIMIT_def)
qed

lemma example_mask_add:
  "mask_add 1000 1 kk b ath = Some 1001"
proof -
  have "(1000 :: real) \<ge> 1 * ma_max_i2" using ma_max_i2_le by simp
  then show ?thesis by (simp add: mask_add_def)
qed

lemma example_ns_spread:
  "ns_spread example_tables example_ath [1000, 1] [0, 0] 0 0 = Some (1001, 2)"
  "ns_spread example_tables example_ath [1000, 1] [0, 0] (Suc 0) 2 = Some (1001, 4)"
  by (simp_all add: ns_spread_def ns_spread_step_def example_tables_def tab_def upt_rec
      example_mask_add)

lemma example_ns_steps:
  "for_loop (ns_masking_l_step example_header example_tables example_ath (6 / 10) NORM_TYPE
       [1000, 1] [0, 0]) [0..<2] (0, [], example_nb, example_nb)
   = Some (4, [1001 * 0.158489319246111, 1001 * 0.158489319246111],
           (example_nb[0 := 1001 * 0.158489319246111])[1 := 1001 * 0.158489319246111],
           (example_nb[0 := 10 ^ 20])[1 := 10 ^ 20])"
  by (simp add: upt_rec ns_masking_l_step_def example_ns_spread example_header_def
      example_nb_def NS_INTERP_def Min_c_def Let_def)

text \<open>
  The state that \<^verbatim>\<open>psymodel_init\<close> makes has the shape and the property: every energy and
  every threshold is \<open>10\<^sup>2\<^sup>0\<close>.
\<close>

lemma psymodel_init_thresholds_between:
  "psv_shape (psymodel_init False psv) \<and> thresholds_between 4 (psymodel_init False psv)"
  by (simp add: psymodel_init_def psv_shape_def xmin_shape_def thresholds_between_def
      xmin_between_def list_all_iff)

text \<open>
  Claim C1, as the code has it in \<^verbatim>\<open>L3psycho_anal_vbr\<close>. With tables as \<^verbatim>\<open>psymodel_init\<close>
  provides them and FFT energies that are not negative, for whatever block types and attacks
  the detection has found, the analysis of a granule returns, and it keeps the property that
  in every scalefactor band of every analyzed channel (left, right, mid and side), for long
  blocks and for each of the three short blocks, the threshold in \<^verbatim>\<open>psv->thm[chn]\<close> is at least 0
  and at most the energy in \<^verbatim>\<open>psv->en[chn]\<close>. The state that \<^verbatim>\<open>psymodel_init\<close> makes has the
  property, so it holds after every granule.
\<close>

theorem vbr_thresholds_between:
  assumes ok: "vbr_call_ok h c uselong ns_attacks en_sub fftenergy fftenergy_s"
    and sh: "psv_shape psv" and th: "thresholds_between (n_chn_psy c) psv"
  shows "\<exists>psv'. L3psycho_anal_vbr_thresholds h c uselong ns_attacks en_sub fftenergy fftenergy_s psv
                  = Some psv'
           \<and> psv_shape psv' \<and> thresholds_between (n_chn_psy c) psv'"
proof -
  note k = vbr_call_okD[OF ok]
  note tl = psy_tables_okD[OF k(1)]
  let ?n = "n_chn_psy c"
  have j: "cfg_mode c = JOINT_STEREO \<longrightarrow> ?n = 4" by (simp add: n_chn_psy_def)
  have i0: "vbr_state_inv ?n 0 (replicate 4 [], replicate 4 [], psv)"
    using sh th by (simp add: vbr_state_inv_def)
  obtain st1 where s1:
    "for_loop (vbr_long_chn h c fftenergy) [0..<?n] (replicate 4 [], replicate 4 [], psv) = Some st1"
    "vbr_state_inv ?n ?n st1"
    using for_loop_upt_invariant[where P = "vbr_state_inv ?n" and body = "vbr_long_chn h c fftenergy"
        and lo = 0 and hi = ?n, OF i0]
      vbr_long_chn_inv[OF ok]
    by blast
  obtain st2 where s2:
    "vbr_ms_case c uselong 2 (cd_psy_l c) (cb_l (gfc_ATH c)) st1 = Some st2"
    "vbr_state_inv ?n ?n st2"
    using vbr_ms_case_inv[OF s1(2) j tl(2) tl(14) k(5)] by blast
  obtain st3 where s3:
    "for_loop (vbr_convert_l_chn c uselong) [0..<?n] st2 = Some st3" "vbr_state_inv ?n ?n st3"
    using for_loop_invariant[where P = "vbr_state_inv ?n ?n" and body = "vbr_convert_l_chn c uselong",
        OF s2(2)]
      vbr_convert_l_chn_inv[OF k(1) _ k(11)]
    by blast
  obtain st4 where s4:
    "for_loop (vbr_short_sblock c uselong fftenergy_s) [0..<3] st3 = Some st4"
    "vbr_state_inv ?n ?n st4"
    using for_loop_invariant[where P = "vbr_state_inv ?n ?n"
        and body = "vbr_short_sblock c uselong fftenergy_s", OF s3(2)]
      vbr_short_sblock_inv[OF ok]
    by blast
  obtain ebs thrs psv4 where st4: "st4 = (ebs, thrs, psv4)" by (cases st4) auto
  note i4 = vbr_state_invD[OF s4(2)[unfolded st4]]
  have p4: "psv_shape psv4 \<and> thresholds_between ?n psv4" using i4(4,5) by simp
  obtain psv5 where s5:
    "for_loop (vbr_pre_echo_chn h uselong ns_attacks
                 (map (\<lambda>es. map (sub_short_factor_of es) [0..<3]) en_sub)) [0..<?n] psv4 = Some psv5"
    "psv_shape psv5 \<and> thresholds_between ?n psv5"
    using for_loop_invariant[where P = "\<lambda>p. psv_shape p \<and> thresholds_between ?n p"
        and body = "vbr_pre_echo_chn h uselong ns_attacks
                 (map (\<lambda>es. map (sub_short_factor_of es) [0..<3]) en_sub)", OF p4]
      vbr_pre_echo_chn_inv[OF ok]
    by blast
  note sp = psv_shapeD[OF conjunct1[OF s5(2)]]
  let ?psv = "psv5\<lparr>last_attacks := map (\<lambda>chn. if chn < ?n then ns_attacks ! chn ! 2
                                               else last_attacks psv5 ! chn)
                                        [0..<length (last_attacks psv5)]\<rparr>"
  have g: "?n \<le> length (last_attacks psv5)" "?n \<le> length ns_attacks"
    using sp(14) k(11,13) by simp_all
  have r: "L3psycho_anal_vbr_thresholds h c uselong ns_attacks en_sub fftenergy fftenergy_s psv
             = Some ?psv"
    unfolding L3psycho_anal_vbr_thresholds_def using s1(1) s2(1) s3(1) s4(1) st4 s5(1) g by simp
  have "psv_shape ?psv" using s5(2) by (simp add: psv_shape_def)
  moreover have "thresholds_between ?n ?psv" using s5(2) by (simp add: thresholds_between_def)
  ultimately show ?thesis using r by blast
qed

text \<open>
  The example: joint stereo, long blocks in both channels, no attack, the state of
  \<^verbatim>\<open>psymodel_init\<close>.
\<close>

theorem vbr_thresholds_between_witness:
  "vbr_call_ok example_header example_config [1, 1] (replicate 4 [0, 0, 0, 0])
       (replicate 4 (replicate 12 1)) (replicate 4 example_fftenergy)
       (replicate 4 (replicate 3 example_fftenergy_s))
   \<and> psv_shape example_psv \<and> thresholds_between (n_chn_psy example_config) example_psv
   \<and> (\<exists>psv'. L3psycho_anal_vbr_thresholds example_header example_config [1, 1]
                  (replicate 4 [0, 0, 0, 0]) (replicate 4 (replicate 12 1))
                  (replicate 4 example_fftenergy) (replicate 4 (replicate 3 example_fftenergy_s))
                  example_psv = Some psv'
          \<and> psv_shape psv' \<and> thresholds_between (n_chn_psy example_config) psv')"
proof -
  have tl: "psy_tables_ok example_tables SBMAX_l"
    by (simp add: psy_tables_ok_def example_tables_def CBANDS_def SBMAX_l_def s3_used_def
        upt_rec list_all_iff)
  have ts: "psy_tables_ok example_tables_s SBMAX_s"
    by (simp add: psy_tables_ok_def example_tables_s_def CBANDS_def SBMAX_s_def s3_used_def
        upt_rec list_all_iff)
  have ll: "lines_used example_tables = HBLKSIZE"
    by (simp add: lines_used_def example_tables_def HBLKSIZE_def upt_rec)
  have ls: "lines_used example_tables_s = HBLKSIZE_s"
    by (simp add: lines_used_def example_tables_s_def HBLKSIZE_s_def upt_rec)
  have n: "n_chn_psy example_config = 4" by (simp add: n_chn_psy_def example_config_def)
  have fl: "length example_fftenergy = HBLKSIZE" "list_all (\<lambda>e. 0 \<le> e) example_fftenergy"
    by (simp_all add: example_fftenergy_def HBLKSIZE_def list_all_iff)
  have fs: "length example_fftenergy_s = HBLKSIZE_s" "list_all (\<lambda>e. 0 \<le> e) example_fftenergy_s"
    by (simp_all add: example_fftenergy_s_def HBLKSIZE_s_def list_all_iff)
  have c: "cd_psy_l example_config = example_tables" "cd_psy_s example_config = example_tables_s"
      "gfc_ATH example_config = example_ath" "sv_qnt_masking_lower example_config = 1"
    by (simp_all add: example_config_def)
  have h1: "vbr_call_ok example_header example_config [1, 1] (replicate 4 [0, 0, 0, 0])
       (replicate 4 (replicate 12 1)) (replicate 4 example_fftenergy)
       (replicate 4 (replicate 3 example_fftenergy_s))"
    unfolding vbr_call_ok_def c n
    using tl ts ll ls fl fs
    by (simp add: example_tables_def example_tables_s_def example_ath_def example_header_def
        list_all_iff)
  have h2: "psv_shape example_psv"
    by (simp add: example_psv_def psymodel_init_def psv_calloc_def psv_shape_def xmin_shape_def
        list_all_iff)
  have h3: "thresholds_between (n_chn_psy example_config) example_psv"
    unfolding n
    by (simp add: example_psv_def psymodel_init_def psv_calloc_def thresholds_between_def
        xmin_between_def list_all_iff)
  show ?thesis using vbr_thresholds_between[OF h1 h2 h3] h1 h2 h3 by simp
qed

text \<open>
  Claim C1 as stated fails in \<^verbatim>\<open>L3psycho_anal_ns\<close>, which has no limit by the energy: in a
  mono session with \<^verbatim>\<open>pcfact = 0.6\<close>, on the tables and the long-block energies of the example,
  the threshold of the second scalefactor band is above 79, the energy 0.5.
\<close>

theorem ns_threshold_exceeds_energy:
  "ns_long_thresholds example_header example_tables example_ath (6 / 10) NORM_TYPE
       example_fftenergy example_nb example_nb
     = Some ([2001 / 2, 1 / 2] @ replicate 20 0,
             [3 / 2 * (1001 * 0.158489319246111),
              1 / 2 * (1001 * 0.158489319246111)] @ replicate 20 0)
   \<and> ([2001 / 2, 1 / 2] @ replicate 20 (0::real)) ! 1
       < ([3 / 2 * (1001 * 0.158489319246111),
           1 / 2 * (1001 * 0.158489319246111)] @ replicate 20 0) ! 1"
proof -
  have n: "npart example_tables = 2" by (simp add: example_tables_def)
  have c: "convert_partition2scalefac_l example_tables
             ([1000, 1] @ replicate (CBANDS + 1 - 2) 0)
             ([1001 * 0.158489319246111, 1001 * 0.158489319246111]
                @ replicate (CBANDS + 1 - 2) 0)
     = Some ([2001 / 2, 1 / 2] @ replicate 20 0,
             [3 / 2 * (1001 * 0.158489319246111),
              1 / 2 * (1001 * 0.158489319246111)] @ replicate 20 0)"
    by (simp add: convert_partition2scalefac_l_def SBMAX_l_def CBANDS_def upt_rec
        example_tables_def Let_def replicate_20)
  have "ns_long_thresholds example_header example_tables example_ath (6 / 10) NORM_TYPE
       example_fftenergy example_nb example_nb
     = Some ([2001 / 2, 1 / 2] @ replicate 20 0,
             [3 / 2 * (1001 * 0.158489319246111),
              1 / 2 * (1001 * 0.158489319246111)] @ replicate 20 0)"
    unfolding ns_long_thresholds_def n
    using example_energy example_mask_index example_ns_steps c
    by (simp add: CBANDS_def)
  then show ?thesis by simp
qed
end
